(* ===== verification/Prelude.thy ===== *)
theory Prelude
  imports Main "HOL-Library.Word"
begin

text \<open>
  The prelude of the development: the machine integers of the runtime, the integer operations of
  the Rust standard library that the pallets use, the shape of a dispatchable call, sums over
  storage maps, and the generic interface of a transition system with an invariant.

  Rust's plain \<^verbatim>\<open>+\<close> is the wrapping \<open>+\<close> of \<open>'w word\<close>: the workspace's release profile
  (\<^verbatim>\<open>Cargo.toml\<close>) does not switch overflow checks on.
\<close>

section \<open>Machine integers\<close>

type_synonym u8 = "8 word"
type_synonym u32 = "32 word"
type_synonym u64 = "64 word"
type_synonym u128 = "128 word"

text \<open>The collection \<open>word_nat\<close> moves a goal about words to their values in \<^typ>\<open>nat\<close>.\<close>

named_theorems word_nat

definition saturating_add :: "'w::len word \<Rightarrow> 'w word \<Rightarrow> 'w word" where
  "saturating_add a b = (if unat a + unat b < 2 ^ LENGTH('w) then a + b else - 1)"

definition saturating_sub :: "'w::len word \<Rightarrow> 'w word \<Rightarrow> 'w word" where
  "saturating_sub a b = (if b \<le> a then a - b else 0)"

definition checked_add :: "'w::len word \<Rightarrow> 'w word \<Rightarrow> 'w word option" where
  "checked_add a b = (if unat a + unat b < 2 ^ LENGTH('w) then Some (a + b) else None)"

definition checked_sub :: "'w::len word \<Rightarrow> 'w word \<Rightarrow> 'w word option" where
  "checked_sub a b = (if b \<le> a then Some (a - b) else None)"

text \<open>The cast \<^verbatim>\<open>xs.len() as u32\<close>: a length keeps its low 32 bits.\<close>

definition len_u32 :: "'x list \<Rightarrow> u32" where
  "len_u32 xs = of_nat (length xs)"

declare word_le_nat_alt [word_nat] word_less_nat_alt [word_nat] word_unat_eq_iff [word_nat]

lemma unat_max_word: "unat (- 1 :: 'w::len word) = 2 ^ LENGTH('w) - 1"
  by (simp add: unsigned_minus_1_eq_mask mask_eq_exp_minus_1)

lemma unat_saturating_add [word_nat]:
  fixes a b :: "'w::len word"
  shows "unat (saturating_add a b) = min (2 ^ LENGTH('w) - 1) (unat a + unat b)"
  unfolding saturating_add_def
  by (auto simp: unat_max_word unat_word_ariths min_def)

lemma unat_saturating_sub [word_nat]:
  fixes a b :: "'w::len word"
  shows "unat (saturating_sub a b) = unat a - unat b"
  unfolding saturating_sub_def
  by (auto simp: unat_sub word_le_nat_alt)

lemma checked_add_Some_iff:
  fixes a b c :: "'w::len word"
  shows "checked_add a b = Some c \<longleftrightarrow> unat c = unat a + unat b"
proof
  assume "checked_add a b = Some c"
  then show "unat c = unat a + unat b"
    by (auto simp: checked_add_def unat_word_ariths split: if_splits)
next
  assume sum: "unat c = unat a + unat b"
  moreover have "unat c < 2 ^ LENGTH('w)" by (rule unsigned_less)
  ultimately show "checked_add a b = Some c"
    by (auto simp: checked_add_def word_unat_eq_iff unat_word_ariths)
qed

lemma saturating_add_exact:
  fixes a b :: "'w::len word"
  assumes "unat a + unat b < 2 ^ LENGTH('w)"
  shows "unat (saturating_add a b) = unat a + unat b"
  using assms by (simp add: unat_saturating_add)

lemma saturating_sub_cancel [simp]: "saturating_sub a a = 0"
  by (simp add: saturating_sub_def)

lemma saturating_sub_0 [simp]: "saturating_sub a 0 = a"
  by (simp add: saturating_sub_def)

lemma saturating_add_0 [simp]: "saturating_add 0 b = b" "saturating_add a 0 = a"
  by (simp_all add: saturating_add_def)

lemma plus_no_wrap:
  fixes a b :: "'w::len word"
  assumes "unat a + unat b < 2 ^ LENGTH('w)"
  shows "unat (a + b) = unat a + unat b"
  using assms by (simp add: unat_word_ariths)

lemma unat_plus_one:
  fixes a c :: "'w::len word"
  assumes "a < c"
  shows "unat (a + 1) = unat a + 1"
proof -
  have "unat a + 1 \<le> unat c" using assms by (simp add: word_less_nat_alt)
  also have "\<dots> < 2 ^ LENGTH('w)" by (rule unsigned_less)
  finally show ?thesis by (simp add: plus_no_wrap)
qed

lemma len_u32_exact:
  assumes "length xs < 2 ^ 32"
  shows "unat (len_u32 xs) = length xs"
  using assms by (simp add: len_u32_def unat_of_nat)

section \<open>Dispatchable calls\<close>

text \<open>
  A dispatchable reads and writes the storage and returns \<^verbatim>\<open>DispatchResult\<close>. What it wrote before it
  returned an error stays written, so the storage is part of the outcome of an error as well:
  \<^verbatim>\<open>Ok(())\<close> is \<open>Inr ()\<close> and \<^verbatim>\<open>Err(e)\<close> is \<open>Inl e\<close>. \<open>'m\<close> is the error enumeration of the pallet,
  \<open>'e\<close> the errors that other pallets hand to it through \<^verbatim>\<open>?\<close>.
\<close>

datatype ('m, 'e) dispatch_error =
    BadOrigin
  | Overflow
  | Module 'm
  | External 'e

type_synonym ('s, 'err) outcome = "('err + unit) \<times> 's"

section \<open>Sums over storage maps\<close>

text \<open>\<open>msum f m\<close> adds \<open>f k v\<close> over the entries \<open>(k, v)\<close> of a storage map.\<close>

definition msum :: "('k \<Rightarrow> 'v \<Rightarrow> nat) \<Rightarrow> ('k \<rightharpoonup> 'v) \<Rightarrow> nat" where
  "msum f m = (\<Sum>k\<in>dom m. f k (the (m k)))"

definition entry :: "('k \<Rightarrow> 'v \<Rightarrow> nat) \<Rightarrow> ('k \<rightharpoonup> 'v) \<Rightarrow> 'k \<Rightarrow> nat" where
  "entry f m k = (case m k of None \<Rightarrow> 0 | Some v \<Rightarrow> f k v)"

lemma msum_empty [simp]: "msum f Map.empty = 0"
  by (simp add: msum_def)

lemma msum_remove:
  assumes "finite (dom m)"
  shows "msum f (m(k := None)) + entry f m k = msum f m"
proof (cases "m k")
  case None
  then have "m(k := None) = m" by auto
  with None show ?thesis by (simp add: entry_def)
next
  case (Some v)
  then have k: "k \<in> dom m" by auto
  have "msum f (m(k := None)) = (\<Sum>j\<in>dom m - {k}. f j (the (m j)))"
    unfolding msum_def by (intro sum.cong) auto
  with Some show ?thesis
    unfolding msum_def entry_def by (simp add: sum.remove [OF assms k] add.commute)
qed

lemma msum_update:
  assumes "finite (dom m)"
  shows "msum f (m(k \<mapsto> v)) + entry f m k = msum f m + f k v"
proof -
  let ?m = "m(k := None)"
  have "finite (dom ?m)" using assms by simp
  from msum_remove [OF assms, of f k]
  have "msum f ?m + entry f m k = msum f m" .
  moreover have "msum f (m(k \<mapsto> v)) = msum f ?m + f k v"
  proof -
    have "msum f ((m(k \<mapsto> v))(k := None)) + entry f (m(k \<mapsto> v)) k = msum f (m(k \<mapsto> v))"
      using assms by (intro msum_remove) simp
    then show ?thesis by (simp add: entry_def)
  qed
  ultimately show ?thesis by simp
qed

lemma msum_cong:
  assumes "\<And>k v. m k = Some v \<Longrightarrow> f k v = g k v"
  shows "msum f m = msum g m"
  unfolding msum_def using assms by (intro sum.cong) auto

lemma entry_le_msum:
  assumes "finite (dom m)"
  shows "entry f m k \<le> msum f m"
  using msum_remove [OF assms, of f k] by linarith

section \<open>Transition systems with an invariant\<close>

text \<open>
  The interface of a component whose operations are steps of a relation and keep an invariant:
  what holds for one step holds for every run.
\<close>

locale invariant_system =
  fixes step :: "'s \<Rightarrow> 's \<Rightarrow> bool"
    and invar :: "'s \<Rightarrow> bool"
  assumes step_invar: "step s t \<Longrightarrow> invar s \<Longrightarrow> invar t"
begin

lemma run_invar: "step\<^sup>*\<^sup>* s t \<Longrightarrow> invar s \<Longrightarrow> invar t"
  by (induction rule: rtranclp_induct) (auto intro: step_invar)

end

end
