(* ===== verification/Staker_Info.thy ===== *)
theory Staker_Info
  imports Prelude
begin

text \<open>
  The stake history of a \<open>(staker, provider)\<close> pair: \<^verbatim>\<open>EraStake\<close> and \<^verbatim>\<open>StakerInfo\<close> of
  \<^verbatim>\<open>pallets/dapi-staking/src/lib.rs\<close> with every method, the abstract reading of a history as a
  function from eras to staked amounts, and the interface \<open>stake_history\<close> that the pallet relies on.
\<close>

section \<open>Data and operations\<close>

type_synonym balance = u128
type_synonym era_index = u32

record era_stake =
  es_staked :: balance
  es_era :: era_index

definition EraStake_new :: "balance \<Rightarrow> era_index \<Rightarrow> era_stake" where
  "EraStake_new staked era = \<lparr>es_staked = staked, es_era = era\<rparr>"

record staker_info =
  stakes :: "era_stake list"

definition StakerInfo_default :: staker_info where
  "StakerInfo_default = \<lparr>stakes = []\<rparr>"

definition StakerInfo_is_empty :: "staker_info \<Rightarrow> bool" where
  "StakerInfo_is_empty self \<longleftrightarrow> stakes self = []"

definition StakerInfo_len :: "staker_info \<Rightarrow> u32" where
  "StakerInfo_len self = len_u32 (stakes self)"

text \<open>\<^verbatim>\<open>slice::last\<close>: \<^verbatim>\<open>None\<close> for an empty vector.\<close>

definition vec_last :: "'x list \<Rightarrow> 'x option" where
  "vec_last xs = (if xs = [] then None else Some (last xs))"

text \<open>\<^verbatim>\<open>stake\<close> leaves \<^verbatim>\<open>self\<close> unchanged when it returns the error.\<close>

definition StakerInfo_stake :: "staker_info \<Rightarrow> era_index \<Rightarrow> balance \<Rightarrow> string + staker_info" where
  "StakerInfo_stake self current_era value =
     (case vec_last (stakes self) of
        Some era_stake \<Rightarrow>
          if es_era era_stake > current_era then Inl ''Unexpected era''
          else
            let new_stake_value = saturating_add (es_staked era_stake) value in
            if current_era = es_era era_stake
            then Inr (self\<lparr>stakes :=
                   butlast (stakes self) @ [EraStake_new new_stake_value current_era]\<rparr>)
            else Inr (self\<lparr>stakes := stakes self @ [EraStake_new new_stake_value current_era]\<rparr>)
      | None \<Rightarrow> Inr (self\<lparr>stakes := stakes self @ [EraStake_new value current_era]\<rparr>))"

text \<open>The removal of a leading entry with nothing staked, which ends \<^verbatim>\<open>unstake\<close> and \<^verbatim>\<open>claim\<close>.\<close>

definition remove_unstaked_head :: "era_stake list \<Rightarrow> era_stake list" where
  "remove_unstaked_head xs =
     (case xs of [] \<Rightarrow> [] | x # rest \<Rightarrow> if es_staked x = 0 then rest else x # rest)"

definition StakerInfo_unstake :: "staker_info \<Rightarrow> era_index \<Rightarrow> balance \<Rightarrow> string + staker_info" where
  "StakerInfo_unstake self current_era value =
     (case vec_last (stakes self) of
        Some era_stake \<Rightarrow>
          if es_era era_stake > current_era then Inl ''Unexpected era''
          else
            let new_stake_value = saturating_sub (es_staked era_stake) value;
                moved =
                  (if current_era = es_era era_stake
                   then butlast (stakes self) @ [EraStake_new new_stake_value current_era]
                   else stakes self @ [EraStake_new new_stake_value current_era])
            in Inr (self\<lparr>stakes := remove_unstaked_head moved\<rparr>)
      | None \<Rightarrow> Inr self)"

text \<open>\<^verbatim>\<open>claim\<close> returns the claimed pair and the history that is left.\<close>

definition StakerInfo_claim :: "staker_info \<Rightarrow> (era_index \<times> balance) \<times> staker_info" where
  "StakerInfo_claim self =
     (case stakes self of
        era_stake # rest \<Rightarrow>
          let moved =
                (if length (stakes self) = 1 \<or> es_era (stakes self ! 1) > es_era era_stake + 1
                 then \<lparr>es_staked = es_staked era_stake,
                       es_era = saturating_add (es_era era_stake) 1\<rparr> # rest
                 else rest)
          in ((es_era era_stake, es_staked era_stake),
              self\<lparr>stakes := remove_unstaked_head moved\<rparr>)
      | [] \<Rightarrow> ((0, 0), self))"

definition latest_staked_value :: "staker_info \<Rightarrow> balance" where
  "latest_staked_value self =
     (case vec_last (stakes self) of None \<Rightarrow> 0 | Some x \<Rightarrow> es_staked x)"

section \<open>The history as a function of the era\<close>

text \<open>
  An entry holds from its era on until the next entry; before the first entry nothing is staked.
  \<open>staked_at h e\<close> is the amount a history assigns to era \<open>e\<close>, the reading the comments of
  \<^verbatim>\<open>StakerInfo\<close> give to the vector.
\<close>

primrec staked_from :: "balance \<Rightarrow> era_stake list \<Rightarrow> era_index \<Rightarrow> balance" where
  "staked_from acc [] e = acc"
| "staked_from acc (x # xs) e = (if es_era x \<le> e then staked_from (es_staked x) xs e else acc)"

definition staked_at :: "staker_info \<Rightarrow> era_index \<Rightarrow> balance" where
  "staked_at h e = staked_from 0 (stakes h) e"

text \<open>The well-formedness of a history: its eras increase strictly.\<close>

definition history_ok :: "staker_info \<Rightarrow> bool" where
  "history_ok h \<longleftrightarrow> sorted_wrt (<) (map es_era (stakes h))"

text \<open>A history is settled at an era when it has no entry for a later one.\<close>

definition settled :: "staker_info \<Rightarrow> era_index \<Rightarrow> bool" where
  "settled h c \<longleftrightarrow> list_all (\<lambda>x. es_era x \<le> c) (stakes h)"

text \<open>Nothing of a history lies at or before an era: everything up to it has been claimed.\<close>

definition claimed_upto :: "staker_info \<Rightarrow> era_index \<Rightarrow> bool" where
  "claimed_upto h c \<longleftrightarrow> list_all (\<lambda>x. c < es_era x) (stakes h)"

lemmas staker_info_defs =
  StakerInfo_default_def StakerInfo_is_empty_def StakerInfo_len_def StakerInfo_stake_def
  StakerInfo_unstake_def StakerInfo_claim_def latest_staked_value_def EraStake_new_def vec_last_def

lemmas history_defs = staked_at_def history_ok_def settled_def claimed_upto_def

lemma vec_last_snoc [simp]: "vec_last (xs @ [x]) = Some x"
  by (simp add: vec_last_def)

lemma vec_last_Nil [simp]: "vec_last [] = None"
  by (simp add: vec_last_def)

lemma staked_from_later:
  "list_all (\<lambda>x. e < es_era x) xs \<Longrightarrow> staked_from a xs e = a"
  by (cases xs) auto

lemma staked_from_settled:
  "list_all (\<lambda>x. es_era x \<le> e) xs \<Longrightarrow>
     staked_from a xs e = (if xs = [] then a else es_staked (last xs))"
  by (induction xs arbitrary: a) auto

lemma staked_from_snoc:
  assumes "list_all (\<lambda>x. es_era x < es_era y) xs"
  shows "staked_from a (xs @ [y]) e =
     (if es_era y \<le> e then es_staked y else staked_from a xs e)"
  using assms by (induction xs arbitrary: a) auto

lemma staked_from_remove_unstaked_head:
  assumes "sorted_wrt (<) (map es_era xs)"
  shows "staked_from 0 (remove_unstaked_head xs) e = staked_from 0 xs e"
proof (cases xs)
  case (Cons x rest)
  have "staked_from 0 rest e = 0" if "e < es_era x"
    using assms Cons that by (intro staked_from_later) (auto simp: list_all_iff)
  with Cons show ?thesis by (auto simp: remove_unstaked_head_def not_le)
qed (simp add: remove_unstaked_head_def)

lemma set_remove_unstaked_head: "set (remove_unstaked_head xs) \<subseteq> set xs"
  by (auto simp: remove_unstaked_head_def split: list.splits if_splits)

lemma sorted_remove_unstaked_head:
  "sorted_wrt (<) (map es_era xs) \<Longrightarrow> sorted_wrt (<) (map es_era (remove_unstaked_head xs))"
  by (auto simp: remove_unstaked_head_def split: list.splits)

text \<open>
  \<^verbatim>\<open>stake\<close> and \<^verbatim>\<open>unstake\<close> both put one entry at the end of the vector, in place of the last one when the
  era is the same. \<open>put_stake\<close> is that step, and its lemmas serve both.
\<close>

definition put_stake :: "era_stake list \<Rightarrow> era_index \<Rightarrow> balance \<Rightarrow> era_stake list" where
  "put_stake xs c v =
     (if xs \<noteq> [] \<and> es_era (last xs) = c then butlast xs else xs) @ [EraStake_new v c]"

lemma sorted_eras_butlast:
  assumes "sorted_wrt (<) (map es_era xs)" "xs \<noteq> []"
  shows "sorted_wrt (<) (map es_era (butlast xs))"
    "list_all (\<lambda>x. es_era x < es_era (last xs)) (butlast xs)"
  using assms by (cases xs rule: rev_cases; auto simp: sorted_wrt_append list_all_iff)+

lemma put_stake_before:
  assumes "sorted_wrt (<) (map es_era xs)" "list_all (\<lambda>x. es_era x \<le> c) xs"
  shows "list_all (\<lambda>x. es_era x < c)
     (if xs \<noteq> [] \<and> es_era (last xs) = c then butlast xs else xs)"
  using assms
  by (cases xs rule: rev_cases) (fastforce simp: list_all_iff sorted_wrt_append)+

lemma sorted_put_stake:
  assumes "sorted_wrt (<) (map es_era xs)" "list_all (\<lambda>x. es_era x \<le> c) xs"
  shows "sorted_wrt (<) (map es_era (put_stake xs c v))"
  using put_stake_before [OF assms] assms(1) sorted_eras_butlast(1) [OF assms(1)]
  by (auto simp: put_stake_def EraStake_new_def sorted_wrt_append list_all_iff)

lemma staked_from_put_stake:
  assumes "sorted_wrt (<) (map es_era xs)" "list_all (\<lambda>x. es_era x \<le> c) xs"
  shows "staked_from a (put_stake xs c v) e = (if c \<le> e then v else staked_from a xs e)"
proof -
  let ?ys = "if xs \<noteq> [] \<and> es_era (last xs) = c then butlast xs else xs"
  have "staked_from a ?ys e = staked_from a xs e" if "e < c"
    using that staked_from_snoc [OF sorted_eras_butlast(2) [OF assms(1)], of a e]
    by (cases xs rule: rev_cases) auto
  then show ?thesis
    using staked_from_snoc [of "EraStake_new v c" ?ys a e] put_stake_before [OF assms]
    by (auto simp: put_stake_def EraStake_new_def not_le)
qed

lemma last_put_stake [simp]: "last (put_stake xs c v) = EraStake_new v c" "put_stake xs c v \<noteq> []"
  by (auto simp: put_stake_def)

lemma set_put_stake: "set (put_stake xs c v) \<subseteq> insert (EraStake_new v c) (set xs)"
  by (auto simp: put_stake_def dest: in_set_butlastD)

lemma settled_last:
  assumes "history_ok h"
  shows "settled h c \<longleftrightarrow> stakes h = [] \<or> es_era (last (stakes h)) \<le> c"
  using assms
  by (cases "stakes h" rule: rev_cases)
    (force simp: history_defs sorted_wrt_append list_all_iff)+

lemma latest_staked_value_eq:
  "latest_staked_value h = (if stakes h = [] then 0 else es_staked (last (stakes h)))"
  by (simp add: latest_staked_value_def vec_last_def)

lemma StakerInfo_stake_eq:
  "StakerInfo_stake h c v =
     (if stakes h \<noteq> [] \<and> c < es_era (last (stakes h)) then Inl ''Unexpected era''
      else Inr (h\<lparr>stakes := put_stake (stakes h) c (saturating_add (latest_staked_value h) v)\<rparr>))"
  by (auto simp: staker_info_defs put_stake_def Let_def)

lemma StakerInfo_unstake_eq:
  "StakerInfo_unstake h c v =
     (if stakes h = [] then Inr h
      else if c < es_era (last (stakes h)) then Inl ''Unexpected era''
      else Inr (h\<lparr>stakes := remove_unstaked_head
             (put_stake (stakes h) c (saturating_sub (latest_staked_value h) v))\<rparr>))"
  by (auto simp: staker_info_defs put_stake_def Let_def)

section \<open>What each operation does to a history\<close>

lemma StakerInfo_stake_settled:
  assumes "history_ok h" "settled h c"
  shows "StakerInfo_stake h c v =
    Inr (h\<lparr>stakes := put_stake (stakes h) c (saturating_add (latest_staked_value h) v)\<rparr>)"
  using settled_last [OF assms(1), of c] assms(2) by (auto simp: StakerInfo_stake_eq)

lemma StakerInfo_unstake_settled:
  assumes "history_ok h" "settled h c"
  shows "\<exists>h'. StakerInfo_unstake h c v = Inr h'"
  using settled_last [OF assms(1), of c] assms(2) by (auto simp: StakerInfo_unstake_eq)

lemma StakerInfo_Inr_settled:
  assumes "history_ok h"
  shows "StakerInfo_stake h c v = Inr h' \<Longrightarrow> settled h c"
    and "StakerInfo_unstake h c v = Inr h' \<Longrightarrow> settled h c"
  using settled_last [OF assms, of c]
  by (auto simp: StakerInfo_stake_eq StakerInfo_unstake_eq split: if_splits)

lemma settled_put_stake:
  "list_all (\<lambda>x. es_era x \<le> c) xs \<Longrightarrow> list_all (\<lambda>x. es_era x \<le> c) (put_stake xs c v)"
  using set_put_stake [of xs c v] by (auto simp: list_all_iff EraStake_new_def)

lemma StakerInfo_stake_ok:
  assumes "history_ok h" "StakerInfo_stake h c v = Inr h'"
  shows "history_ok h'" "settled h' c"
    "staked_at h' e = (if c \<le> e then saturating_add (latest_staked_value h) v else staked_at h e)"
proof -
  note s = StakerInfo_Inr_settled(1) [OF assms]
  have h': "h' = h\<lparr>stakes := put_stake (stakes h) c (saturating_add (latest_staked_value h) v)\<rparr>"
    using assms(2) StakerInfo_stake_settled [OF assms(1) s] by simp
  show "history_ok h'" "settled h' c"
    "staked_at h' e = (if c \<le> e then saturating_add (latest_staked_value h) v else staked_at h e)"
    using assms(1) s
    by (simp_all add: h' history_defs sorted_put_stake settled_put_stake staked_from_put_stake)
qed

lemma StakerInfo_unstake_ok:
  assumes "history_ok h" "StakerInfo_unstake h c v = Inr h'"
  shows "history_ok h'" "settled h' c"
    "staked_at h' e = (if c \<le> e then saturating_sub (latest_staked_value h) v else staked_at h e)"
proof -
  note s = StakerInfo_Inr_settled(2) [OF assms]
  let ?put = "put_stake (stakes h) c (saturating_sub (latest_staked_value h) v)"
  have put: "sorted_wrt (<) (map es_era ?put)" "list_all (\<lambda>x. es_era x \<le> c) ?put"
    using assms(1) s by (simp_all add: history_defs sorted_put_stake settled_put_stake)
  have "history_ok h' \<and> settled h' c \<and>
    staked_at h' e = (if c \<le> e then saturating_sub (latest_staked_value h) v else staked_at h e)"
  proof (cases "stakes h = []")
    case True
    with assms show ?thesis
      by (simp add: StakerInfo_unstake_eq history_defs latest_staked_value_eq saturating_sub_def)
  next
    case False
    then have h': "h' = h\<lparr>stakes := remove_unstaked_head ?put\<rparr>"
      using assms(2) by (auto simp: StakerInfo_unstake_eq split: if_splits)
    show ?thesis
      using put set_remove_unstaked_head [of ?put] assms(1) s
      by (auto simp: h' history_defs sorted_remove_unstaked_head staked_from_remove_unstaked_head
          staked_from_put_stake list_all_iff)
  qed
  then show "history_ok h'" "settled h' c"
    "staked_at h' e = (if c \<le> e then saturating_sub (latest_staked_value h) v else staked_at h e)"
    by blast+
qed

lemma latest_settled:
  assumes "settled h c" "c \<le> e"
  shows "staked_at h e = latest_staked_value h"
proof -
  have "list_all (\<lambda>x. es_era x \<le> e) (stakes h)"
    using assms by (auto simp: settled_def list_all_iff intro: order_trans)
  then show ?thesis
    by (simp add: staked_at_def latest_staked_value_eq staked_from_settled)
qed

lemma saturating_succ_le_iff:
  fixes e c e' :: "'w::len word"
  assumes "e < c"
  shows "saturating_add e 1 \<le> e' \<longleftrightarrow> e < e'" "e + 1 \<le> e' \<longleftrightarrow> e < e'" "e < e + 1"
    "saturating_add e 1 = e + 1"
  using unat_plus_one [OF assms] unsigned_less [of "e + 1", where 'a = nat]
  by (auto simp: word_nat saturating_add_def)

text \<open>The vector \<^verbatim>\<open>claim\<close> leaves before it drops a leading empty entry.\<close>

lemma claim_moved:
  fixes x :: era_stake
  defines "moved rest \<equiv>
    (if rest = [] \<or> es_era (hd rest) > es_era x + 1
     then \<lparr>es_staked = es_staked x, es_era = saturating_add (es_era x) 1\<rparr> # rest else rest)"
  assumes sorted: "sorted_wrt (<) (map es_era (x # rest))" and e: "es_era x < c"
    and c: "list_all (\<lambda>y. es_era y \<le> c) (x # rest)"
  shows "sorted_wrt (<) (map es_era (moved rest))"
    "list_all (\<lambda>y. es_era y \<le> c) (moved rest)"
    "list_all (\<lambda>y. es_era x < es_era y) (moved rest)"
    "staked_from 0 (moved rest) e' = (if e' \<le> es_era x then 0 else staked_from 0 (x # rest) e')"
proof -
  note succ = saturating_succ_le_iff [OF e]
  have later: "list_all (\<lambda>y. es_era x < es_era y) rest"
    using sorted by (auto simp: list_all_iff)
  have keep: "\<forall>y\<in>set rest. es_era x + 1 < es_era y" if "rest = [] \<or> es_era (hd rest) > es_era x + 1"
    using that sorted by (cases rest) auto
  show "sorted_wrt (<) (map es_era (moved rest))"
    using sorted keep succ(4) by (auto simp: moved_def)
  show "list_all (\<lambda>y. es_era y \<le> c) (moved rest)"
    using c succ(1) e by (auto simp: moved_def)
  show after: "list_all (\<lambda>y. es_era x < es_era y) (moved rest)"
    using later succ(3,4) by (auto simp: moved_def)
  show "staked_from 0 (moved rest) e' = (if e' \<le> es_era x then 0 else staked_from 0 (x # rest) e')"
  proof (cases "e' \<le> es_era x")
    case True
    with after have "list_all (\<lambda>y. e' < es_era y) (moved rest)"
      by (auto simp: list_all_iff intro: le_less_trans)
    with True show ?thesis by (simp add: staked_from_later)
  next
    case False
    then have e': "es_era x < e'" "es_era x \<le> e'" "saturating_add (es_era x) 1 \<le> e'" "es_era x + 1 \<le> e'"
      using succ(1,2) [of e'] by auto
    show ?thesis
    proof (cases "rest = [] \<or> es_era (hd rest) > es_era x + 1")
      case True
      with e' show ?thesis by (auto simp: moved_def)
    next
      case False
      then have "es_era (hd rest) \<le> e'" "rest \<noteq> []" using e'(4) order_trans by auto
      with False e' show ?thesis by (cases rest) (auto simp: moved_def)
    qed
  qed
qed

lemma StakerInfo_claim_Cons:
  assumes "stakes h = x # rest"
  shows "StakerInfo_claim h =
    ((es_era x, es_staked x),
     h\<lparr>stakes := remove_unstaked_head
        (if rest = [] \<or> es_era (hd rest) > es_era x + 1
         then \<lparr>es_staked = es_staked x, es_era = saturating_add (es_era x) 1\<rparr> # rest
         else rest)\<rparr>)"
  using assms by (cases rest) (simp_all add: StakerInfo_claim_def)

lemma StakerInfo_claim_Nil:
  assumes "stakes h = []"
  shows "StakerInfo_claim h = ((0, 0), h)"
  using assms by (simp add: StakerInfo_claim_def)

lemma StakerInfo_claim_ok:
  assumes ok: "history_ok h" and settled: "settled h c"
    and claim: "StakerInfo_claim h = ((e, v), h')" and e: "e < c" and v: "v \<noteq> 0"
  shows "history_ok h'" "settled h' c" "claimed_upto h' e" "v = staked_at h e"
    "staked_at h' e' = (if e' \<le> e then 0 else staked_at h e')"
    "e' < e \<Longrightarrow> staked_at h e' = 0"
proof -
  from claim v obtain x rest where st: "stakes h = x # rest"
    by (cases "stakes h") (auto simp: StakerInfo_claim_Nil)
  let ?moved = "if rest = [] \<or> es_era (hd rest) > es_era x + 1
     then \<lparr>es_staked = es_staked x, es_era = saturating_add (es_era x) 1\<rparr> # rest else rest"
  from claim have ev: "e = es_era x" "v = es_staked x"
    and h': "h' = h\<lparr>stakes := remove_unstaked_head ?moved\<rparr>"
    unfolding StakerInfo_claim_Cons [OF st] by blast+
  have sorted: "sorted_wrt (<) (map es_era (x # rest))"
    and all: "list_all (\<lambda>y. es_era y \<le> c) (x # rest)"
    using ok settled st by (simp_all add: history_defs)
  note moved = claim_moved [OF sorted e [unfolded ev] all]
  show "history_ok h'"
    using moved(1) by (simp add: h' history_defs sorted_remove_unstaked_head)
  show "settled h' c" "claimed_upto h' e"
    using moved(2,3) set_remove_unstaked_head [of ?moved]
    by (auto simp: h' history_defs ev list_all_iff)
  show "staked_at h' e' = (if e' \<le> e then 0 else staked_at h e')"
    using moved(4) [of e'] staked_from_remove_unstaked_head [OF moved(1)]
    by (simp add: h' history_defs ev st)
  have "list_all (\<lambda>y. es_era x < es_era y) rest" using sorted by (auto simp: list_all_iff)
  then show "v = staked_at h e"
    by (simp add: history_defs ev st staked_from_later)
  show "staked_at h e' = 0" if "e' < e"
    using that by (auto simp: history_defs ev st dest: leD)
qed

section \<open>The interface the pallet relies on\<close>

text \<open>
  A stake history as the pallet sees it: \<open>amount\<close> reads it as a function of the era, \<open>latest\<close> is
  what counts from now on, \<open>upto h c\<close> says that it holds no entry after era \<open>c\<close>. The laws say what
  staking, unstaking and claiming do to \<open>amount\<close>.
\<close>

locale stake_history =
  fixes amount :: "'h \<Rightarrow> era_index \<Rightarrow> balance"
    and latest :: "'h \<Rightarrow> balance"
    and invar :: "'h \<Rightarrow> bool"
    and upto :: "'h \<Rightarrow> era_index \<Rightarrow> bool"
    and stake :: "'h \<Rightarrow> era_index \<Rightarrow> balance \<Rightarrow> 'err + 'h"
    and unstake :: "'h \<Rightarrow> era_index \<Rightarrow> balance \<Rightarrow> 'err + 'h"
    and claim :: "'h \<Rightarrow> (era_index \<times> balance) \<times> 'h"
  assumes amount_latest: "upto h c \<Longrightarrow> c \<le> e \<Longrightarrow> amount h e = latest h"
    and stake_defined: "invar h \<Longrightarrow> upto h c \<Longrightarrow> \<exists>h'. stake h c v = Inr h'"
    and unstake_defined: "invar h \<Longrightarrow> upto h c \<Longrightarrow> \<exists>h'. unstake h c v = Inr h'"
    and stake_law: "invar h \<Longrightarrow> stake h c v = Inr h' \<Longrightarrow> invar h' \<and> upto h' c \<and>
      amount h' e = (if c \<le> e then saturating_add (latest h) v else amount h e)"
    and unstake_law: "invar h \<Longrightarrow> unstake h c v = Inr h' \<Longrightarrow> invar h' \<and> upto h' c \<and>
      amount h' e = (if c \<le> e then saturating_sub (latest h) v else amount h e)"
    and claim_invar: "invar h \<Longrightarrow> upto h c \<Longrightarrow> claim h = ((e, v), h') \<Longrightarrow> e < c \<Longrightarrow> v \<noteq> 0 \<Longrightarrow>
      invar h' \<and> upto h' c"
    and claim_amount: "invar h \<Longrightarrow> upto h c \<Longrightarrow> claim h = ((e, v), h') \<Longrightarrow> e < c \<Longrightarrow> v \<noteq> 0 \<Longrightarrow>
      v = amount h e"
    and claim_oldest: "invar h \<Longrightarrow> upto h c \<Longrightarrow> claim h = ((e, v), h') \<Longrightarrow> e < c \<Longrightarrow> v \<noteq> 0 \<Longrightarrow>
      e' < e \<Longrightarrow> amount h e' = 0"
    and claim_rest: "invar h \<Longrightarrow> upto h c \<Longrightarrow> claim h = ((e, v), h') \<Longrightarrow> e < c \<Longrightarrow> v \<noteq> 0 \<Longrightarrow>
      amount h' e' = (if e' \<le> e then 0 else amount h e')"
begin

lemma latest_stake:
  assumes "invar h" "stake h c v = Inr h'"
  shows "latest h' = saturating_add (latest h) v"
  using stake_law [OF assms, of c] amount_latest [of h' c c] by simp

lemma latest_unstake:
  assumes "invar h" "unstake h c v = Inr h'"
  shows "latest h' = saturating_sub (latest h) v"
  using unstake_law [OF assms, of c] amount_latest [of h' c c] by simp

lemma latest_claim:
  assumes "invar h" "upto h c" "claim h = ((e, v), h')" "e < c" "v \<noteq> 0"
  shows "latest h' = latest h"
  using claim_rest [OF assms, of c] claim_invar [OF assms] assms(2,4)
    amount_latest [of h' c c] amount_latest [of h c c] by (auto dest: leD)

lemma stake_unstake_cancel:
  assumes "invar h" "upto h c" "stake h c v = Inr h1" "unstake h1 c v = Inr h2"
    and fits: "unat (latest h) + unat v < 2 ^ 128"
  shows "amount h2 e = amount h e"
proof -
  have h1: "invar h1" "latest h1 = saturating_add (latest h) v"
    using stake_law [OF assms(1,3)] latest_stake [OF assms(1,3)] by auto
  then have "saturating_sub (latest h1) v = latest h"
    using fits by (simp add: word_nat)
  then show ?thesis
    using unstake_law [OF h1(1) assms(4), of e] stake_law [OF assms(1,3), of e]
      amount_latest [OF assms(2), of e]
    by (auto split: if_splits)
qed

end

interpretation staker_info: stake_history staked_at latest_staked_value history_ok settled
  StakerInfo_stake StakerInfo_unstake StakerInfo_claim
proof unfold_locales
  show "settled h c \<Longrightarrow> c \<le> e \<Longrightarrow> staked_at h e = latest_staked_value h" for h c e
    by (rule latest_settled)
  show "history_ok h \<Longrightarrow> settled h c \<Longrightarrow> \<exists>h'. StakerInfo_stake h c v = Inr h'" for h c v
    by (simp add: StakerInfo_stake_settled)
  show "history_ok h \<Longrightarrow> settled h c \<Longrightarrow> \<exists>h'. StakerInfo_unstake h c v = Inr h'" for h c v
    by (rule StakerInfo_unstake_settled)
  show "history_ok h' \<and> settled h' c \<and>
      staked_at h' e = (if c \<le> e then saturating_add (latest_staked_value h) v else staked_at h e)"
    if "history_ok h" "StakerInfo_stake h c v = Inr h'" for h c v h' e
    using StakerInfo_stake_ok [OF that] by blast
  show "history_ok h' \<and> settled h' c \<and>
      staked_at h' e = (if c \<le> e then saturating_sub (latest_staked_value h) v else staked_at h e)"
    if "history_ok h" "StakerInfo_unstake h c v = Inr h'" for h c v h' e
    using StakerInfo_unstake_ok [OF that] by blast
  show "history_ok h' \<and> settled h' c"
    if "history_ok h" "settled h c" "StakerInfo_claim h = ((e, v), h')" "e < c" "v \<noteq> 0" for h c e v h'
    using StakerInfo_claim_ok [OF that] by blast
qed (fact StakerInfo_claim_ok)+

text \<open>
  The pallet claims over and over until nothing is paid (\<^verbatim>\<open>claim_staker\<close> refuses a claim of zero).
  \<open>claims n h\<close> are the pairs that at most \<open>n\<close> successive claims yield.
\<close>

primrec claims :: "nat \<Rightarrow> staker_info \<Rightarrow> (era_index \<times> balance) list" where
  "claims 0 h = []"
| "claims (Suc n) h =
     (case StakerInfo_claim h of ((e, v), h') \<Rightarrow> if v = 0 then [] else (e, v) # claims n h')"

lemma claims_positive: "(e, v) \<in> set (claims n h) \<Longrightarrow> v \<noteq> 0"
  by (induction n arbitrary: h) (auto split: prod.splits if_splits)

text \<open>One claim and the claims after it: they are for later eras, and together they skip none.\<close>

lemma claims_after:
  assumes claim: "history_ok h" "settled h c" "StakerInfo_claim h = ((e, v), h')" "e < c" "v \<noteq> 0"
    and "(e1, v1) \<in> set (claims n h')" "v1 = staked_at h' e1"
  shows "e < e1" "v1 = staked_at h e1"
  using StakerInfo_claim_ok(5) [OF claim, of e1] claims_positive [OF assms(6)] assms(7)
  by (auto split: if_splits)

lemma claims_cover:
  assumes claim: "history_ok h" "settled h c" "StakerInfo_claim h = ((e, v), h')" "e < c" "v \<noteq> 0"
    and rest: "\<forall>(e1, v1) \<in> set xs. \<forall>e' < e1. staked_at h' e' \<noteq> 0 \<longrightarrow> e' \<in> fst ` set xs"
    and "(e1, v1) \<in> insert (e, v) (set xs)" "e' < e1" "staked_at h e' \<noteq> 0"
  shows "e' \<in> fst ` insert (e, v) (set xs)"
proof (cases "e' \<le> e")
  case True
  then have "e' = e" using StakerInfo_claim_ok(6) [OF claim] assms(9) by (meson order_le_less)
  then show ?thesis by simp
next
  case False
  then have "(e1, v1) \<in> set xs" "staked_at h' e' \<noteq> 0"
    using assms(7,8,9) StakerInfo_claim_ok(5) [OF claim, of e'] by auto
  with rest assms(8) have "e' \<in> fst ` set xs" by blast
  then show ?thesis by simp
qed

text \<open>
  C18. Successive claims on a history pay its eras in strictly increasing order, each with exactly the
  amount the history holds for that era, and no era with a stake is skipped.
\<close>

theorem claims_in_order:
  assumes "history_ok h" "settled h c" "\<forall>(e, v) \<in> set (claims n h). e < c"
  shows "sorted_wrt (<) (map fst (claims n h)) \<and>
    (\<forall>(e, v) \<in> set (claims n h). v = staked_at h e \<and>
       (\<forall>e' < e. staked_at h e' \<noteq> 0 \<longrightarrow> e' \<in> fst ` set (claims n h)))"
  using assms
proof (induction n arbitrary: h)
  case 0
  then show ?case by simp
next
  case (Suc n)
  obtain e v h' where claim: "StakerInfo_claim h = ((e, v), h')" by (metis surj_pair)
  show ?case
  proof (cases "v = 0")
    case True
    with claim show ?thesis by simp
  next
    case False
    have e: "e < c" using Suc.prems(3) claim False by simp
    note facts = Suc.prems(1,2) claim e False
    note ok = StakerInfo_claim_ok [OF facts]
    have "\<forall>(e, v) \<in> set (claims n h'). e < c" using Suc.prems(3) claim False by auto
    note IH = Suc.IH [OF ok(1,2) this]
    have later: "e < e1" "v1 = staked_at h e1" if "(e1, v1) \<in> set (claims n h')" for e1 v1
      using claims_after [OF facts that] IH that by auto
    have mem: "set (claims (Suc n) h) = insert (e, v) (set (claims n h'))"
      using claim False by simp
    have amount: "v1 = staked_at h e1" if "(e1, v1) \<in> set (claims (Suc n) h)" for e1 v1
      using that ok(4) later(2) unfolding mem by blast
    have covered: "e' \<in> fst ` set (claims (Suc n) h)"
      if "(e1, v1) \<in> set (claims (Suc n) h)" "e' < e1" "staked_at h e' \<noteq> 0" for e1 v1 e'
      using claims_cover [OF facts, of "claims n h'" e1 v1 e'] IH that unfolding mem by fast
    have "\<forall>y\<in>fst ` set (claims n h'). e < y" using later(1) by force
    then have "sorted_wrt (<) (map fst (claims (Suc n) h))" using claim False IH by simp
    with amount covered show ?thesis by blast
  qed
qed

theorem claims_in_order_witness:
  "claims 3 \<lparr>stakes = [\<lparr>es_staked = 30, es_era = 1\<rparr>, \<lparr>es_staked = 0, es_era = 3\<rparr>]\<rparr> = [(1, 30), (2, 30)] \<and>
   sorted_wrt (<) (map fst (claims 3
     \<lparr>stakes = [\<lparr>es_staked = 30, es_era = 1\<rparr>, \<lparr>es_staked = 0, es_era = 3\<rparr>]\<rparr>))"
proof -
  let ?h = "\<lparr>stakes = [\<lparr>es_staked = 30, es_era = 1\<rparr>, \<lparr>es_staked = 0, es_era = 3\<rparr>]\<rparr>"
  have claims: "claims 3 ?h = [(1, 30), (2, 30)]"
    by (simp add: numeral_3_eq_3 StakerInfo_claim_def remove_unstaked_head_def saturating_add_def)
  have "history_ok ?h" "settled ?h 4" by (simp_all add: history_defs)
  from claims_in_order [OF this, of 3] claims show ?thesis by simp
qed

text \<open>
  C19. \<^verbatim>\<open>stake\<close> and \<^verbatim>\<open>unstake\<close> implement their abstract reading: on a history without entries for later
  eras they succeed, keep it well-formed, and change the staked amount from the current era on and
  nowhere else: by adding, and by subtracting down to zero.
\<close>

theorem history_refines:
  assumes "history_ok h" "settled h c"
  shows "\<exists>h1 h2. StakerInfo_stake h c v = Inr h1 \<and> StakerInfo_unstake h c v = Inr h2 \<and>
    history_ok h1 \<and> history_ok h2 \<and> settled h1 c \<and> settled h2 c \<and>
    staked_at h1 = (\<lambda>e. if c \<le> e then saturating_add (staked_at h c) v else staked_at h e) \<and>
    staked_at h2 = (\<lambda>e. if c \<le> e then saturating_sub (staked_at h c) v else staked_at h e)"
proof -
  obtain h1 h2 where h: "StakerInfo_stake h c v = Inr h1" "StakerInfo_unstake h c v = Inr h2"
    using staker_info.stake_defined [OF assms] staker_info.unstake_defined [OF assms] by blast
  note ok = StakerInfo_stake_ok [OF assms(1) h(1)] StakerInfo_unstake_ok [OF assms(1) h(2)]
  have "staked_at h c = latest_staked_value h" using latest_settled [OF assms(2)] by simp
  with h ok show ?thesis by auto
qed

theorem history_refines_witness:
  "\<exists>h1. StakerInfo_stake \<lparr>stakes = [\<lparr>es_staked = 30, es_era = 1\<rparr>]\<rparr> 3 20 = Inr h1 \<and>
     staked_at h1 2 = 30 \<and> staked_at h1 3 = 50"
proof -
  let ?h = "\<lparr>stakes = [\<lparr>es_staked = 30, es_era = 1\<rparr>]\<rparr>"
  have "history_ok ?h" "settled ?h 3" "staked_at ?h 3 = 30" "staked_at ?h 2 = 30"
    by (simp_all add: history_defs)
  with history_refines [of ?h 3 20] show ?thesis by (auto simp: saturating_add_def)
qed

text \<open>
  C39. Unstaking in the same era what was staked restores the history as a function of the era.
\<close>

theorem stake_unstake_restores:
  assumes "history_ok h" "settled h c" "StakerInfo_stake h c v = Inr h1" "StakerInfo_unstake h1 c v = Inr h2"
    and "unat (latest_staked_value h) + unat v < 2 ^ 128"
  shows "staked_at h2 = staked_at h"
  using staker_info.stake_unstake_cancel [OF assms] by blast

theorem stake_unstake_restores_witness:
  "StakerInfo_unstake \<lparr>stakes = [\<lparr>es_staked = 30, es_era = 1\<rparr>, \<lparr>es_staked = 50, es_era = 3\<rparr>]\<rparr> 3 20 =
     Inr \<lparr>stakes = [\<lparr>es_staked = 30, es_era = 1\<rparr>, \<lparr>es_staked = 30, es_era = 3\<rparr>]\<rparr> \<and>
   staked_at \<lparr>stakes = [\<lparr>es_staked = 30, es_era = 1\<rparr>, \<lparr>es_staked = 30, es_era = 3\<rparr>]\<rparr> =
     staked_at \<lparr>stakes = [\<lparr>es_staked = 30, es_era = 1\<rparr>]\<rparr>"
proof -
  let ?h = "\<lparr>stakes = [\<lparr>es_staked = 30, es_era = 1\<rparr>]\<rparr>"
  let ?h1 = "\<lparr>stakes = [\<lparr>es_staked = 30, es_era = 1\<rparr>, \<lparr>es_staked = 50, es_era = 3\<rparr>]\<rparr>"
  let ?h2 = "\<lparr>stakes = [\<lparr>es_staked = 30, es_era = 1\<rparr>, \<lparr>es_staked = 30, es_era = 3\<rparr>]\<rparr>"
  have "history_ok ?h" "settled ?h 3" "StakerInfo_stake ?h 3 20 = Inr ?h1" "StakerInfo_unstake ?h1 3 20 = Inr ?h2"
    "unat (latest_staked_value ?h) + unat (20 :: balance) < 2 ^ 128"
    by (simp_all add: history_defs staker_info_defs remove_unstaked_head_def saturating_add_def saturating_sub_def)
  from stake_unstake_restores [OF this] this(4) show ?thesis by simp
qed

end
