(* ===== verification/Unbonding.thy ===== *)
theory Unbonding
  imports Staker_Info
begin

text \<open>
  Unbonding: \<^verbatim>\<open>UnlockingChunk\<close>, \<^verbatim>\<open>UnbondingInfo\<close> and \<^verbatim>\<open>AccountLedger\<close> of
  \<^verbatim>\<open>pallets/dapi-staking/src/lib.rs\<close>. The insertion of a chunk goes through the binary search of the
  Rust standard library, which is modelled as the loop it is and proved against a reference
  insertion into a sorted list. The interface \<open>unbonding_queue\<close> says what is due in which era.
\<close>

section \<open>Data and operations\<close>

record unlocking_chunk =
  chunk_amount :: balance
  unlock_era :: era_index

definition UnlockingChunk_add_amount :: "unlocking_chunk \<Rightarrow> balance \<Rightarrow> unlocking_chunk" where
  "UnlockingChunk_add_amount self amount = self\<lparr>chunk_amount := chunk_amount self + amount\<rparr>"

record unbonding_info =
  unlocking_chunks :: "unlocking_chunk list"

definition UnbondingInfo_default :: unbonding_info where
  "UnbondingInfo_default = \<lparr>unlocking_chunks = []\<rparr>"

definition UnbondingInfo_len :: "unbonding_info \<Rightarrow> u32" where
  "UnbondingInfo_len self = len_u32 (unlocking_chunks self)"

definition UnbondingInfo_is_empty :: "unbonding_info \<Rightarrow> bool" where
  "UnbondingInfo_is_empty self \<longleftrightarrow> unlocking_chunks self = []"

text \<open>\<^verbatim>\<open>Iterator::reduce\<close>: \<^verbatim>\<open>None\<close> for an empty iterator, otherwise a left fold from the first item.\<close>

definition reduce :: "('x \<Rightarrow> 'x \<Rightarrow> 'x) \<Rightarrow> 'x list \<Rightarrow> 'x option" where
  "reduce f xs = (case xs of [] \<Rightarrow> None | x # rest \<Rightarrow> Some (foldl f x rest))"

definition UnbondingInfo_sum :: "unbonding_info \<Rightarrow> balance" where
  "UnbondingInfo_sum self =
     (case reduce (+) (map chunk_amount (unlocking_chunks self)) of None \<Rightarrow> 0 | Some c \<Rightarrow> c)"

text \<open>
  \<^verbatim>\<open>slice::binary_search_by\<close>: the loop halves the window \<open>left..right\<close>; \<open>Inr pos\<close> is \<^verbatim>\<open>Ok(pos)\<close>, a match,
  and \<open>Inl pos\<close> is \<^verbatim>\<open>Err(pos)\<close>, the place where an element can be inserted.
\<close>

datatype ordering = Less | Equal | Greater

definition cmp :: "'w::len word \<Rightarrow> 'w word \<Rightarrow> ordering" where
  "cmp a b = (if a < b then Less else if a = b then Equal else Greater)"

function bsearch_loop :: "('x \<Rightarrow> ordering) \<Rightarrow> 'x list \<Rightarrow> nat \<Rightarrow> nat \<Rightarrow> nat + nat" where
  "bsearch_loop f xs left right =
     (if left < right then
        let mid = left + (right - left) div 2 in
        (case f (xs ! mid) of
           Less \<Rightarrow> bsearch_loop f xs (mid + 1) right
         | Greater \<Rightarrow> bsearch_loop f xs left mid
         | Equal \<Rightarrow> Inr mid)
      else Inl left)"
  by pat_completeness auto
termination
  by (relation "measure (\<lambda>(f, xs, left, right). right - left)") auto

declare bsearch_loop.simps [simp del]

definition binary_search_by :: "'x list \<Rightarrow> ('x \<Rightarrow> ordering) \<Rightarrow> nat + nat" where
  "binary_search_by xs f = bsearch_loop f xs 0 (length xs)"

definition UnbondingInfo_add :: "unbonding_info \<Rightarrow> unlocking_chunk \<Rightarrow> unbonding_info" where
  "UnbondingInfo_add self chunk =
     (let chunks = unlocking_chunks self in
      case binary_search_by chunks (\<lambda>x. cmp (unlock_era x) (unlock_era chunk)) of
        Inr pos \<Rightarrow> self\<lparr>unlocking_chunks :=
          chunks[pos := UnlockingChunk_add_amount (chunks ! pos) (chunk_amount chunk)]\<rparr>
      | Inl pos \<Rightarrow> self\<lparr>unlocking_chunks := take pos chunks @ [chunk] @ drop pos chunks\<rparr>)"

definition UnbondingInfo_partition ::
    "unbonding_info \<Rightarrow> era_index \<Rightarrow> unbonding_info \<times> unbonding_info" where
  "UnbondingInfo_partition self era =
     (let (matching_chunks, other_chunks) =
        List.partition (\<lambda>chunk. unlock_era chunk \<le> era) (unlocking_chunks self)
      in (\<lparr>unlocking_chunks = matching_chunks\<rparr>, \<lparr>unlocking_chunks = other_chunks\<rparr>))"

record account_ledger =
  locked :: balance
  unbonding :: unbonding_info

definition AccountLedger_default :: account_ledger where
  "AccountLedger_default = \<lparr>locked = 0, unbonding = UnbondingInfo_default\<rparr>"

definition AccountLedger_is_empty :: "account_ledger \<Rightarrow> bool" where
  "AccountLedger_is_empty self \<longleftrightarrow> locked self = 0 \<and> UnbondingInfo_is_empty (unbonding self)"

lemmas unbonding_defs =
  UnlockingChunk_add_amount_def UnbondingInfo_default_def UnbondingInfo_len_def
  UnbondingInfo_is_empty_def UnbondingInfo_sum_def UnbondingInfo_partition_def
  AccountLedger_default_def AccountLedger_is_empty_def

section \<open>The binary search\<close>

text \<open>
  The comparison is monotone along the list: everything below the element comes before everything
  equal to it, and that before everything above it.
\<close>

definition cmp_sorted :: "('x \<Rightarrow> ordering) \<Rightarrow> 'x list \<Rightarrow> bool" where
  "cmp_sorted f xs \<longleftrightarrow>
     (\<forall>i j. i < j \<longrightarrow> j < length xs \<longrightarrow>
        (f (xs ! j) \<noteq> Greater \<longrightarrow> f (xs ! i) \<noteq> Greater) \<and> (f (xs ! j) = Less \<longrightarrow> f (xs ! i) = Less))"

lemma bsearch_loop_ok:
  assumes "cmp_sorted f xs" "left \<le> right" "right \<le> length xs"
    and "\<forall>i < left. f (xs ! i) = Less" "\<forall>i < length xs. right \<le> i \<longrightarrow> f (xs ! i) = Greater"
  shows "case bsearch_loop f xs left right of
      Inr pos \<Rightarrow> pos < length xs \<and> f (xs ! pos) = Equal
    | Inl pos \<Rightarrow> pos \<le> length xs \<and> (\<forall>i < pos. f (xs ! i) = Less) \<and>
        (\<forall>i < length xs. pos \<le> i \<longrightarrow> f (xs ! i) = Greater)"
  using assms
proof (induction f xs left right rule: bsearch_loop.induct)
  case (1 f xs left right)
  show ?case
  proof (cases "left < right")
    case False
    then have "bsearch_loop f xs left right = Inl left"
      by (simp add: bsearch_loop.simps [of f xs left right])
    moreover have "left = right" using False "1.prems"(2) by simp
    ultimately show ?thesis using "1.prems" by simp
  next
    case True
    define mid where "mid = left + (right - left) div 2"
    have mid: "left \<le> mid" "mid < right" using True by (auto simp: mid_def)
    have len: "mid < length xs" using mid "1.prems"(3) by simp
    show ?thesis
    proof (cases "f (xs ! mid)")
      case Equal
      with len True show ?thesis
        by (simp add: bsearch_loop.simps [of f xs left right] mid_def)
    next
      case Less
      have "\<forall>i < mid + 1. f (xs ! i) = Less"
        using "1.prems"(1) Less len by (auto simp: cmp_sorted_def less_Suc_eq)
      then show ?thesis
        using "1.IH"(1) [OF True mid_def Less] "1.prems" mid Less True
        by (simp add: bsearch_loop.simps [of f xs left right] mid_def)
    next
      case Greater
      have "f (xs ! i) = Greater" if "i < length xs" "mid \<le> i" for i
        using "1.prems"(1) Greater that unfolding cmp_sorted_def
        by (metis le_neq_implies_less)
      then show ?thesis
        using "1.IH"(2) [OF True mid_def Greater] "1.prems" mid Greater True
        by (simp add: bsearch_loop.simps [of f xs left right] mid_def)
    qed
  qed
qed

lemma binary_search_by_cases:
  assumes "cmp_sorted f xs"
  obtains pos where "binary_search_by xs f = Inr pos" "pos < length xs" "f (xs ! pos) = Equal"
  | pos where "binary_search_by xs f = Inl pos" "pos \<le> length xs"
      "\<forall>i < pos. f (xs ! i) = Less" "\<forall>i < length xs. pos \<le> i \<longrightarrow> f (xs ! i) = Greater"
  using bsearch_loop_ok [OF assms, of 0 "length xs"] unfolding binary_search_by_def
  by (auto split: sum.splits)

section \<open>Reference insertion and the chunks due\<close>

fun insert_chunk :: "unlocking_chunk \<Rightarrow> unlocking_chunk list \<Rightarrow> unlocking_chunk list" where
  "insert_chunk c [] = [c]"
| "insert_chunk c (d # ds) =
     (if unlock_era d < unlock_era c then d # insert_chunk c ds
      else if unlock_era d = unlock_era c then UnlockingChunk_add_amount d (chunk_amount c) # ds
      else c # d # ds)"

text \<open>The comment in the source: the vector is sorted by \<^verbatim>\<open>unlock_era\<close>; no two chunks share an era.\<close>

definition chunks_ok :: "unbonding_info \<Rightarrow> bool" where
  "chunks_ok u \<longleftrightarrow> sorted_wrt (<) (map unlock_era (unlocking_chunks u))"

text \<open>What the chunks hold in all, and what of it is due by an era, as numbers without a width.\<close>

definition chunk_total :: "unbonding_info \<Rightarrow> nat" where
  "chunk_total u = (\<Sum>c\<leftarrow>unlocking_chunks u. unat (chunk_amount c))"

definition due :: "unbonding_info \<Rightarrow> era_index \<Rightarrow> nat" where
  "due u e = (\<Sum>c\<leftarrow>unlocking_chunks u. if unlock_era c \<le> e then unat (chunk_amount c) else 0)"

lemma insert_chunk_split:
  assumes "\<forall>d\<in>set ds. unlock_era d < unlock_era c"
  shows "insert_chunk c (ds @ es) = ds @ insert_chunk c es"
  using assms by (induction ds) auto

lemma insert_chunk_front:
  assumes "\<forall>e\<in>set es. unlock_era c < unlock_era e"
  shows "insert_chunk c es = c # es"
  using assms by (cases es) (auto dest: less_asym)

lemma cmp_sorted_chunks:
  assumes "sorted_wrt (<) (map unlock_era cs)"
  shows "cmp_sorted (\<lambda>x. cmp (unlock_era x) e) cs"
  using assms unfolding cmp_sorted_def cmp_def sorted_wrt_iff_nth_less
  by (fastforce split: if_splits intro: less_trans)

lemma UnbondingInfo_add_insert:
  assumes "chunks_ok u"
  shows "UnbondingInfo_add u c = u\<lparr>unlocking_chunks := insert_chunk c (unlocking_chunks u)\<rparr>"
proof -
  let ?cs = "unlocking_chunks u"
  let ?f = "\<lambda>x. cmp (unlock_era x) (unlock_era c)"
  have sorted: "sorted_wrt (<) (map unlock_era ?cs)" using assms by (simp add: chunks_ok_def)
  show ?thesis
  proof (rule binary_search_by_cases [OF cmp_sorted_chunks [OF sorted], of "unlock_era c"])
    fix pos
    assume found: "binary_search_by ?cs ?f = Inr pos" and len: "pos < length ?cs"
      and eq: "?f (?cs ! pos) = Equal"
    have era: "unlock_era (?cs ! pos) = unlock_era c"
      using eq by (auto simp: cmp_def split: if_splits)
    have split: "?cs = take pos ?cs @ ?cs ! pos # drop (Suc pos) ?cs"
      using len by (rule id_take_nth_drop)
    have "\<forall>d\<in>set (take pos ?cs). unlock_era d < unlock_era c"
      using sorted len unfolding era [symmetric] sorted_wrt_iff_nth_less
      by (auto simp: in_set_conv_nth)
    then have "insert_chunk c ?cs =
      take pos ?cs @ UnlockingChunk_add_amount (?cs ! pos) (chunk_amount c) # drop (Suc pos) ?cs"
      using insert_chunk_split [of "take pos ?cs" c "?cs ! pos # drop (Suc pos) ?cs"] era
      by (subst split) simp
    with found len show ?thesis
      by (simp add: UnbondingInfo_add_def Let_def upd_conv_take_nth_drop)
  next
    fix pos
    assume place: "binary_search_by ?cs ?f = Inl pos" "pos \<le> length ?cs"
      and before: "\<forall>i < pos. ?f (?cs ! i) = Less"
      and after: "\<forall>i < length ?cs. pos \<le> i \<longrightarrow> ?f (?cs ! i) = Greater"
    have "\<forall>d\<in>set (take pos ?cs). unlock_era d < unlock_era c"
      using before by (fastforce simp: in_set_conv_nth cmp_def split: if_splits)
    moreover have "unlock_era c < unlock_era d" if d: "d \<in> set (drop pos ?cs)" for d
    proof -
      obtain i where i: "pos + i < length ?cs" "d = ?cs ! (pos + i)"
        using d unfolding in_set_conv_nth by (auto simp: less_diff_conv add.commute) blast
      then have "?f d = Greater" using after by simp
      then show ?thesis by (auto simp: cmp_def split: if_splits)
    qed
    ultimately have "insert_chunk c (take pos ?cs @ drop pos ?cs) = take pos ?cs @ c # drop pos ?cs"
      by (subst insert_chunk_split, blast, subst insert_chunk_front) blast+
    with place show ?thesis by (simp add: UnbondingInfo_add_def Let_def)
  qed
qed

lemma eras_insert_chunk:
  "unlock_era ` set (insert_chunk c ds) = insert (unlock_era c) (unlock_era ` set ds)"
  by (induction ds) (auto simp: UnlockingChunk_add_amount_def)

lemma sorted_insert_chunk:
  assumes "sorted_wrt (<) (map unlock_era ds)"
  shows "sorted_wrt (<) (map unlock_era (insert_chunk c ds))"
  using assms
proof (induction ds)
  case Nil
  then show ?case by simp
next
  case (Cons d ds)
  have "\<forall>e \<in> unlock_era ` set (insert_chunk c ds). unlock_era d < e" if "unlock_era d < unlock_era c"
    using that Cons.prems by (auto simp: eras_insert_chunk)
  moreover have "\<forall>e\<in>set ds. unlock_era c < unlock_era e" if "unlock_era c < unlock_era d"
    using that Cons.prems by (auto intro: less_trans)
  ultimately show ?case
    using Cons by (auto simp: UnlockingChunk_add_amount_def not_less order_le_less)
qed

lemma length_insert_chunk: "length (insert_chunk c ds) \<le> Suc (length ds)"
  by (induction ds) auto

text \<open>
  Merging two chunks adds their amounts with the wrapping \<open>+\<close>. Where everything together fits in
  128 bits nothing wraps, and any weighted total grows by the weight of the new chunk.
\<close>

lemma sum_insert_chunk:
  fixes w :: "era_index \<Rightarrow> nat"
  assumes "(\<Sum>d\<leftarrow>ds. unat (chunk_amount d)) + unat (chunk_amount c) < 2 ^ 128"
  shows "(\<Sum>d\<leftarrow>insert_chunk c ds. w (unlock_era d) * unat (chunk_amount d)) =
    (\<Sum>d\<leftarrow>ds. w (unlock_era d) * unat (chunk_amount d)) +
    w (unlock_era c) * unat (chunk_amount c)"
  using assms
proof (induction ds)
  case Nil
  then show ?case by simp
next
  case (Cons d ds)
  have "unat (chunk_amount d + chunk_amount c) = unat (chunk_amount d) + unat (chunk_amount c)"
    using Cons.prems by (intro plus_no_wrap) simp
  with Cons show ?case
    by (auto simp: UnlockingChunk_add_amount_def algebra_simps)
qed

lemma due_weighted:
  "due u e = (\<Sum>d\<leftarrow>unlocking_chunks u. of_bool (unlock_era d \<le> e) * unat (chunk_amount d))"
  unfolding due_def by (rule arg_cong [where f = sum_list]) (rule map_cong, auto)

lemma foldl_plus_amounts:
  fixes a :: balance
  assumes "unat a + (\<Sum>x\<leftarrow>xs. unat x) < 2 ^ 128"
  shows "unat (foldl (+) a xs) = unat a + (\<Sum>x\<leftarrow>xs. unat x)"
  using assms
proof (induction xs arbitrary: a)
  case Nil
  then show ?case by simp
next
  case (Cons x xs)
  have "unat (a + x) = unat a + unat x" using Cons.prems by (intro plus_no_wrap) simp
  with Cons show ?case by simp
qed

lemma UnbondingInfo_sum_exact:
  assumes "chunk_total u < 2 ^ 128"
  shows "unat (UnbondingInfo_sum u) = chunk_total u"
  using assms foldl_plus_amounts
  by (auto simp: UnbondingInfo_sum_def reduce_def chunk_total_def comp_def split: list.splits)

lemma chunk_total_partition:
  assumes "UnbondingInfo_partition u e = (valid, future)"
  shows "chunk_total valid = due u e" "chunk_total valid + chunk_total future = chunk_total u"
proof -
  have chunks: "unlocking_chunks valid = filter (\<lambda>c. unlock_era c \<le> e) (unlocking_chunks u)"
    "unlocking_chunks future = filter (\<lambda>c. \<not> unlock_era c \<le> e) (unlocking_chunks u)"
    using assms by (auto simp: UnbondingInfo_partition_def partition_filter_conv comp_def)
  have "(\<Sum>c\<leftarrow>filter (\<lambda>c. unlock_era c \<le> e) cs. unat (chunk_amount c)) =
      (\<Sum>c\<leftarrow>cs. if unlock_era c \<le> e then unat (chunk_amount c) else 0)"
    "(\<Sum>c\<leftarrow>filter (\<lambda>c. unlock_era c \<le> e) cs. unat (chunk_amount c)) +
      (\<Sum>c\<leftarrow>filter (\<lambda>c. \<not> unlock_era c \<le> e) cs. unat (chunk_amount c)) =
      (\<Sum>c\<leftarrow>cs. unat (chunk_amount c))" for cs
    by (induction cs) auto
  then show "chunk_total valid = due u e" "chunk_total valid + chunk_total future = chunk_total u"
    unfolding chunk_total_def due_def chunks by blast+
qed

lemma due_partition:
  assumes "UnbondingInfo_partition u e = (valid, future)" "e' \<le> e"
  shows "due future e' = 0"
  using assms
  by (auto simp: UnbondingInfo_partition_def due_def partition_filter_conv sum_list_eq_0_iff
      dest: order_trans)

lemma chunks_ok_partition:
  assumes "UnbondingInfo_partition u e = (valid, future)" "chunks_ok u"
  shows "chunks_ok future"
  using assms
  by (auto simp: UnbondingInfo_partition_def chunks_ok_def partition_filter_conv comp_def
      sorted_wrt_map sorted_wrt_filter)

section \<open>The interface the pallet relies on\<close>

text \<open>
  A queue of amounts that become due: \<open>total\<close> is what it holds and \<open>due q e\<close> what can be taken out
  in era \<open>e\<close>. Adding an amount for an era makes it due from that era on; splitting at an era
  takes out what is due and leaves the rest.
\<close>

locale unbonding_queue =
  fixes total :: "'q \<Rightarrow> nat"
    and due_by :: "'q \<Rightarrow> era_index \<Rightarrow> nat"
    and invar :: "'q \<Rightarrow> bool"
    and empty :: "'q"
    and add :: "'q \<Rightarrow> unlocking_chunk \<Rightarrow> 'q"
    and split :: "'q \<Rightarrow> era_index \<Rightarrow> 'q \<times> 'q"
    and sum :: "'q \<Rightarrow> balance"
  assumes invar_empty: "invar empty" and total_empty: "total empty = 0"
    and due_le_total: "due_by q e \<le> total q"
    and invar_add: "invar q \<Longrightarrow> invar (add q c)"
    and total_add: "invar q \<Longrightarrow> total q + unat (chunk_amount c) < 2 ^ 128 \<Longrightarrow>
      total (add q c) = total q + unat (chunk_amount c)"
    and due_add: "invar q \<Longrightarrow> total q + unat (chunk_amount c) < 2 ^ 128 \<Longrightarrow>
      due_by (add q c) e = due_by q e + (if unlock_era c \<le> e then unat (chunk_amount c) else 0)"
    and invar_split: "split q e = (v, f) \<Longrightarrow> invar q \<Longrightarrow> invar f"
    and total_split: "split q e = (v, f) \<Longrightarrow> total v = due_by q e \<and> total v + total f = total q"
    and due_split: "split q e = (v, f) \<Longrightarrow> e' \<le> e \<Longrightarrow> due_by f e' = 0"
    and sum_exact: "total q < 2 ^ 128 \<Longrightarrow> unat (sum q) = total q"
begin

lemma sum_split:
  assumes "split q e = (v, f)" "total q < 2 ^ 128"
  shows "unat (sum v) = due_by q e" "total f = total q - due_by q e"
  using total_split [OF assms(1)] sum_exact [of v] assms(2) by auto

lemma add_then_split:
  assumes "invar q" "total q + unat (chunk_amount c) < 2 ^ 128"
    and "split (add q c) e = (v, f)" "unlock_era c \<le> e"
  shows "unat (chunk_amount c) \<le> unat (sum v)"
  using sum_split(1) [OF assms(3)] total_add [OF assms(1,2)] due_add [OF assms(1,2), of e] assms(2,4)
  by simp

end

interpretation unbonding_info: unbonding_queue chunk_total due chunks_ok UnbondingInfo_default
  UnbondingInfo_add UnbondingInfo_partition UnbondingInfo_sum
proof unfold_locales
  show "chunks_ok UnbondingInfo_default" "chunk_total UnbondingInfo_default = 0"
    by (simp_all add: chunks_ok_def chunk_total_def UnbondingInfo_default_def)
  show "due q e \<le> chunk_total q" for q e
    unfolding due_def chunk_total_def by (intro sum_list_mono) auto
  show "chunks_ok (UnbondingInfo_add q c)" if "chunks_ok q" for q c
    using that by (simp add: UnbondingInfo_add_insert chunks_ok_def sorted_insert_chunk)
  show "chunk_total (UnbondingInfo_add q c) = chunk_total q + unat (chunk_amount c)"
    if "chunks_ok q" "chunk_total q + unat (chunk_amount c) < 2 ^ 128" for q c
    using that sum_insert_chunk [of "unlocking_chunks q" c "\<lambda>_. 1"]
    by (simp add: UnbondingInfo_add_insert chunk_total_def)
  show "due (UnbondingInfo_add q c) e =
      due q e + (if unlock_era c \<le> e then unat (chunk_amount c) else 0)"
    if "chunks_ok q" "chunk_total q + unat (chunk_amount c) < 2 ^ 128" for q c e
    using that sum_insert_chunk [of "unlocking_chunks q" c "\<lambda>d. of_bool (d \<le> e)"]
    by (simp add: UnbondingInfo_add_insert chunk_total_def due_weighted)
  show "chunk_total v = due q e \<and> chunk_total v + chunk_total f = chunk_total q"
    if "UnbondingInfo_partition q e = (v, f)" for q e v f
    using chunk_total_partition [OF that] by simp
qed (fact chunks_ok_partition due_partition UnbondingInfo_sum_exact)+

section \<open>Properties\<close>

text \<open>
  C20. Adding a chunk through the binary search is the insertion into a sorted list: the chunk joins the
  chunk of its era where there is one and takes its place in the order otherwise; the vector stays
  sorted without two chunks for one era, and grows by at most one.
\<close>

theorem add_chunk_sorted:
  assumes "chunks_ok u"
  shows "UnbondingInfo_add u c = u\<lparr>unlocking_chunks := insert_chunk c (unlocking_chunks u)\<rparr> \<and>
    chunks_ok (UnbondingInfo_add u c) \<and>
    length (unlocking_chunks (UnbondingInfo_add u c)) \<le> Suc (length (unlocking_chunks u))"
  using UnbondingInfo_add_insert [OF assms] unbonding_info.invar_add [OF assms] length_insert_chunk by simp

theorem add_chunk_sorted_witness:
  "unlocking_chunks (UnbondingInfo_add
      \<lparr>unlocking_chunks = [\<lparr>chunk_amount = 5, unlock_era = 2\<rparr>, \<lparr>chunk_amount = 7, unlock_era = 4\<rparr>]\<rparr>
      \<lparr>chunk_amount = 1, unlock_era = 3\<rparr>) =
    [\<lparr>chunk_amount = 5, unlock_era = 2\<rparr>, \<lparr>chunk_amount = 1, unlock_era = 3\<rparr>,
     \<lparr>chunk_amount = 7, unlock_era = 4\<rparr>]"
proof -
  let ?u = "\<lparr>unlocking_chunks = [\<lparr>chunk_amount = 5, unlock_era = 2\<rparr>, \<lparr>chunk_amount = 7, unlock_era = 4\<rparr>]\<rparr>"
  have "chunks_ok ?u" by (simp add: chunks_ok_def)
  from add_chunk_sorted [OF this, of "\<lparr>chunk_amount = 1, unlock_era = 3\<rparr>"] show ?thesis by simp
qed

text \<open>
  The binary search of the standard library ends and is right on every list along which the
  comparison is monotone: a hit is an element that compares equal; a miss is the boundary between
  the elements below and the elements above.
\<close>

lemma binary_search_correct:
  assumes "cmp_sorted f xs"
  shows "case binary_search_by xs f of
      Inr pos \<Rightarrow> pos < length xs \<and> f (xs ! pos) = Equal
    | Inl pos \<Rightarrow> pos \<le> length xs \<and> (\<forall>i < length xs. f (xs ! i) = (if i < pos then Less else Greater))"
  by (rule binary_search_by_cases [OF assms]) (auto simp: not_less)

end
