(* ===== verification/Frame.thy ===== *)
theory Frame
  imports Unbonding
begin

text \<open>
  What the pallets use of the Substrate framework, which is not part of the repository. Nothing of
  it is defined here: every operation is a field of a record that the model takes as an argument,
  and what a theorem needs to know about it is a hypothesis, written with the predicates of the
  last section. The state of the currency is the type parameter \<open>'c\<close>, a negative imbalance \<open>'i\<close>, a
  \<^verbatim>\<open>Perbill\<close> \<open>'b\<close>, an error of the currency \<open>'e\<close>, an account id \<open>'a\<close> and a call origin \<open>'o\<close>.
\<close>

section \<open>The operations of the framework\<close>

text \<open>\<^verbatim>\<open>frame_system\<close>: the origin checks and \<^verbatim>\<open>RawOrigin::Signed(who).into()\<close>.\<close>

record ('o, 'a) origin_ops =
  ensure_signed :: "'o \<Rightarrow> 'a option"
  ensure_root :: "'o \<Rightarrow> bool"
  signed :: "'a \<Rightarrow> 'o"

text \<open>The names the pallets pass to the currency, and the identifier of a lock.\<close>

datatype existence_requirement = KeepAlive | AllowDeath

datatype withdraw_reasons = TRANSFER | AllReasons

type_synonym lock_identifier = string

text \<open>
  \<^verbatim>\<open>Currency\<close>, \<^verbatim>\<open>LockableCurrency\<close>, \<^verbatim>\<open>ReservableCurrency\<close> and \<^verbatim>\<open>Imbalance\<close>. An imbalance that goes out of
  scope is handed to \<open>drop_imbalance\<close>.
\<close>

record ('a, 'c, 'i, 'e) currency_ops =
  free_balance :: "'c \<Rightarrow> 'a \<Rightarrow> balance"
  minimum_balance :: balance
  withdraw :: "'c \<Rightarrow> 'a \<Rightarrow> balance \<Rightarrow> withdraw_reasons \<Rightarrow> existence_requirement \<Rightarrow> ('e + 'i) \<times> 'c"
  resolve_creating :: "'c \<Rightarrow> 'a \<Rightarrow> 'i \<Rightarrow> 'c"
  set_lock :: "'c \<Rightarrow> lock_identifier \<Rightarrow> 'a \<Rightarrow> balance \<Rightarrow> withdraw_reasons \<Rightarrow> 'c"
  remove_lock :: "'c \<Rightarrow> lock_identifier \<Rightarrow> 'a \<Rightarrow> 'c"
  reserve :: "'c \<Rightarrow> 'a \<Rightarrow> balance \<Rightarrow> ('e + unit) \<times> 'c"
  unreserve :: "'c \<Rightarrow> 'a \<Rightarrow> balance \<Rightarrow> 'c"
  transfer :: "'c \<Rightarrow> 'a \<Rightarrow> 'a \<Rightarrow> balance \<Rightarrow> existence_requirement \<Rightarrow> ('e + unit) \<times> 'c"
  issue :: "'c \<Rightarrow> balance \<Rightarrow> 'i \<times> 'c"
  peek :: "'i \<Rightarrow> balance"
  split_imbalance :: "'i \<Rightarrow> balance \<Rightarrow> 'i \<times> 'i"
  drop_imbalance :: "'c \<Rightarrow> 'i \<Rightarrow> 'c"

text \<open>\<^verbatim>\<open>sp_runtime::Perbill\<close>.\<close>

record 'b perbill_ops =
  from_rational :: "balance \<Rightarrow> balance \<Rightarrow> 'b"
  perbill_mul :: "'b \<Rightarrow> balance \<Rightarrow> balance"
  perbill_checked_add :: "'b \<Rightarrow> 'b \<Rightarrow> 'b option"
  perbill_zero :: 'b
  perbill_one :: 'b
  from_percent :: "u32 \<Rightarrow> 'b"

text \<open>\<^verbatim>\<open>T::DbWeight::get()\<close>.\<close>

type_synonym weight = u64

record db_weight =
  db_reads :: "u64 \<Rightarrow> weight"
  db_writes :: "u64 \<Rightarrow> weight"
  db_reads_writes :: "u64 \<Rightarrow> u64 \<Rightarrow> weight"

section \<open>What is documented of them\<close>

text \<open>A \<^verbatim>\<open>Perbill\<close> is a part of one: multiplying by it never exceeds the amount.\<close>

definition perbill_part :: "('b, 'x) perbill_ops_scheme \<Rightarrow> bool" where
  "perbill_part pb \<longleftrightarrow> (\<forall>p x. perbill_mul pb p x \<le> x)"

text \<open>
  \<^verbatim>\<open>Perbill::from_rational\<close> rounds down to parts per billion, and \<^verbatim>\<open>Perbill * amount\<close> rounds to the
  nearest integer.
\<close>

definition perbill_rounds :: "('b, 'x) perbill_ops_scheme \<Rightarrow> bool" where
  "perbill_rounds pb \<longleftrightarrow> (\<exists>parts.
     (\<forall>p q. q \<noteq> 0 \<longrightarrow> parts (from_rational pb p q) * unat q \<le> unat p * 10 ^ 9) \<and>
     (\<forall>b x. 2 * 10 ^ 9 * unat (perbill_mul pb b x) \<le> 2 * parts b * unat x + 10 ^ 9))"

text \<open>
  \<^verbatim>\<open>StorageMap::iter\<close> yields every entry of the map once, in no particular order. A storage map is
  finite.
\<close>

definition iter_laws :: "(('k \<rightharpoonup> 'v) \<Rightarrow> ('k \<times> 'v) list) \<Rightarrow> bool" where
  "iter_laws iter \<longleftrightarrow>
     (\<forall>m. finite (dom m) \<longrightarrow>
        distinct (map fst (iter m)) \<and> (\<forall>k v. (k, v) \<in> set (iter m) \<longleftrightarrow> m k = Some v))"

text \<open>
  \<^verbatim>\<open>Imbalance::split(amount)\<close>: the first part is at most \<open>amount\<close>, and all of it where there is as
  much; the parts together are the whole.
\<close>

definition split_laws :: "('a, 'c, 'i, 'e, 'x) currency_ops_scheme \<Rightarrow> bool" where
  "split_laws cur \<longleftrightarrow>
     (\<forall>i n. case split_imbalance cur i n of (p, q) \<Rightarrow>
        unat (peek cur p) = min (unat n) (unat (peek cur i)) \<and>
        unat (peek cur p) + unat (peek cur q) = unat (peek cur i))"

lemma perbill_mul_le: "perbill_part pb \<Longrightarrow> unat (perbill_mul pb p x) \<le> unat x"
  by (simp add: perbill_part_def word_nat)

lemma perbill_share:
  assumes "perbill_rounds pb" "q \<noteq> 0"
  shows "2 * unat q * unat (perbill_mul pb (from_rational pb p q) x) \<le> 2 * unat p * unat x + unat q"
proof -
  obtain parts where down: "parts (from_rational pb p q) * unat q \<le> unat p * 10 ^ 9"
    and nearest: "2 * 10 ^ 9 * unat (perbill_mul pb b x) \<le> 2 * parts b * unat x + 10 ^ 9" for b
    using assms unfolding perbill_rounds_def by blast
  let ?b = "from_rational pb p q"
  have "10 ^ 9 * (2 * unat q * unat (perbill_mul pb ?b x)) = unat q * (2 * 10 ^ 9 * unat (perbill_mul pb ?b x))"
    by simp
  also have "\<dots> \<le> unat q * (2 * parts ?b * unat x + 10 ^ 9)" by (rule mult_le_mono2 [OF nearest])
  also have "\<dots> = 2 * (parts ?b * unat q) * unat x + unat q * 10 ^ 9" by (simp add: algebra_simps)
  also have "\<dots> \<le> 2 * (unat p * 10 ^ 9) * unat x + unat q * 10 ^ 9"
    by (intro add_right_mono mult_le_mono1 mult_le_mono2 down)
  also have "\<dots> = 10 ^ 9 * (2 * unat p * unat x + unat q)" by (simp add: algebra_simps)
  finally show ?thesis by simp
qed

end
