(* ===== verification/Staking.thy ===== *)
theory Staking
  imports Frame
begin

text \<open>
  The dApi staking pallet, \<^verbatim>\<open>pallets/dapi-staking/src/pallet/mod.rs\<close> and the remaining types of
  \<^verbatim>\<open>pallets/dapi-staking/src/lib.rs\<close>: its configuration, its storage, its internal helpers, its
  dispatchables, its hook and its implementation of the \<^verbatim>\<open>DapiStaking\<close> trait.
\<close>

section \<open>Types\<close>

datatype provider_state = Registered | Unregistered era_index

record 'a provider_info =
  pi_operator :: 'a
  pi_state :: provider_state
  pi_unreserved :: bool

definition ProviderInfo_new :: "'a \<Rightarrow> 'a provider_info" where
  "ProviderInfo_new operator =
     \<lparr>pi_operator = operator, pi_state = Registered, pi_unreserved = False\<rparr>"

datatype forcing = NotForcing | ForceNew

record reward_info =
  ri_operators :: balance
  ri_stakers :: balance

definition RewardInfo_default :: reward_info where
  "RewardInfo_default = \<lparr>ri_operators = 0, ri_stakers = 0\<rparr>"

record era_info =
  ei_rewards :: reward_info
  ei_staked :: balance
  ei_locked :: balance

definition EraInfo_default :: era_info where
  "EraInfo_default = \<lparr>ei_rewards = RewardInfo_default, ei_staked = 0, ei_locked = 0\<rparr>"

record provider_stake_info =
  psi_total :: balance
  psi_number_of_stakers :: u32
  psi_reward_claimed :: bool

definition ProviderStakeInfo_default :: provider_stake_info where
  "ProviderStakeInfo_default =
     \<lparr>psi_total = 0, psi_number_of_stakers = 0, psi_reward_claimed = False\<rparr>"

definition STAKING_ID :: lock_identifier where
  "STAKING_ID = ''dapistak''"

datatype ('a, 'p) staking_event =
    Stake 'a 'p balance
  | Unstake 'a 'p balance
  | WithdrawFromUnregistered 'a 'p balance
  | Withdrawn 'a balance
  | NewDapiStakingEra era_index
  | Reward 'a 'p era_index balance
  | ProviderUnregistered 'p

datatype staking_error =
    InsufficientValue
  | StakingWithNoValue
  | MaxNumberOfStakersExceeded
  | NotOperatedProvider
  | NotStakedProvider
  | UnknownEraReward
  | UnexpectedStakeInfoEra
  | TooManyEraStakeValues
  | UnclaimedRewardsRemaining
  | UnstakingWithNoValue
  | TooManyUnlockingChunks
  | NothingToWithdraw
  | EraOutOfBounds
  | NotOwnedProvider
  | AlreadyClaimedInThisEra
  | NotUnregisteredProvider
  | AlreadyRegisteredProvider

text \<open>
  The configuration: the framework's operations first, then the constants of \<^verbatim>\<open>trait Config\<close>.
  \<open>pallet_account\<close> is \<^verbatim>\<open>T::PalletId::get().into_account()\<close>.
\<close>

record ('o, 'a, 'p, 'c, 'i, 'b, 'e) staking_config =
  System :: "('o, 'a) origin_ops"
  Currency :: "('a, 'c, 'i, 'e) currency_ops"
  Perbill :: "'b perbill_ops"
  DbWeight :: db_weight
  iter_providers :: "('p \<rightharpoonup> 'a provider_info) \<Rightarrow> ('p \<times> 'a provider_info) list"
  pallet_account :: 'a
  BlockPerEra :: u32
  OperatorRewardPercentage :: 'b
  RegisterDeposit :: balance
  MaxNumberOfStakersPerProvider :: u32
  MinimumStakingAmount :: balance
  MinimumRemainingAmount :: balance
  MaxUnlockingChunks :: u32
  UnbondingPeriod :: u32
  MaxEraStakeValues :: u32

text \<open>The storage of the pallet, the state of its currency and the events it deposited.\<close>

record ('a, 'p, 'c) staking =
  Ledger :: "'a \<rightharpoonup> account_ledger"
  CurrentEra :: era_index
  BlockRewardAccumulator :: reward_info
  ForceEra :: forcing
  RegisteredProviders :: "'p \<rightharpoonup> 'a provider_info"
  GeneralEraInfo :: "era_index \<rightharpoonup> era_info"
  ProviderEraStake :: "'p \<times> era_index \<rightharpoonup> provider_stake_info"
  GeneralStakerInfo :: "'a \<times> 'p \<rightharpoonup> staker_info"
  Balances :: 'c
  Events :: "('a, 'p) staking_event list"

type_synonym ('a, 'p, 'c, 'e) staking_outcome =
  "(('a, 'p, 'c) staking, (staking_error, 'e) dispatch_error) outcome"

definition genesis :: "'c \<Rightarrow> ('a, 'p, 'c) staking" where
  "genesis c =
     \<lparr>Ledger = Map.empty, CurrentEra = 0, BlockRewardAccumulator = RewardInfo_default,
      ForceEra = NotForcing, RegisteredProviders = Map.empty, GeneralEraInfo = Map.empty,
      ProviderEraStake = Map.empty, GeneralStakerInfo = Map.empty, Balances = c, Events = []\<rparr>"

section \<open>Storage getters and helpers\<close>

text \<open>\<^verbatim>\<open>ledger\<close> and \<^verbatim>\<open>staker_info\<close> are \<^verbatim>\<open>ValueQuery\<close>: a missing entry reads as the default.\<close>

definition ledger :: "('a, 'p, 'c) staking \<Rightarrow> 'a \<Rightarrow> account_ledger" where
  "ledger s staker = (case Ledger s staker of None \<Rightarrow> AccountLedger_default | Some l \<Rightarrow> l)"

definition staker_info_of :: "('a, 'p, 'c) staking \<Rightarrow> 'a \<Rightarrow> 'p \<Rightarrow> staker_info" where
  "staker_info_of s staker pid =
     (case GeneralStakerInfo s (staker, pid) of None \<Rightarrow> StakerInfo_default | Some i \<Rightarrow> i)"

text \<open>\<^verbatim>\<open>Self::provider_stake_info(..).unwrap_or_default()\<close>.\<close>

definition provider_stake :: "('a, 'p, 'c) staking \<Rightarrow> 'p \<Rightarrow> era_index \<Rightarrow> provider_stake_info" where
  "provider_stake s pid era =
     (case ProviderEraStake s (pid, era) of None \<Rightarrow> ProviderStakeInfo_default | Some i \<Rightarrow> i)"

definition deposit_event :: "('a, 'p) staking_event \<Rightarrow> ('a, 'p, 'c) staking \<Rightarrow> ('a, 'p, 'c) staking"
  where "deposit_event ev s = s\<lparr>Events := Events s @ [ev]\<rparr>"

text \<open>\<^verbatim>\<open>GeneralEraInfo::mutate(era, ..)\<close> with a closure that changes an existing entry only.\<close>

definition mutate_era_info ::
    "era_index \<Rightarrow> (era_info \<Rightarrow> era_info) \<Rightarrow> ('a, 'p, 'c) staking \<Rightarrow> ('a, 'p, 'c) staking" where
  "mutate_era_info era f s =
     (case GeneralEraInfo s era of
        Some x \<Rightarrow> s\<lparr>GeneralEraInfo := (GeneralEraInfo s)(era \<mapsto> f x)\<rparr>
      | None \<Rightarrow> s)"

definition update_ledger ::
    "('o, 'a, 'p, 'c, 'i, 'b, 'e) staking_config \<Rightarrow> 'a \<Rightarrow> account_ledger \<Rightarrow>
     ('a, 'p, 'c) staking \<Rightarrow> ('a, 'p, 'c) staking" where
  "update_ledger T staker l s =
     (if AccountLedger_is_empty l
      then s\<lparr>Ledger := (Ledger s)(staker := None),
             Balances := remove_lock (Currency T) (Balances s) STAKING_ID staker\<rparr>
      else s\<lparr>Balances := set_lock (Currency T) (Balances s) STAKING_ID staker (locked l) AllReasons,
             Ledger := (Ledger s)(staker \<mapsto> l)\<rparr>)"

definition update_staker_info ::
    "'a \<Rightarrow> 'p \<Rightarrow> staker_info \<Rightarrow> ('a, 'p, 'c) staking \<Rightarrow> ('a, 'p, 'c) staking" where
  "update_staker_info staker pid info s =
     (if StakerInfo_is_empty info
      then s\<lparr>GeneralStakerInfo := (GeneralStakerInfo s)((staker, pid) := None)\<rparr>
      else s\<lparr>GeneralStakerInfo := (GeneralStakerInfo s)((staker, pid) \<mapsto> info)\<rparr>)"

definition reward_balance_snapshot ::
    "era_index \<Rightarrow> reward_info \<Rightarrow> ('a, 'p, 'c) staking \<Rightarrow> ('a, 'p, 'c) staking" where
  "reward_balance_snapshot era rewards s =
     (let era_info = (case GeneralEraInfo s era of None \<Rightarrow> EraInfo_default | Some x \<Rightarrow> x);
          s1 = s\<lparr>GeneralEraInfo := (GeneralEraInfo s)(era + 1 \<mapsto>
                 \<lparr>ei_rewards = RewardInfo_default, ei_staked = ei_staked era_info,
                  ei_locked = ei_locked era_info\<rparr>)\<rparr>
      in s1\<lparr>GeneralEraInfo := (GeneralEraInfo s1)(era \<mapsto> era_info\<lparr>ei_rewards := rewards\<rparr>)\<rparr>)"

text \<open>The loop of \<^verbatim>\<open>rotate_staking_info\<close> over the registered providers, with the weight it adds up.\<close>

fun rotate_loop ::
    "db_weight \<Rightarrow> era_index \<Rightarrow> era_index \<Rightarrow> ('p \<times> 'a provider_info) list \<Rightarrow> weight \<Rightarrow>
     ('a, 'p, 'c) staking \<Rightarrow> weight \<times> ('a, 'p, 'c) staking" where
  "rotate_loop w current_era next_era [] consumed s = (consumed, s)"
| "rotate_loop w current_era next_era ((pid, info) # rest) consumed s =
     (let consumed1 = saturating_add consumed (db_reads w 1) in
      case pi_state info of
        Unregistered _ \<Rightarrow> rotate_loop w current_era next_era rest consumed1 s
      | Registered \<Rightarrow>
          (case ProviderEraStake s (pid, current_era) of
             Some staking_info \<Rightarrow>
               rotate_loop w current_era next_era rest
                 (saturating_add consumed1 (db_reads_writes w 1 1))
                 (s\<lparr>ProviderEraStake := (ProviderEraStake s)
                      ((pid, next_era) \<mapsto> staking_info\<lparr>psi_reward_claimed := False\<rparr>)\<rparr>)
           | None \<Rightarrow>
               rotate_loop w current_era next_era rest (saturating_add consumed1 (db_reads w 1)) s))"

definition rotate_staking_info ::
    "('o, 'a, 'p, 'c, 'i, 'b, 'e) staking_config \<Rightarrow> era_index \<Rightarrow> ('a, 'p, 'c) staking \<Rightarrow>
     weight \<times> ('a, 'p, 'c) staking" where
  "rotate_staking_info T current_era s =
     rotate_loop (DbWeight T) current_era (current_era + 1)
       (iter_providers T (RegisteredProviders s)) 0 s"

definition available_staking_balance ::
    "('o, 'a, 'p, 'c, 'i, 'b, 'e) staking_config \<Rightarrow> 'a \<Rightarrow> account_ledger \<Rightarrow> ('a, 'p, 'c) staking \<Rightarrow>
     balance" where
  "available_staking_balance T staker l s =
     saturating_sub
       (saturating_sub (free_balance (Currency T) (Balances s) staker) (MinimumRemainingAmount T))
       (locked l)"

definition is_active_provider :: "'p \<Rightarrow> ('a, 'p, 'c) staking \<Rightarrow> bool" where
  "is_active_provider pid s =
     (case RegisteredProviders s pid of None \<Rightarrow> False | Some info \<Rightarrow> pi_state info = Registered)"

definition operator_stakers_split ::
    "('o, 'a, 'p, 'c, 'i, 'b, 'e) staking_config \<Rightarrow> provider_stake_info \<Rightarrow> era_info \<Rightarrow>
     balance \<times> balance" where
  "operator_stakers_split T provider_info era_info =
     (let provider_stake_portion =
            from_rational (Perbill T) (psi_total provider_info) (ei_staked era_info)
      in (perbill_mul (Perbill T) provider_stake_portion (ri_operators (ei_rewards era_info)),
          perbill_mul (Perbill T) provider_stake_portion (ri_stakers (ei_rewards era_info))))"

definition rewards ::
    "('o, 'a, 'p, 'c, 'i, 'b, 'e) staking_config \<Rightarrow> 'i \<Rightarrow> ('a, 'p, 'c) staking \<Rightarrow>
     ('a, 'p, 'c) staking" where
  "rewards T imbalance s =
     (let amount = peek (Currency T) imbalance;
          operators_part = perbill_mul (Perbill T) (OperatorRewardPercentage T) amount;
          stakers_part = saturating_sub amount operators_part;
          acc = BlockRewardAccumulator s
      in s\<lparr>BlockRewardAccumulator :=
             \<lparr>ri_operators = saturating_add (ri_operators acc) operators_part,
              ri_stakers = saturating_add (ri_stakers acc) stakers_part\<rparr>,
           Balances := resolve_creating (Currency T) (Balances s) (pallet_account T) imbalance\<rparr>)"

section \<open>Dispatchables\<close>

definition withdraw_from_unregistered_staker ::
    "('o, 'a, 'p, 'c, 'i, 'b, 'e) staking_config \<Rightarrow> 'o \<Rightarrow> 'p \<Rightarrow> ('a, 'p, 'c) staking \<Rightarrow>
     ('a, 'p, 'c, 'e) staking_outcome" where
  "withdraw_from_unregistered_staker T origin provider_id s =
     (case ensure_signed (System T) origin of None \<Rightarrow> (Inl BadOrigin, s) | Some staker \<Rightarrow>
      case RegisteredProviders s provider_id of
        None \<Rightarrow> (Inl (Module NotOperatedProvider), s)
      | Some provider_info \<Rightarrow>
      case pi_state provider_info of
        Registered \<Rightarrow> (Inl (Module NotUnregisteredProvider), s)
      | Unregistered unregistered_era \<Rightarrow>
      let current_era = CurrentEra s in
      if \<not> current_era > unregistered_era + UnbondingPeriod T
      then (Inl (Module NothingToWithdraw), s) else
      let staker_info = staker_info_of s staker provider_id;
          staked_value = latest_staked_value staker_info in
      if \<not> staked_value > 0 then (Inl (Module NotStakedProvider), s) else
      let claimable_era = fst (fst (StakerInfo_claim staker_info)) in
      if \<not> (claimable_era \<ge> unregistered_era \<or> claimable_era = 0)
      then (Inl (Module UnclaimedRewardsRemaining), s) else
      let l = ledger s staker;
          s1 = update_ledger T staker (l\<lparr>locked := saturating_sub (locked l) staked_value\<rparr>) s;
          s2 = update_staker_info staker provider_id StakerInfo_default s1;
          s3 = mutate_era_info (CurrentEra s2)
                 (\<lambda>x. x\<lparr>ei_staked := saturating_sub (ei_staked x) staked_value,
                         ei_locked := saturating_sub (ei_locked x) staked_value\<rparr>) s2
      in (Inr (), deposit_event (WithdrawFromUnregistered staker provider_id staked_value) s3))"

definition withdraw_from_unregistered_operator ::
    "('o, 'a, 'p, 'c, 'i, 'b, 'e) staking_config \<Rightarrow> 'o \<Rightarrow> 'p \<Rightarrow> ('a, 'p, 'c) staking \<Rightarrow>
     ('a, 'p, 'c, 'e) staking_outcome" where
  "withdraw_from_unregistered_operator T origin provider_id s =
     (case ensure_signed (System T) origin of None \<Rightarrow> (Inl BadOrigin, s) | Some operator \<Rightarrow>
      case RegisteredProviders s provider_id of
        None \<Rightarrow> (Inl (Module NotOperatedProvider), s)
      | Some provider_info \<Rightarrow>
      if pi_operator provider_info \<noteq> operator then (Inl (Module NotOwnedProvider), s) else
      if pi_unreserved provider_info then (Inl (Module NothingToWithdraw), s) else
      case pi_state provider_info of
        Registered \<Rightarrow> (Inl (Module NotUnregisteredProvider), s)
      | Unregistered unregistered_era \<Rightarrow>
      let current_era = CurrentEra s in
      if \<not> current_era > unregistered_era + UnbondingPeriod T
      then (Inl (Module NothingToWithdraw), s) else
      let s1 = s\<lparr>RegisteredProviders :=
                 (RegisteredProviders s)(provider_id \<mapsto> provider_info\<lparr>pi_unreserved := True\<rparr>)\<rparr>;
          unreserve_amount = RegisterDeposit T;
          s2 = s1\<lparr>Balances := unreserve (Currency T) (Balances s1) operator unreserve_amount\<rparr>
      in (Inr (), deposit_event (WithdrawFromUnregistered operator provider_id unreserve_amount) s2))"

definition stake ::
    "('o, 'a, 'p, 'c, 'i, 'b, 'e) staking_config \<Rightarrow> 'o \<Rightarrow> 'p \<Rightarrow> balance \<Rightarrow> ('a, 'p, 'c) staking \<Rightarrow>
     ('a, 'p, 'c, 'e) staking_outcome" where
  "stake T origin provider_id value s =
     (case ensure_signed (System T) origin of None \<Rightarrow> (Inl BadOrigin, s) | Some staker \<Rightarrow>
      if \<not> is_active_provider provider_id s then (Inl (Module NotOperatedProvider), s) else
      let l = ledger s staker;
          available_balance = available_staking_balance T staker l s;
          value_to_stake = min value available_balance in
      if \<not> value_to_stake > 0 then (Inl (Module StakingWithNoValue), s) else
      let current_era = CurrentEra s;
          staking_info = provider_stake s provider_id current_era;
          staker_info = staker_info_of s staker provider_id in
      if \<not> (latest_staked_value staker_info \<noteq> 0 \<or>
            psi_number_of_stakers staking_info < MaxNumberOfStakersPerProvider T)
      then (Inl (Module MaxNumberOfStakersExceeded), s) else
      let staking_info1 =
            (if latest_staked_value staker_info = 0
             then staking_info\<lparr>psi_number_of_stakers :=
                    saturating_add (psi_number_of_stakers staking_info) 1\<rparr>
             else staking_info) in
      case StakerInfo_stake staker_info current_era value_to_stake of
        Inl _ \<Rightarrow> (Inl (Module UnexpectedStakeInfoEra), s)
      | Inr staker_info1 \<Rightarrow>
      if \<not> StakerInfo_len staker_info1 < MaxEraStakeValues T
      then (Inl (Module TooManyEraStakeValues), s) else
      if \<not> latest_staked_value staker_info1 \<ge> MinimumStakingAmount T
      then (Inl (Module InsufficientValue), s) else
      case checked_add (locked l) value_to_stake of
        None \<Rightarrow> (Inl Overflow, s)
      | Some new_locked \<Rightarrow>
      case checked_add (psi_total staking_info1) value_to_stake of
        None \<Rightarrow> (Inl Overflow, s)
      | Some new_total \<Rightarrow>
      let s1 = mutate_era_info current_era
                 (\<lambda>x. x\<lparr>ei_staked := saturating_add (ei_staked x) value_to_stake,
                         ei_locked := saturating_add (ei_locked x) value_to_stake\<rparr>) s;
          s2 = update_ledger T staker (l\<lparr>locked := new_locked\<rparr>) s1;
          s3 = update_staker_info staker provider_id staker_info1 s2;
          s4 = s3\<lparr>ProviderEraStake := (ProviderEraStake s3)
                   ((provider_id, current_era) \<mapsto> staking_info1\<lparr>psi_total := new_total\<rparr>)\<rparr>
      in (Inr (), deposit_event (Stake staker provider_id value_to_stake) s4))"

definition unstake ::
    "('o, 'a, 'p, 'c, 'i, 'b, 'e) staking_config \<Rightarrow> 'o \<Rightarrow> 'p \<Rightarrow> balance \<Rightarrow> ('a, 'p, 'c) staking \<Rightarrow>
     ('a, 'p, 'c, 'e) staking_outcome" where
  "unstake T origin provider_id value s =
     (case ensure_signed (System T) origin of None \<Rightarrow> (Inl BadOrigin, s) | Some staker \<Rightarrow>
      if \<not> value > 0 then (Inl (Module UnstakingWithNoValue), s) else
      if \<not> is_active_provider provider_id s then (Inl (Module NotOperatedProvider), s) else
      let staker_info = staker_info_of s staker provider_id;
          staked_value = latest_staked_value staker_info in
      if \<not> staked_value > 0 then (Inl (Module NotStakedProvider), s) else
      let current_era = CurrentEra s;
          provider_stake_info = provider_stake s provider_id current_era;
          remaining = saturating_sub staked_value value;
          whole = remaining < MinimumStakingAmount T;
          provider_stake_info1 =
            (if whole
             then provider_stake_info\<lparr>psi_number_of_stakers :=
                    saturating_sub (psi_number_of_stakers provider_stake_info) 1\<rparr>
             else provider_stake_info);
          value_to_unstake = (if whole then staked_value else value);
          provider_stake_info2 = provider_stake_info1\<lparr>psi_total :=
            saturating_sub (psi_total provider_stake_info1) value_to_unstake\<rparr> in
      if \<not> value_to_unstake > 0 then (Inl (Module UnstakingWithNoValue), s) else
      case StakerInfo_unstake staker_info current_era value_to_unstake of
        Inl _ \<Rightarrow> (Inl (Module UnexpectedStakeInfoEra), s)
      | Inr staker_info1 \<Rightarrow>
      if \<not> StakerInfo_len staker_info1 < MaxEraStakeValues T
      then (Inl (Module TooManyEraStakeValues), s) else
      let l = ledger s staker;
          l1 = l\<lparr>unbonding := UnbondingInfo_add (unbonding l)
                 \<lparr>chunk_amount = value_to_unstake,
                  unlock_era = current_era + UnbondingPeriod T\<rparr>\<rparr> in
      if \<not> UnbondingInfo_len (unbonding l1) \<le> MaxUnlockingChunks T
      then (Inl (Module TooManyUnlockingChunks), s) else
      let s1 = update_ledger T staker l1 s;
          s2 = mutate_era_info current_era
                 (\<lambda>x. x\<lparr>ei_staked := saturating_sub (ei_staked x) value_to_unstake\<rparr>) s1;
          s3 = update_staker_info staker provider_id staker_info1 s2;
          s4 = s3\<lparr>ProviderEraStake := (ProviderEraStake s3)
                   ((provider_id, current_era) \<mapsto> provider_stake_info2)\<rparr>
      in (Inr (), deposit_event (Unstake staker provider_id value_to_unstake) s4))"

definition withdraw_unstaked ::
    "('o, 'a, 'p, 'c, 'i, 'b, 'e) staking_config \<Rightarrow> 'o \<Rightarrow> ('a, 'p, 'c) staking \<Rightarrow>
     ('a, 'p, 'c, 'e) staking_outcome" where
  "withdraw_unstaked T origin s =
     (case ensure_signed (System T) origin of None \<Rightarrow> (Inl BadOrigin, s) | Some staker \<Rightarrow>
      let l = ledger s staker;
          current_era = CurrentEra s;
          (valid_chunks, future_chunks) = UnbondingInfo_partition (unbonding l) current_era;
          withdraw_amount = UnbondingInfo_sum valid_chunks in
      if withdraw_amount = 0 then (Inl (Module NothingToWithdraw), s) else
      let s1 = update_ledger T staker
                 \<lparr>locked = saturating_sub (locked l) withdraw_amount, unbonding = future_chunks\<rparr> s;
          s2 = mutate_era_info current_era
                 (\<lambda>x. x\<lparr>ei_locked := saturating_sub (ei_locked x) withdraw_amount\<rparr>) s1
      in (Inr (), deposit_event (Withdrawn staker withdraw_amount) s2))"

definition claim_staker ::
    "('o, 'a, 'p, 'c, 'i, 'b, 'e) staking_config \<Rightarrow> 'o \<Rightarrow> 'p \<Rightarrow> ('a, 'p, 'c) staking \<Rightarrow>
     ('a, 'p, 'c, 'e) staking_outcome" where
  "claim_staker T origin provider_id s =
     (case ensure_signed (System T) origin of None \<Rightarrow> (Inl BadOrigin, s) | Some staker \<Rightarrow>
      let ((era, staked), staker_info) = StakerInfo_claim (staker_info_of s staker provider_id) in
      if \<not> staked > 0 then (Inl (Module NotStakedProvider), s) else
      case RegisteredProviders s provider_id of
        None \<Rightarrow> (Inl (Module NotOperatedProvider), s)
      | Some provider_info \<Rightarrow>
      if (case pi_state provider_info of
            Registered \<Rightarrow> False | Unregistered unregistered_era \<Rightarrow> \<not> era < unregistered_era)
      then (Inl (Module NotOperatedProvider), s) else
      let current_era = CurrentEra s in
      if \<not> era < current_era then (Inl (Module EraOutOfBounds), s) else
      let staking_info = provider_stake s provider_id era in
      case GeneralEraInfo s era of
        None \<Rightarrow> (Inl (Module UnknownEraReward), s)
      | Some reward_and_stake \<Rightarrow>
      let stakers_joint_reward = snd (operator_stakers_split T staking_info reward_and_stake);
          staker_reward =
            perbill_mul (Perbill T) (from_rational (Perbill T) staked (psi_total staking_info))
              stakers_joint_reward in
      case withdraw (Currency T) (Balances s) (pallet_account T) staker_reward TRANSFER AllowDeath of
        (Inl e, c) \<Rightarrow> (Inl (External e), s\<lparr>Balances := c\<rparr>)
      | (Inr reward_imbalance, c) \<Rightarrow>
      let s1 = s\<lparr>Balances := resolve_creating (Currency T) c staker reward_imbalance\<rparr>;
          s2 = update_staker_info staker provider_id staker_info s1
      in (Inr (), deposit_event (Reward staker provider_id era staker_reward) s2))"

definition claim_operator ::
    "('o, 'a, 'p, 'c, 'i, 'b, 'e) staking_config \<Rightarrow> 'o \<Rightarrow> 'p \<Rightarrow> era_index \<Rightarrow> ('a, 'p, 'c) staking \<Rightarrow>
     ('a, 'p, 'c, 'e) staking_outcome" where
  "claim_operator T origin provider_id era s =
     (case ensure_signed (System T) origin of None \<Rightarrow> (Inl BadOrigin, s) | Some _ \<Rightarrow>
      case RegisteredProviders s provider_id of
        None \<Rightarrow> (Inl (Module NotOperatedProvider), s)
      | Some provider_info \<Rightarrow>
      let current_era = CurrentEra s in
      if (case pi_state provider_info of
            Registered \<Rightarrow> False | Unregistered unregistered_era \<Rightarrow> \<not> era < unregistered_era)
      then (Inl (Module NotOperatedProvider), s) else
      if \<not> era < current_era then (Inl (Module EraOutOfBounds), s) else
      let provider_stake_info = provider_stake s provider_id era in
      if psi_reward_claimed provider_stake_info
      then (Inl (Module AlreadyClaimedInThisEra), s) else
      if \<not> psi_total provider_stake_info > 0 then (Inl (Module NotStakedProvider), s) else
      case GeneralEraInfo s era of
        None \<Rightarrow> (Inl (Module UnknownEraReward), s)
      | Some reward_and_stake \<Rightarrow>
      let operator_reward = fst (operator_stakers_split T provider_stake_info reward_and_stake) in
      case withdraw (Currency T) (Balances s) (pallet_account T) operator_reward TRANSFER AllowDeath of
        (Inl e, c) \<Rightarrow> (Inl (External e), s\<lparr>Balances := c\<rparr>)
      | (Inr reward_imbalance, c) \<Rightarrow>
      let s1 = s\<lparr>Balances :=
                 resolve_creating (Currency T) c (pi_operator provider_info) reward_imbalance\<rparr>;
          s2 = s1\<lparr>ProviderEraStake := (ProviderEraStake s1)
                   ((provider_id, era) \<mapsto> provider_stake_info\<lparr>psi_reward_claimed := True\<rparr>)\<rparr>
      in (Inr (), deposit_event
            (Reward (pi_operator provider_info) provider_id era operator_reward) s2))"

definition force_new_era ::
    "('o, 'a, 'p, 'c, 'i, 'b, 'e) staking_config \<Rightarrow> 'o \<Rightarrow> ('a, 'p, 'c) staking \<Rightarrow>
     ('a, 'p, 'c, 'e) staking_outcome" where
  "force_new_era T origin s =
     (if \<not> ensure_root (System T) origin then (Inl BadOrigin, s)
      else (Inr (), s\<lparr>ForceEra := ForceNew\<rparr>))"

section \<open>The DapiStaking trait\<close>

definition register ::
    "('o, 'a, 'p, 'c, 'i, 'b, 'e) staking_config \<Rightarrow> 'a \<Rightarrow> 'p \<Rightarrow> balance \<Rightarrow> ('a, 'p, 'c) staking \<Rightarrow>
     ('a, 'p, 'c, 'e) staking_outcome" where
  "register T operator provider_id deposit s =
     (if RegisteredProviders s provider_id \<noteq> None
      then (Inl (Module AlreadyRegisteredProvider), s) else
      let register_deposit = RegisterDeposit T in
      if \<not> deposit \<ge> register_deposit + MinimumStakingAmount T
      then (Inl (Module InsufficientValue), s) else
      case reserve (Currency T) (Balances s) operator register_deposit of
        (Inl e, c) \<Rightarrow> (Inl (External e), s\<lparr>Balances := c\<rparr>)
      | (Inr _, c) \<Rightarrow>
      let s1 = s\<lparr>Balances := c, RegisteredProviders :=
                 (RegisteredProviders s)(provider_id \<mapsto> ProviderInfo_new operator)\<rparr>;
          stake_amount = saturating_sub deposit register_deposit
      in stake T (signed (System T) operator) provider_id stake_amount s1)"

definition unregister ::
    "'p \<Rightarrow> ('a, 'p, 'c) staking \<Rightarrow> ('a, 'p, 'c, 'e) staking_outcome" where
  "unregister provider_id s =
     (case RegisteredProviders s provider_id of
        None \<Rightarrow> (Inl (Module NotOperatedProvider), s)
      | Some provider_info \<Rightarrow>
      if pi_state provider_info \<noteq> Registered then (Inl (Module NotOperatedProvider), s) else
      let current_era = CurrentEra s in
      (Inr (), s\<lparr>RegisteredProviders := (RegisteredProviders s)
         (provider_id \<mapsto> provider_info\<lparr>pi_state := Unregistered current_era\<rparr>)\<rparr>))"

section \<open>The hook\<close>

text \<open>\<open>None\<close> is the panic of \<^verbatim>\<open>%\<close> when the configuration has no blocks in an era.\<close>

definition on_initialize ::
    "('o, 'a, 'p, 'c, 'i, 'b, 'e) staking_config \<Rightarrow> u32 \<Rightarrow> ('a, 'p, 'c) staking \<Rightarrow>
     (weight \<times> ('a, 'p, 'c) staking) option" where
  "on_initialize T now s =
     (let force_new_era = (ForceEra s = ForceNew);
          blocks_per_era = BlockPerEra T;
          previous_era = CurrentEra s in
      if blocks_per_era = 0 then None
      else if now mod blocks_per_era = 1 \<or> force_new_era \<or> previous_era = 0 then
        let next_era = previous_era + 1;
            s1 = s\<lparr>CurrentEra := next_era\<rparr>;
            reward = BlockRewardAccumulator s1;
            s2 = s1\<lparr>BlockRewardAccumulator := RewardInfo_default\<rparr>;
            s3 = reward_balance_snapshot previous_era reward s2;
            (consumed_weight, s4) = rotate_staking_info T previous_era s3;
            s5 = (if force_new_era then s4\<lparr>ForceEra := NotForcing\<rparr> else s4)
        in Some (consumed_weight + db_reads_writes (DbWeight T) 5 3,
                 deposit_event (NewDapiStakingEra next_era) s5)
      else Some (db_reads (DbWeight T) 4, s))"

end
