(* ===== verification/Staking_Steps.thy ===== *)
theory Staking_Steps
  imports Staking
begin

text \<open>
  The lemma library of the staking pallet: what each helper writes and leaves alone, what a
  successful dispatchable has checked and done (one elimination rule for each), that a refused one
  changes nothing but what the currency did, and the step relation of the pallet.
\<close>

section \<open>What the helpers write\<close>

lemma deposit_event_fields [simp]:
  "Ledger (deposit_event ev s) = Ledger s"
  "CurrentEra (deposit_event ev s) = CurrentEra s"
  "BlockRewardAccumulator (deposit_event ev s) = BlockRewardAccumulator s"
  "ForceEra (deposit_event ev s) = ForceEra s"
  "RegisteredProviders (deposit_event ev s) = RegisteredProviders s"
  "GeneralEraInfo (deposit_event ev s) = GeneralEraInfo s"
  "ProviderEraStake (deposit_event ev s) = ProviderEraStake s"
  "GeneralStakerInfo (deposit_event ev s) = GeneralStakerInfo s"
  "Balances (deposit_event ev s) = Balances s"
  "Events (deposit_event ev s) = Events s @ [ev]"
  by (simp_all add: deposit_event_def)

lemma mutate_era_info_fields [simp]:
  "Ledger (mutate_era_info e f s) = Ledger s"
  "CurrentEra (mutate_era_info e f s) = CurrentEra s"
  "BlockRewardAccumulator (mutate_era_info e f s) = BlockRewardAccumulator s"
  "ForceEra (mutate_era_info e f s) = ForceEra s"
  "RegisteredProviders (mutate_era_info e f s) = RegisteredProviders s"
  "GeneralEraInfo (mutate_era_info e f s) =
     (GeneralEraInfo s)(e := map_option f (GeneralEraInfo s e))"
  "ProviderEraStake (mutate_era_info e f s) = ProviderEraStake s"
  "GeneralStakerInfo (mutate_era_info e f s) = GeneralStakerInfo s"
  "Balances (mutate_era_info e f s) = Balances s"
  "Events (mutate_era_info e f s) = Events s"
  by (auto simp: mutate_era_info_def split: option.splits)

lemma update_ledger_fields [simp]:
  "CurrentEra (update_ledger T a l s) = CurrentEra s"
  "BlockRewardAccumulator (update_ledger T a l s) = BlockRewardAccumulator s"
  "ForceEra (update_ledger T a l s) = ForceEra s"
  "RegisteredProviders (update_ledger T a l s) = RegisteredProviders s"
  "GeneralEraInfo (update_ledger T a l s) = GeneralEraInfo s"
  "ProviderEraStake (update_ledger T a l s) = ProviderEraStake s"
  "GeneralStakerInfo (update_ledger T a l s) = GeneralStakerInfo s"
  "Events (update_ledger T a l s) = Events s"
  by (simp_all add: update_ledger_def)

lemma update_staker_info_fields [simp]:
  "Ledger (update_staker_info a p i s) = Ledger s"
  "CurrentEra (update_staker_info a p i s) = CurrentEra s"
  "BlockRewardAccumulator (update_staker_info a p i s) = BlockRewardAccumulator s"
  "ForceEra (update_staker_info a p i s) = ForceEra s"
  "RegisteredProviders (update_staker_info a p i s) = RegisteredProviders s"
  "GeneralEraInfo (update_staker_info a p i s) = GeneralEraInfo s"
  "ProviderEraStake (update_staker_info a p i s) = ProviderEraStake s"
  "Balances (update_staker_info a p i s) = Balances s"
  "Events (update_staker_info a p i s) = Events s"
  by (simp_all add: update_staker_info_def)

lemma AccountLedger_is_empty_iff: "AccountLedger_is_empty l \<longleftrightarrow> l = AccountLedger_default"
  by (cases l) (auto simp: unbonding_defs intro: unbonding_info.equality)

lemma StakerInfo_is_empty_iff: "StakerInfo_is_empty i \<longleftrightarrow> i = StakerInfo_default"
  by (cases i) (auto simp: StakerInfo_is_empty_def StakerInfo_default_def)

text \<open>A missing entry is the default, so an update by removal is an update by the default.\<close>

definition upd_default :: "'v \<Rightarrow> ('k \<rightharpoonup> 'v) \<Rightarrow> 'k \<Rightarrow> 'v \<Rightarrow> ('k \<rightharpoonup> 'v)" where
  "upd_default d m k v = m(k := if v = d then None else Some v)"

lemma Ledger_update_ledger [simp]:
  "Ledger (update_ledger T a l s) = upd_default AccountLedger_default (Ledger s) a l"
  by (auto simp: update_ledger_def upd_default_def AccountLedger_is_empty_iff)

lemma GeneralStakerInfo_update [simp]:
  "GeneralStakerInfo (update_staker_info a p i s) =
     upd_default StakerInfo_default (GeneralStakerInfo s) (a, p) i"
  by (auto simp: update_staker_info_def upd_default_def StakerInfo_is_empty_iff)

lemma finite_dom_upd_default [simp]:
  "finite (dom (upd_default d m k v)) \<longleftrightarrow> finite (dom m)"
  by (auto simp: upd_default_def dom_fun_upd)

lemma case_upd_default:
  "(case upd_default d m k v j of None \<Rightarrow> d | Some w \<Rightarrow> w) =
   (if j = k then v else case m j of None \<Rightarrow> d | Some w \<Rightarrow> w)"
  by (auto simp: upd_default_def)

lemma msum_upd_default:
  assumes "finite (dom m)" "f k d = 0"
  shows "msum f (upd_default d m k v) + f k (case m k of None \<Rightarrow> d | Some w \<Rightarrow> w) =
    msum f m + f k v"
proof (cases "v = d")
  case True
  then show ?thesis
    using msum_remove [OF assms(1), of f k] assms(2)
    by (auto simp: upd_default_def entry_def split: option.splits)
next
  case False
  then show ?thesis
    using msum_update [OF assms(1), of f k v] assms(2)
    by (auto simp: upd_default_def entry_def split: option.splits)
qed

text \<open>Getters after an update.\<close>

lemma ledger_upd_default:
  assumes "Ledger s' = upd_default AccountLedger_default (Ledger s) a l"
  shows "ledger s' = (ledger s)(a := l)"
  using assms by (auto simp: ledger_def case_upd_default)

lemma staker_info_of_upd_default:
  assumes "GeneralStakerInfo s' = upd_default StakerInfo_default (GeneralStakerInfo s) (a, p) i"
  shows "staker_info_of s' a' p' = (if (a', p') = (a, p) then i else staker_info_of s a' p')"
  using assms by (auto simp: staker_info_of_def case_upd_default)

lemma rotate_loop_fields:
  assumes "rotate_loop w c n ps consumed s = (weight, s')"
  shows "Ledger s' = Ledger s" "CurrentEra s' = CurrentEra s"
    "BlockRewardAccumulator s' = BlockRewardAccumulator s" "ForceEra s' = ForceEra s"
    "RegisteredProviders s' = RegisteredProviders s" "GeneralEraInfo s' = GeneralEraInfo s"
    "GeneralStakerInfo s' = GeneralStakerInfo s" "Balances s' = Balances s" "Events s' = Events s"
  using assms
  by (induction w c n ps consumed s rule: rotate_loop.induct)
    (auto simp: Let_def split: option.splits provider_state.splits)

lemma rotate_loop_stakes:
  assumes "rotate_loop w c n ps consumed s = (weight, s')" "n \<noteq> c" "distinct (map fst ps)"
  shows "ProviderEraStake s' (p, e) =
    (case map_of ps p of
       Some info \<Rightarrow>
         if e = n \<and> pi_state info = Registered \<and> ProviderEraStake s (p, c) \<noteq> None
         then Some ((the (ProviderEraStake s (p, c)))\<lparr>psi_reward_claimed := False\<rparr>)
         else ProviderEraStake s (p, e)
     | None \<Rightarrow> ProviderEraStake s (p, e))"
  using assms
proof (induction w c n ps consumed s rule: rotate_loop.induct)
  case (1 w c n consumed s)
  then show ?case by simp
next
  case (2 w c n pid info rest consumed s)
  have fresh: "map_of rest pid = None"
    using "2.prems"(3) by (simp add: map_of_eq_None_iff)
  show ?case
  proof (cases "pi_state info")
    case (Unregistered u)
    with "2.prems" "2.IH"(3) [OF refl Unregistered] fresh show ?thesis
      by (auto simp: Let_def)
  next
    case Registered
    show ?thesis
    proof (cases "ProviderEraStake s (pid, c)")
      case None
      with "2.prems" "2.IH"(1) [OF refl Registered None] Registered fresh show ?thesis
        by (auto simp: Let_def)
    next
      case (Some si)
      with "2.prems" "2.IH"(2) [OF refl Registered Some] Registered fresh show ?thesis
        by (auto simp: Let_def split: option.splits)
    qed
  qed
qed

section \<open>What a call has done\<close>

text \<open>A refused call writes nothing; where the currency was asked first, only its state may differ.\<close>

lemma refused_unchanged:
  "withdraw_from_unregistered_staker T origin p s = (Inl err, s') \<Longrightarrow> s' = s"
  "withdraw_from_unregistered_operator T origin p s = (Inl err, s') \<Longrightarrow> s' = s"
  "stake T origin p v s = (Inl err, s') \<Longrightarrow> s' = s"
  "unstake T origin p v s = (Inl err, s') \<Longrightarrow> s' = s"
  "withdraw_unstaked T origin s = (Inl err, s') \<Longrightarrow> s' = s"
  "force_new_era T origin s = (Inl err, s') \<Longrightarrow> s' = s"
  "unregister p s = (Inl err, s') \<Longrightarrow> s' = s"
  by (auto simp: withdraw_from_unregistered_staker_def withdraw_from_unregistered_operator_def
      stake_def unstake_def withdraw_unstaked_def force_new_era_def unregister_def Let_def
      split: option.splits if_splits sum.splits provider_state.splits prod.splits)

lemma refused_balances:
  "claim_staker T origin p s = (Inl err, s') \<Longrightarrow>
     s' = s \<or> (\<exists>a v e c. withdraw (Currency T) (Balances s) a v TRANSFER AllowDeath = (Inl e, c) \<and> s' = s\<lparr>Balances := c\<rparr>)"
  "claim_operator T origin p e s = (Inl err, s') \<Longrightarrow>
     s' = s \<or> (\<exists>a v e c. withdraw (Currency T) (Balances s) a v TRANSFER AllowDeath = (Inl e, c) \<and> s' = s\<lparr>Balances := c\<rparr>)"
  by (auto simp: claim_staker_def claim_operator_def Let_def
      split: option.splits if_splits sum.splits prod.splits)

lemma refused_only_balances:
  "claim_staker T origin p s = (Inl err, s') \<Longrightarrow> \<exists>c. s' = s\<lparr>Balances := c\<rparr>"
  "claim_operator T origin p e s = (Inl err, s') \<Longrightarrow> \<exists>c. s' = s\<lparr>Balances := c\<rparr>"
  by (drule refused_balances, elim disjE exE conjE, rule exI [of _ "Balances s"], simp, blast)+

lemma stake_okE:
  assumes "stake T origin p v s = (Inr (), s')"
  obtains a w i new_locked new_total where
    "ensure_signed (System T) origin = Some a"
    "is_active_provider p s"
    "w = min v (available_staking_balance T a (ledger s a) s)" "0 < w"
    "latest_staked_value (staker_info_of s a p) \<noteq> 0 \<or>
       psi_number_of_stakers (provider_stake s p (CurrentEra s)) < MaxNumberOfStakersPerProvider T"
    "StakerInfo_stake (staker_info_of s a p) (CurrentEra s) w = Inr i"
    "StakerInfo_len i < MaxEraStakeValues T"
    "MinimumStakingAmount T \<le> latest_staked_value i"
    "unat new_locked = unat (locked (ledger s a)) + unat w"
    "unat new_total = unat (psi_total (provider_stake s p (CurrentEra s))) + unat w"
    "s' = deposit_event (Stake a p w)
       ((update_staker_info a p i
         (update_ledger T a ((ledger s a)\<lparr>locked := new_locked\<rparr>)
          (mutate_era_info (CurrentEra s)
             (\<lambda>x. x\<lparr>ei_staked := saturating_add (ei_staked x) w,
                     ei_locked := saturating_add (ei_locked x) w\<rparr>) s)))
        \<lparr>ProviderEraStake := (ProviderEraStake s)((p, CurrentEra s) \<mapsto>
           (if latest_staked_value (staker_info_of s a p) = 0
            then (provider_stake s p (CurrentEra s))\<lparr>psi_number_of_stakers :=
               saturating_add (psi_number_of_stakers (provider_stake s p (CurrentEra s))) 1\<rparr>
            else provider_stake s p (CurrentEra s))\<lparr>psi_total := new_total\<rparr>)\<rparr>)"
proof -
  note ok = assms [unfolded stake_def Let_def]
  obtain a where a: "ensure_signed (System T) origin = Some a"
    using ok by (auto split: option.splits)
  define w where "w = min v (available_staking_balance T a (ledger s a) s)"
  have act: "is_active_provider p s" using ok a by (simp split: if_splits)
  have w: "0 < w" using ok a act by (simp add: w_def split: if_splits)
  have room: "latest_staked_value (staker_info_of s a p) \<noteq> 0 \<or>
      psi_number_of_stakers (provider_stake s p (CurrentEra s)) < MaxNumberOfStakersPerProvider T"
    using ok a act w by (simp add: w_def [symmetric] split: if_splits)
  obtain i where i: "StakerInfo_stake (staker_info_of s a p) (CurrentEra s) w = Inr i"
    using ok a act w room by (auto simp: w_def [symmetric] split: sum.splits)
  have len: "StakerInfo_len i < MaxEraStakeValues T"
    and enough: "MinimumStakingAmount T \<le> latest_staked_value i"
    using ok a act w room i by (auto simp: w_def [symmetric] split: if_splits)
  obtain nl where nl: "checked_add (locked (ledger s a)) w = Some nl"
    using ok a act w room i len enough by (auto simp: w_def [symmetric] split: option.splits)
  obtain nt where nt: "checked_add (psi_total (provider_stake s p (CurrentEra s))) w = Some nt"
    using ok a act w room i len enough nl
    by (auto simp: w_def [symmetric] split: option.splits if_splits)
  show thesis
    by (rule that [OF a act w_def w room i len enough
          nl [unfolded checked_add_Some_iff] nt [unfolded checked_add_Some_iff]])
      (use ok a act w room i len enough nl nt in
        \<open>auto simp: w_def [symmetric] split: if_splits\<close>)
qed

lemma unstake_okE:
  assumes "unstake T origin p v s = (Inr (), s')"
  obtains a w i whole where
    "ensure_signed (System T) origin = Some a"
    "is_active_provider p s"
    "0 < v" "0 < latest_staked_value (staker_info_of s a p)" "0 < w"
    "whole \<longleftrightarrow> saturating_sub (latest_staked_value (staker_info_of s a p)) v < MinimumStakingAmount T"
    "w = (if whole then latest_staked_value (staker_info_of s a p) else v)"
    "StakerInfo_unstake (staker_info_of s a p) (CurrentEra s) w = Inr i"
    "StakerInfo_len i < MaxEraStakeValues T"
    "UnbondingInfo_len (UnbondingInfo_add (unbonding (ledger s a))
       \<lparr>chunk_amount = w, unlock_era = CurrentEra s + UnbondingPeriod T\<rparr>) \<le> MaxUnlockingChunks T"
    "s' = deposit_event (Unstake a p w)
       ((update_staker_info a p i
         (mutate_era_info (CurrentEra s) (\<lambda>x. x\<lparr>ei_staked := saturating_sub (ei_staked x) w\<rparr>)
          (update_ledger T a
             ((ledger s a)\<lparr>unbonding := UnbondingInfo_add (unbonding (ledger s a))
                \<lparr>chunk_amount = w, unlock_era = CurrentEra s + UnbondingPeriod T\<rparr>\<rparr>) s)))
        \<lparr>ProviderEraStake := (ProviderEraStake s)((p, CurrentEra s) \<mapsto>
           (if whole
            then (provider_stake s p (CurrentEra s))\<lparr>psi_number_of_stakers :=
               saturating_sub (psi_number_of_stakers (provider_stake s p (CurrentEra s))) 1\<rparr>
            else provider_stake s p (CurrentEra s))\<lparr>psi_total :=
               saturating_sub (psi_total (provider_stake s p (CurrentEra s))) w\<rparr>)\<rparr>)"
proof -
  note ok = assms [unfolded unstake_def Let_def]
  obtain a where a: "ensure_signed (System T) origin = Some a"
    using ok by (auto split: option.splits)
  let ?staked = "latest_staked_value (staker_info_of s a p)"
  define whole where "whole \<longleftrightarrow> saturating_sub ?staked v < MinimumStakingAmount T"
  define w where "w = (if whole then ?staked else v)"
  note ok = ok [unfolded a option.case, folded whole_def, folded w_def]
  have v: "0 < v" using ok by (simp split: if_splits)
  have act: "is_active_provider p s" using ok v by (simp split: if_splits)
  have staked: "0 < ?staked" using ok v act by (simp split: if_splits)
  have w: "0 < w" using v staked by (simp add: w_def)
  obtain i where i: "StakerInfo_unstake (staker_info_of s a p) (CurrentEra s) w = Inr i"
    using ok v act staked w by (auto split: sum.splits)
  have len: "StakerInfo_len i < MaxEraStakeValues T"
    using ok v act staked w i by (auto split: if_splits)
  have chunks: "UnbondingInfo_len (UnbondingInfo_add (unbonding (ledger s a))
       \<lparr>chunk_amount = w, unlock_era = CurrentEra s + UnbondingPeriod T\<rparr>) \<le> MaxUnlockingChunks T"
    using ok v act staked w i len by (auto split: if_splits)
  show thesis
    by (rule that [OF a act v staked w whole_def w_def i len chunks])
      (use ok v act staked w i len chunks in \<open>cases whole; auto\<close>)
qed

lemma withdraw_unstaked_okE:
  assumes "withdraw_unstaked T origin s = (Inr (), s')"
  obtains a valid future w where
    "ensure_signed (System T) origin = Some a"
    "UnbondingInfo_partition (unbonding (ledger s a)) (CurrentEra s) = (valid, future)"
    "w = UnbondingInfo_sum valid" "w \<noteq> 0"
    "s' = deposit_event (Withdrawn a w)
       (mutate_era_info (CurrentEra s) (\<lambda>x. x\<lparr>ei_locked := saturating_sub (ei_locked x) w\<rparr>)
         (update_ledger T a
            \<lparr>locked = saturating_sub (locked (ledger s a)) w, unbonding = future\<rparr> s))"
proof -
  note ok = assms [unfolded withdraw_unstaked_def Let_def]
  obtain a where a: "ensure_signed (System T) origin = Some a"
    using ok by (auto split: option.splits)
  obtain valid future where
    part: "UnbondingInfo_partition (unbonding (ledger s a)) (CurrentEra s) = (valid, future)"
    by (metis surj_pair)
  have w: "UnbondingInfo_sum valid \<noteq> 0" using ok a part by (auto split: if_splits)
  show thesis by (rule that [OF a part refl w]) (use ok a part w in simp)
qed

lemma withdraw_from_unregistered_staker_okE:
  assumes "withdraw_from_unregistered_staker T origin p s = (Inr (), s')"
  obtains a info u w where
    "ensure_signed (System T) origin = Some a"
    "RegisteredProviders s p = Some info" "pi_state info = Unregistered u"
    "u + UnbondingPeriod T < CurrentEra s"
    "w = latest_staked_value (staker_info_of s a p)" "0 < w"
    "u \<le> fst (fst (StakerInfo_claim (staker_info_of s a p))) \<or>
       fst (fst (StakerInfo_claim (staker_info_of s a p))) = 0"
    "s' = deposit_event (WithdrawFromUnregistered a p w)
       (mutate_era_info (CurrentEra s)
          (\<lambda>x. x\<lparr>ei_staked := saturating_sub (ei_staked x) w,
                  ei_locked := saturating_sub (ei_locked x) w\<rparr>)
          (update_staker_info a p StakerInfo_default
            (update_ledger T a
              ((ledger s a)\<lparr>locked := saturating_sub (locked (ledger s a)) w\<rparr>) s)))"
proof -
  note ok = assms [unfolded withdraw_from_unregistered_staker_def Let_def]
  obtain a where a: "ensure_signed (System T) origin = Some a"
    using ok by (auto split: option.splits)
  obtain info where info: "RegisteredProviders s p = Some info"
    using ok a by (auto split: option.splits)
  obtain u where u: "pi_state info = Unregistered u"
    using ok a info by (auto split: provider_state.splits)
  have era: "u + UnbondingPeriod T < CurrentEra s"
    using ok a info u by (auto split: if_splits)
  have w: "0 < latest_staked_value (staker_info_of s a p)"
    using ok a info u era by (auto split: if_splits)
  have claimed: "u \<le> fst (fst (StakerInfo_claim (staker_info_of s a p))) \<or>
       fst (fst (StakerInfo_claim (staker_info_of s a p))) = 0"
    using ok a info u era w by (auto split: if_splits)
  show thesis
    by (rule that [OF a info u era refl w claimed])
      (use ok a info u era w claimed in \<open>simp split: if_splits\<close>)
qed

lemma claim_staker_okE:
  assumes "claim_staker T origin p s = (Inr (), s')"
  obtains a e v i info era_info reward imb c where
    "ensure_signed (System T) origin = Some a"
    "StakerInfo_claim (staker_info_of s a p) = ((e, v), i)" "0 < v"
    "RegisteredProviders s p = Some info"
    "\<forall>u. pi_state info = Unregistered u \<longrightarrow> e < u"
    "e < CurrentEra s" "GeneralEraInfo s e = Some era_info"
    "reward = perbill_mul (Perbill T)
       (from_rational (Perbill T) v (psi_total (provider_stake s p e)))
       (snd (operator_stakers_split T (provider_stake s p e) era_info))"
    "withdraw (Currency T) (Balances s) (pallet_account T) reward TRANSFER AllowDeath = (Inr imb, c)"
    "s' = deposit_event (Reward a p e reward)
       (update_staker_info a p i
          (s\<lparr>Balances := resolve_creating (Currency T) c a imb\<rparr>))"
proof -
  note ok = assms [unfolded claim_staker_def Let_def]
  obtain a where a: "ensure_signed (System T) origin = Some a"
    using ok by (auto split: option.splits)
  obtain e v i where claim: "StakerInfo_claim (staker_info_of s a p) = ((e, v), i)"
    by (metis surj_pair)
  note ok = ok [unfolded a claim option.case prod.case]
  have v: "0 < v" using ok by (simp split: if_splits)
  obtain info where info: "RegisteredProviders s p = Some info"
    using ok v by (auto split: option.splits)
  have reg: "\<forall>u. pi_state info = Unregistered u \<longrightarrow> e < u"
    using ok v info by (auto split: if_splits provider_state.splits)
  then have reg': "\<not> (case pi_state info of
            Registered \<Rightarrow> False | Unregistered unregistered_era \<Rightarrow> \<not> e < unregistered_era)"
    by (auto split: provider_state.splits)
  note ok = ok [unfolded info option.case if_not_P [OF reg']]
  have e: "e < CurrentEra s" using ok v by (simp split: if_splits)
  obtain era_info where era_info: "GeneralEraInfo s e = Some era_info"
    using ok v e by (auto split: option.splits)
  define reward where "reward = perbill_mul (Perbill T)
       (from_rational (Perbill T) v (psi_total (provider_stake s p e)))
       (snd (operator_stakers_split T (provider_stake s p e) era_info))"
  note ok = ok [unfolded era_info option.case, folded reward_def]
  obtain imb c where paid:
    "withdraw (Currency T) (Balances s) (pallet_account T) reward TRANSFER AllowDeath = (Inr imb, c)"
    using ok v e by (auto split: prod.splits sum.splits)
  show thesis
    by (rule that [OF a claim v info reg e era_info reward_def paid]) (use ok v e paid in simp)
qed

lemma claim_operator_okE:
  assumes "claim_operator T origin p e s = (Inr (), s')"
  obtains a info era_info reward imb c where
    "ensure_signed (System T) origin = Some a"
    "RegisteredProviders s p = Some info"
    "\<forall>u. pi_state info = Unregistered u \<longrightarrow> e < u"
    "e < CurrentEra s"
    "\<not> psi_reward_claimed (provider_stake s p e)" "0 < psi_total (provider_stake s p e)"
    "GeneralEraInfo s e = Some era_info"
    "reward = fst (operator_stakers_split T (provider_stake s p e) era_info)"
    "withdraw (Currency T) (Balances s) (pallet_account T) reward TRANSFER AllowDeath = (Inr imb, c)"
    "s' = deposit_event (Reward (pi_operator info) p e reward)
       (s\<lparr>Balances := resolve_creating (Currency T) c (pi_operator info) imb,
          ProviderEraStake := (ProviderEraStake s)((p, e) \<mapsto>
            (provider_stake s p e)\<lparr>psi_reward_claimed := True\<rparr>)\<rparr>)"
proof -
  note ok = assms [unfolded claim_operator_def Let_def]
  obtain a where a: "ensure_signed (System T) origin = Some a"
    using ok by (auto split: option.splits)
  obtain info where info: "RegisteredProviders s p = Some info"
    using ok a by (auto split: option.splits)
  have reg: "\<forall>u. pi_state info = Unregistered u \<longrightarrow> e < u"
    using ok a info by (auto split: if_splits provider_state.splits)
  then have reg': "\<not> (case pi_state info of
            Registered \<Rightarrow> False | Unregistered unregistered_era \<Rightarrow> \<not> e < unregistered_era)"
    by (auto split: provider_state.splits)
  note ok = ok [unfolded a info option.case if_not_P [OF reg']]
  have guards: "e < CurrentEra s" "\<not> psi_reward_claimed (provider_stake s p e)"
      "0 < psi_total (provider_stake s p e)"
    using ok by (simp_all split: if_splits)
  obtain era_info where era_info: "GeneralEraInfo s e = Some era_info"
    using ok guards by (auto split: option.splits)
  obtain imb c where paid: "withdraw (Currency T) (Balances s) (pallet_account T)
      (fst (operator_stakers_split T (provider_stake s p e) era_info)) TRANSFER AllowDeath = (Inr imb, c)"
    using ok guards era_info by (auto split: prod.splits sum.splits)
  show thesis
    by (rule that [OF a info reg guards era_info refl paid]) (use ok guards era_info paid in simp)
qed

lemma withdraw_from_unregistered_operator_okE:
  assumes "withdraw_from_unregistered_operator T origin p s = (Inr (), s')"
  obtains info u where
    "RegisteredProviders s p = Some info"
    "ensure_signed (System T) origin = Some (pi_operator info)"
    "\<not> pi_unreserved info" "pi_state info = Unregistered u"
    "u + UnbondingPeriod T < CurrentEra s"
    "s' = deposit_event (WithdrawFromUnregistered (pi_operator info) p (RegisterDeposit T))
       (s\<lparr>RegisteredProviders := (RegisteredProviders s)(p \<mapsto> info\<lparr>pi_unreserved := True\<rparr>),
          Balances := unreserve (Currency T) (Balances s) (pi_operator info) (RegisterDeposit T)\<rparr>)"
  using assms unfolding withdraw_from_unregistered_operator_def Let_def
  by (auto split: option.splits if_splits provider_state.splits)

lemma unregister_okE:
  assumes "unregister p s = (Inr (), s')"
  obtains info where
    "RegisteredProviders s p = Some info" "pi_state info = Registered"
    "s' = s\<lparr>RegisteredProviders := (RegisteredProviders s)
       (p \<mapsto> info\<lparr>pi_state := Unregistered (CurrentEra s)\<rparr>)\<rparr>"
  using assms unfolding unregister_def Let_def
  by (auto split: option.splits if_splits)

text \<open>\<^verbatim>\<open>register\<close> enters the provider and then stakes; a refused stake leaves the entry behind.\<close>

definition enrol :: "'c \<Rightarrow> 'a \<Rightarrow> 'p \<Rightarrow> ('a, 'p, 'c) staking \<Rightarrow> ('a, 'p, 'c) staking" where
  "enrol c operator pid s =
     s\<lparr>Balances := c, RegisteredProviders :=
        (RegisteredProviders s)(pid \<mapsto> ProviderInfo_new operator)\<rparr>"

lemma register_cases:
  assumes "register T a p d s = (r, s')"
  obtains (known) "RegisteredProviders s p \<noteq> None" "r = Inl (Module AlreadyRegisteredProvider)" "s' = s"
  | (poor) "RegisteredProviders s p = None" "d < RegisterDeposit T + MinimumStakingAmount T"
      "r = Inl (Module InsufficientValue)" "s' = s"
  | (unreserved) e c where "RegisteredProviders s p = None"
      "reserve (Currency T) (Balances s) a (RegisterDeposit T) = (Inl e, c)"
      "r = Inl (External e)" "s' = s\<lparr>Balances := c\<rparr>"
  | (enrolled) x c where "RegisteredProviders s p = None"
      "RegisterDeposit T + MinimumStakingAmount T \<le> d"
      "reserve (Currency T) (Balances s) a (RegisterDeposit T) = (Inr x, c)"
      "stake T (signed (System T) a) p (saturating_sub d (RegisterDeposit T)) (enrol c a p s) = (r, s')"
proof (cases "RegisteredProviders s p")
  case (Some info)
  show thesis by (rule known) (use Some assms in \<open>simp_all add: register_def\<close>)
next
  case None
  show thesis
  proof (cases "RegisterDeposit T + MinimumStakingAmount T \<le> d")
    case False
    show thesis
      by (rule poor) (use False None assms in \<open>simp_all add: register_def Let_def not_le\<close>)
  next
    case enough: True
    obtain x c where res: "reserve (Currency T) (Balances s) a (RegisterDeposit T) = (x, c)"
      by (metis surj_pair)
    show thesis
    proof (cases x)
      case (Inl e)
      show thesis
        by (rule unreserved [OF None, of e c])
          (use Inl None enough assms res in \<open>simp_all add: register_def Let_def\<close>)
    next
      case (Inr y)
      show thesis
        by (rule enrolled [OF None enough, of y c])
          (use Inr None enough assms res in \<open>simp_all add: register_def Let_def enrol_def\<close>)
    qed
  qed
qed

text \<open>An era either goes on or ends; what the hook writes when it ends.\<close>

definition era_ends ::
    "('o, 'a, 'p, 'c, 'i, 'b, 'e) staking_config \<Rightarrow> u32 \<Rightarrow> ('a, 'p, 'c) staking \<Rightarrow> bool" where
  "era_ends T now s \<longleftrightarrow>
     now mod BlockPerEra T = 1 \<or> ForceEra s = ForceNew \<or> CurrentEra s = 0"

lemma on_initialize_idle:
  assumes "on_initialize T now s = Some (w, s')" "\<not> era_ends T now s"
  shows "s' = s"
  using assms by (auto simp: on_initialize_def era_ends_def Let_def split: if_splits)

lemma on_initialize_new_era:
  assumes "on_initialize T now s = Some (w, s')" "era_ends T now s"
  shows "Ledger s' = Ledger s" "CurrentEra s' = CurrentEra s + 1"
    "BlockRewardAccumulator s' = RewardInfo_default" "ForceEra s' = NotForcing"
    "RegisteredProviders s' = RegisteredProviders s"
    "GeneralStakerInfo s' = GeneralStakerInfo s" "Balances s' = Balances s"
    "Events s' = Events s @ [NewDapiStakingEra (CurrentEra s + 1)]"
    "GeneralEraInfo s' =
       (let x = (case GeneralEraInfo s (CurrentEra s) of None \<Rightarrow> EraInfo_default | Some x \<Rightarrow> x)
        in (GeneralEraInfo s)
             (CurrentEra s + 1 \<mapsto> x\<lparr>ei_rewards := RewardInfo_default\<rparr>,
              CurrentEra s \<mapsto> x\<lparr>ei_rewards := BlockRewardAccumulator s\<rparr>))"
proof -
  define s2 where "s2 = s\<lparr>CurrentEra := CurrentEra s + 1, BlockRewardAccumulator := RewardInfo_default\<rparr>"
  define s3 where "s3 = reward_balance_snapshot (CurrentEra s) (BlockRewardAccumulator s) s2"
  obtain v s4 where rot: "rotate_staking_info T (CurrentEra s) s3 = (v, s4)" by (metis surj_pair)
  have s': "s' = deposit_event (NewDapiStakingEra (CurrentEra s + 1))
      (if ForceEra s = ForceNew then s4\<lparr>ForceEra := NotForcing\<rparr> else s4)"
    using assms rot
    by (auto simp: on_initialize_def era_ends_def Let_def s2_def s3_def split: if_splits)
  note fields = rotate_loop_fields [OF rot [unfolded rotate_staking_info_def]]
  have nf: "ForceEra s = NotForcing" if "ForceEra s \<noteq> ForceNew"
    using that by (cases "ForceEra s") auto
  show "Ledger s' = Ledger s" "CurrentEra s' = CurrentEra s + 1"
    "BlockRewardAccumulator s' = RewardInfo_default" "ForceEra s' = NotForcing"
    "RegisteredProviders s' = RegisteredProviders s"
    "GeneralStakerInfo s' = GeneralStakerInfo s" "Balances s' = Balances s"
    "Events s' = Events s @ [NewDapiStakingEra (CurrentEra s + 1)]"
    using fields nf by (simp_all add: s' s3_def s2_def reward_balance_snapshot_def Let_def)
  show "GeneralEraInfo s' =
       (let x = (case GeneralEraInfo s (CurrentEra s) of None \<Rightarrow> EraInfo_default | Some x \<Rightarrow> x)
        in (GeneralEraInfo s)
             (CurrentEra s + 1 \<mapsto> x\<lparr>ei_rewards := RewardInfo_default\<rparr>,
              CurrentEra s \<mapsto> x\<lparr>ei_rewards := BlockRewardAccumulator s\<rparr>))"
    using fields
    by (auto simp: s' s3_def s2_def reward_balance_snapshot_def Let_def intro: era_info.equality
        split: option.splits)
qed

lemma on_initialize_stakes:
  assumes "on_initialize T now s = Some (w, s')" "era_ends T now s"
    and iter: "iter_laws (iter_providers T)" and fin: "finite (dom (RegisteredProviders s))"
  shows "ProviderEraStake s' (p, e) =
    (if e = CurrentEra s + 1 \<and> is_active_provider p s \<and> ProviderEraStake s (p, CurrentEra s) \<noteq> None
     then Some ((the (ProviderEraStake s (p, CurrentEra s)))\<lparr>psi_reward_claimed := False\<rparr>)
     else ProviderEraStake s (p, e))"
proof -
  define s3 where "s3 = reward_balance_snapshot (CurrentEra s) (BlockRewardAccumulator s)
    (s\<lparr>CurrentEra := CurrentEra s + 1, BlockRewardAccumulator := RewardInfo_default\<rparr>)"
  obtain v s4 where rot: "rotate_staking_info T (CurrentEra s) s3 = (v, s4)" by (metis surj_pair)
  have s': "ProviderEraStake s' = ProviderEraStake s4"
    using assms(1,2) rot
    by (auto simp: on_initialize_def era_ends_def Let_def s3_def split: if_splits)
  have s3: "RegisteredProviders s3 = RegisteredProviders s" "ProviderEraStake s3 = ProviderEraStake s"
    by (simp_all add: s3_def reward_balance_snapshot_def Let_def)
  let ?ps = "iter_providers T (RegisteredProviders s)"
  have ps: "distinct (map fst ?ps)" "\<And>k v. (k, v) \<in> set ?ps \<longleftrightarrow> RegisteredProviders s k = Some v"
    using iter fin by (auto simp: iter_laws_def)
  then have map_of: "map_of ?ps p = RegisteredProviders s p"
    by (cases "RegisteredProviders s p") (auto simp: map_of_eq_None_iff)
  have ne: "CurrentEra s + 1 \<noteq> CurrentEra s" by simp
  show ?thesis
    using rotate_loop_stakes [OF rot [unfolded rotate_staking_info_def s3] ne ps(1), of p e]
    by (auto simp: s' s3 map_of is_active_provider_def split: option.splits)
qed

section \<open>The steps of the pallet\<close>

text \<open>
  Every call of the pallet is a step, refused or not, as are the calls of other pallets into it,
  the hook, and whatever else happens to the currency in between. The hook may run as long as the
  era counter has not reached its last value.
\<close>

inductive staking_step ::
    "('o, 'a, 'p, 'c, 'i, 'b, 'e) staking_config \<Rightarrow> ('a, 'p, 'c) staking \<Rightarrow> ('a, 'p, 'c) staking \<Rightarrow> bool"
  for T :: "('o, 'a, 'p, 'c, 'i, 'b, 'e) staking_config" where
  withdraw_staker_step: "withdraw_from_unregistered_staker T origin p s = (r, s') \<Longrightarrow> staking_step T s s'"
| withdraw_operator_step: "withdraw_from_unregistered_operator T origin p s = (r, s') \<Longrightarrow> staking_step T s s'"
| stake_step: "stake T origin p v s = (r, s') \<Longrightarrow> staking_step T s s'"
| unstake_step: "unstake T origin p v s = (r, s') \<Longrightarrow> staking_step T s s'"
| withdraw_unstaked_step: "withdraw_unstaked T origin s = (r, s') \<Longrightarrow> staking_step T s s'"
| claim_staker_step: "claim_staker T origin p s = (r, s') \<Longrightarrow> staking_step T s s'"
| claim_operator_step: "claim_operator T origin p e s = (r, s') \<Longrightarrow> staking_step T s s'"
| force_new_era_step: "force_new_era T origin s = (r, s') \<Longrightarrow> staking_step T s s'"
| register_step: "register T a p d s = (r, s') \<Longrightarrow> staking_step T s s'"
| unregister_step: "unregister p s = ((r :: (staking_error, 'e) dispatch_error + unit), s') \<Longrightarrow> staking_step T s s'"
| rewards_step: "staking_step T s (rewards T imb s)"
| initialize_step: "on_initialize T now s = Some (w, s') \<Longrightarrow> CurrentEra s < - 1 \<Longrightarrow> staking_step T s s'"
| currency_step: "staking_step T s (s\<lparr>Balances := c\<rparr>)"

lemma outcome_preserves:
  assumes "f = (r, s')" "\<And>err t. f = (Inl err, t) \<Longrightarrow> P t" "\<And>t. f = (Inr (), t) \<Longrightarrow> P t"
  shows "P s'"
  using assms by (cases r) auto

lemma outcome_refused_same:
  assumes "f = (r, s')" "\<And>err t. f = (Inl err, t) \<Longrightarrow> t = s" "Q s" "\<And>t. f = (Inr (), t) \<Longrightarrow> Q t"
  shows "Q s'"
  using assms by (cases r) auto

text \<open>
  The rule behind the invariants, for a property \<open>P\<close> before and a property \<open>Q\<close> after a step: it is
  enough to show that every successful call and a new era lead from \<open>P\<close> to \<open>Q\<close>, and that what a call
  does on the way keeps \<open>P\<close>. For an invariant \<open>P\<close> and \<open>Q\<close> are the same. \<open>R\<close> is what \<open>P\<close> may rely on
  when the currency changes.
\<close>

lemma staking_step_currency_rel:
  fixes T :: "('o, 'a, 'p, 'c, 'i, 'b, 'e) staking_config"
  assumes step: "staking_step T s s'" and P: "P s"
    and idle: "\<And>s. P s \<Longrightarrow> Q s"
    and balances: "\<And>s c. P s \<Longrightarrow> R (Balances s) c \<Longrightarrow> P (s\<lparr>Balances := c\<rparr>)"
    and other: "\<And>c. s' = s\<lparr>Balances := c\<rparr> \<Longrightarrow> R (Balances s) c"
    and currency: "\<And>c a v r x y c'. withdraw (Currency T) c a v r x = (y, c') \<Longrightarrow> R c c'"
      "\<And>c a v y c'. reserve (Currency T) c a v = (y, c') \<Longrightarrow> R c c'"
      "\<And>c a i. R c (resolve_creating (Currency T) c a i)"
    and withdraw_staker: "\<And>s origin p s'. withdraw_from_unregistered_staker T origin p s = (Inr (), s') \<Longrightarrow> P s \<Longrightarrow> Q s'"
    and withdraw_operator: "\<And>s origin p s'. withdraw_from_unregistered_operator T origin p s = (Inr (), s') \<Longrightarrow> P s \<Longrightarrow> Q s'"
    and stake: "\<And>s origin p v s'. stake T origin p v s = (Inr (), s') \<Longrightarrow> P s \<Longrightarrow> Q s'"
    and unstake: "\<And>s origin p v s'. unstake T origin p v s = (Inr (), s') \<Longrightarrow> P s \<Longrightarrow> Q s'"
    and withdraw: "\<And>s origin s'. withdraw_unstaked T origin s = (Inr (), s') \<Longrightarrow> P s \<Longrightarrow> Q s'"
    and claim_staker: "\<And>s origin p s'. claim_staker T origin p s = (Inr (), s') \<Longrightarrow> P s \<Longrightarrow> Q s'"
    and claim_operator: "\<And>s origin p e s'. claim_operator T origin p e s = (Inr (), s') \<Longrightarrow> P s \<Longrightarrow> Q s'"
    and force: "\<And>s. P s \<Longrightarrow> P (s\<lparr>ForceEra := ForceNew\<rparr>)"
    and enrol: "\<And>s c a p. RegisteredProviders s p = None \<Longrightarrow> P s \<Longrightarrow> R (Balances s) c \<Longrightarrow> P (enrol c a p s)"
    and unregister: "\<And>s p s'. unregister p s = ((Inr () :: (staking_error, 'e) dispatch_error + unit), s') \<Longrightarrow> P s \<Longrightarrow> Q s'"
    and rewards: "\<And>s acc. P s \<Longrightarrow> P (s\<lparr>BlockRewardAccumulator := acc\<rparr>)"
    and new_era: "\<And>s now w s'. on_initialize T now s = Some (w, s') \<Longrightarrow> era_ends T now s \<Longrightarrow>
      CurrentEra s < - 1 \<Longrightarrow> P s \<Longrightarrow> Q s'"
  shows "Q s'"
  using step
proof (cases rule: staking_step.cases)
  case (register_step a p d r)
  then show ?thesis
  proof (cases rule: register_cases)
    case (enrolled x c)
    have mid: "P (enrol c a p s)" using enrol enrolled(1) P currency(2) [OF enrolled(3)] .
    show ?thesis
      by (rule outcome_refused_same [where Q = Q, OF enrolled(4) refused_unchanged(3) idle [OF mid] stake [OF _ mid]])
  qed (use P balances idle currency(2) in auto)
next
  case (claim_staker_step origin p r)
  then show ?thesis
    using refused_balances(1) [of T origin p s] claim_staker [OF _ P] idle P balances currency(1)
    by (cases r) (metis old.unit.exhaust)+
next
  case (claim_operator_step origin p e r)
  then show ?thesis
    using refused_balances(2) [of T origin p e s] claim_operator [OF _ P] idle P balances currency(1)
    by (cases r) (metis old.unit.exhaust)+
next
  case (rewards_step imb)
  then show ?thesis
    using idle [OF balances [OF rewards [OF P] currency(3)]] by (simp add: rewards_def Let_def)
next
  case (force_new_era_step origin r)
  then show ?thesis using P idle force by (auto simp: force_new_era_def split: if_splits)
next
  case (initialize_step now w)
  then show ?thesis
    using on_initialize_idle [of T now s] idle [OF P] new_era [OF _ _ _ P] by (cases "era_ends T now s") auto
next
  case (currency_step c)
  then show ?thesis using idle [OF balances [OF P other]] by simp
qed (erule outcome_refused_same [where Q = Q, OF _ _ idle [OF P]]; (erule refused_unchanged | erule stake [OF _ P] unstake [OF _ P]
    withdraw [OF _ P] withdraw_staker [OF _ P] withdraw_operator [OF _ P] unregister [OF _ P]))+

text \<open>Most properties do not look at the currency.\<close>

lemma staking_step_rel:
  fixes T :: "('o, 'a, 'p, 'c, 'i, 'b, 'e) staking_config"
  assumes step: "staking_step T s s'" and P: "P s"
    and idle: "\<And>s. P s \<Longrightarrow> Q s"
    and balances: "\<And>s c. P s \<Longrightarrow> P (s\<lparr>Balances := c\<rparr>)"
    and withdraw_staker: "\<And>s origin p s'. withdraw_from_unregistered_staker T origin p s = (Inr (), s') \<Longrightarrow> P s \<Longrightarrow> Q s'"
    and withdraw_operator: "\<And>s origin p s'. withdraw_from_unregistered_operator T origin p s = (Inr (), s') \<Longrightarrow> P s \<Longrightarrow> Q s'"
    and stake: "\<And>s origin p v s'. stake T origin p v s = (Inr (), s') \<Longrightarrow> P s \<Longrightarrow> Q s'"
    and unstake: "\<And>s origin p v s'. unstake T origin p v s = (Inr (), s') \<Longrightarrow> P s \<Longrightarrow> Q s'"
    and withdraw: "\<And>s origin s'. withdraw_unstaked T origin s = (Inr (), s') \<Longrightarrow> P s \<Longrightarrow> Q s'"
    and claim_staker: "\<And>s origin p s'. claim_staker T origin p s = (Inr (), s') \<Longrightarrow> P s \<Longrightarrow> Q s'"
    and claim_operator: "\<And>s origin p e s'. claim_operator T origin p e s = (Inr (), s') \<Longrightarrow> P s \<Longrightarrow> Q s'"
    and force: "\<And>s. P s \<Longrightarrow> P (s\<lparr>ForceEra := ForceNew\<rparr>)"
    and enrol: "\<And>s c a p. RegisteredProviders s p = None \<Longrightarrow> P s \<Longrightarrow> P (enrol c a p s)"
    and unregister: "\<And>s p s'. unregister p s = ((Inr () :: (staking_error, 'e) dispatch_error + unit), s') \<Longrightarrow> P s \<Longrightarrow> Q s'"
    and rewards: "\<And>s acc. P s \<Longrightarrow> P (s\<lparr>BlockRewardAccumulator := acc\<rparr>)"
    and new_era: "\<And>s now w s'. on_initialize T now s = Some (w, s') \<Longrightarrow> era_ends T now s \<Longrightarrow>
      CurrentEra s < - 1 \<Longrightarrow> P s \<Longrightarrow> Q s'"
  shows "Q s'"
  by (rule staking_step_currency_rel [where R = "\<lambda>_ _. True", OF step P idle balances _ _ _ _
        withdraw_staker withdraw_operator stake unstake withdraw claim_staker claim_operator force
        enrol unregister rewards new_era]) simp_all

end
