(* ===== verification/Staking_Ledger.thy ===== *)
theory Staking_Ledger
  imports Staking_Steps
begin

text \<open>
  The books of the staking pallet. For every account the locked balance is what it has staked on
  providers plus what is unbonding: no call creates or loses a unit. The invariant holds at
  genesis and every step of the pallet keeps it.
\<close>

section \<open>Sums over the stake histories\<close>

text \<open>\<open>stake_sum sel w s\<close> adds the weight \<open>w\<close> of the histories of the selected pairs.\<close>

definition stake_sum ::
    "('a \<times> 'p \<Rightarrow> bool) \<Rightarrow> (staker_info \<Rightarrow> nat) \<Rightarrow> ('a, 'p, 'c) staking \<Rightarrow> nat" where
  "stake_sum sel w s = msum (\<lambda>k i. if sel k then w i else 0) (GeneralStakerInfo s)"

definition staked_by :: "('a, 'p, 'c) staking \<Rightarrow> 'a \<Rightarrow> nat" where
  "staked_by s a = stake_sum (\<lambda>k. fst k = a) (\<lambda>i. unat (latest_staked_value i)) s"

lemma stake_sum_update:
  assumes "GeneralStakerInfo s' = upd_default StakerInfo_default (GeneralStakerInfo s) (a, p) i"
    and "finite (dom (GeneralStakerInfo s))" "w StakerInfo_default = 0"
  shows "stake_sum sel w s' + (if sel (a, p) then w (staker_info_of s a p) else 0) =
    stake_sum sel w s + (if sel (a, p) then w i else 0)"
proof -
  let ?f = "\<lambda>k i. if sel k then w i else 0"
  have "msum ?f (upd_default StakerInfo_default (GeneralStakerInfo s) (a, p) i) +
      ?f (a, p) (staker_info_of s a p) = msum ?f (GeneralStakerInfo s) + ?f (a, p) i"
    unfolding staker_info_of_def using assms(2,3) by (intro msum_upd_default) simp_all
  then show ?thesis by (simp add: stake_sum_def assms(1))
qed

lemma stake_sum_same:
  "GeneralStakerInfo s' = GeneralStakerInfo s \<Longrightarrow> stake_sum sel w s' = stake_sum sel w s"
  by (simp add: stake_sum_def)

lemma stake_sum_entry:
  assumes "finite (dom (GeneralStakerInfo s))" "w StakerInfo_default = 0" "sel (a, p)"
  shows "w (staker_info_of s a p) \<le> stake_sum sel w s"
  using entry_le_msum [OF assms(1), of "\<lambda>k i. if sel k then w i else 0" "(a, p)"] assms(2,3)
  by (auto simp: stake_sum_def staker_info_of_def entry_def split: option.splits)

lemma latest_default [simp]: "latest_staked_value StakerInfo_default = 0"
  by (simp add: latest_staked_value_def StakerInfo_default_def)

lemma staked_at_default [simp]: "staked_at StakerInfo_default e = 0"
  by (simp add: staked_at_def StakerInfo_default_def)

lemma history_default [simp]:
  "history_ok StakerInfo_default" "settled StakerInfo_default c" "claimed_upto StakerInfo_default c"
  by (simp_all add: history_defs StakerInfo_default_def)

section \<open>The invariant\<close>

definition histories_ok :: "('a, 'p, 'c) staking \<Rightarrow> bool" where
  "histories_ok s \<longleftrightarrow> finite (dom (GeneralStakerInfo s)) \<and>
     (\<forall>a p. history_ok (staker_info_of s a p) \<and> settled (staker_info_of s a p) (CurrentEra s))"

definition books_balance :: "('a, 'p, 'c) staking \<Rightarrow> bool" where
  "books_balance s \<longleftrightarrow> histories_ok s \<and>
     (\<forall>a. chunks_ok (unbonding (ledger s a)) \<and>
        unat (locked (ledger s a)) = staked_by s a + chunk_total (unbonding (ledger s a)))"

lemma books_balanceD:
  assumes "books_balance s"
  shows "histories_ok s" "finite (dom (GeneralStakerInfo s))"
    "history_ok (staker_info_of s a p)" "settled (staker_info_of s a p) (CurrentEra s)"
    "chunks_ok (unbonding (ledger s a))"
    "unat (locked (ledger s a)) = staked_by s a + chunk_total (unbonding (ledger s a))"
    "unat (latest_staked_value (staker_info_of s a p)) \<le> staked_by s a"
  using assms stake_sum_entry [of s "\<lambda>i. unat (latest_staked_value i)" "\<lambda>k. fst k = a" a p]
  by (auto simp: books_balance_def histories_ok_def staked_by_def)

lemma books_same:
  assumes "books_balance s" "GeneralStakerInfo s' = GeneralStakerInfo s" "Ledger s' = Ledger s"
    "CurrentEra s' = CurrentEra s"
  shows "books_balance s'"
  using assms
  by (simp add: books_balance_def histories_ok_def staked_by_def stake_sum_def ledger_def
      staker_info_of_def)

text \<open>
  The one lemma behind all calls that write the books: an account's ledger and one of its histories
  change so that the difference balances.
\<close>

lemma books_change:
  assumes inv: "books_balance s"
    and G: "GeneralStakerInfo s' = upd_default StakerInfo_default (GeneralStakerInfo s) (a, p) i"
    and L: "Ledger s' = upd_default AccountLedger_default (Ledger s) a l"
    and C: "CurrentEra s' = CurrentEra s"
    and i: "history_ok i" "settled i (CurrentEra s)"
    and l: "chunks_ok (unbonding l)"
      "unat (locked l) + unat (latest_staked_value (staker_info_of s a p)) +
         chunk_total (unbonding (ledger s a)) =
       unat (locked (ledger s a)) + unat (latest_staked_value i) + chunk_total (unbonding l)"
  shows "books_balance s'"
proof -
  note D = books_balanceD [OF inv]
  have "histories_ok s'"
    using D(2,3,4) i
    by (simp add: histories_ok_def G C staker_info_of_upd_default [OF G])
  moreover have "unat (locked (ledger s' b)) = staked_by s' b + chunk_total (unbonding (ledger s' b))" for b
    using stake_sum_update [OF G D(2), of "\<lambda>i. unat (latest_staked_value i)" "\<lambda>k. fst k = b"]
      l(2) D(6) [of a] D(6) [of b]
    by (auto simp: staked_by_def ledger_upd_default [OF L])
  moreover have "chunks_ok (unbonding (ledger s' b))" for b
    using D(5) l(1) by (simp add: ledger_upd_default [OF L])
  ultimately show ?thesis by (simp add: books_balance_def)
qed

lemma books_change_ledger:
  assumes inv: "books_balance s"
    and G: "GeneralStakerInfo s' = GeneralStakerInfo s"
    and L: "Ledger s' = upd_default AccountLedger_default (Ledger s) a l"
    and C: "CurrentEra s' = CurrentEra s"
    and l: "chunks_ok (unbonding l)"
      "unat (locked l) + chunk_total (unbonding (ledger s a)) =
       unat (locked (ledger s a)) + chunk_total (unbonding l)"
  shows "books_balance s'"
proof -
  note D = books_balanceD [OF inv]
  have same: "staked_by s' b = staked_by s b" for b
    by (simp add: staked_by_def stake_sum_same [OF G])
  have "histories_ok s'"
    using D(1) by (simp add: histories_ok_def G C staker_info_of_def)
  moreover have "unat (locked (ledger s' b)) = staked_by s' b + chunk_total (unbonding (ledger s' b))" for b
    using l(2) D(6) [of a] D(6) [of b] by (auto simp: same ledger_upd_default [OF L])
  moreover have "chunks_ok (unbonding (ledger s' b))" for b
    using D(5) l(1) by (simp add: ledger_upd_default [OF L])
  ultimately show ?thesis by (simp add: books_balance_def)
qed

section \<open>Every call keeps the books\<close>

lemma staked_fits:
  fixes new :: balance
  assumes "books_balance s" "unat new = unat (locked (ledger s a)) + unat w"
  shows "unat (saturating_add (latest_staked_value (staker_info_of s a p)) w) =
    unat (latest_staked_value (staker_info_of s a p)) + unat w"
proof -
  have "unat (latest_staked_value (staker_info_of s a p)) + unat w \<le> unat new"
    using books_balanceD(6) [OF assms(1), of a] books_balanceD(7) [OF assms(1), of a p] assms(2)
    by linarith
  also have "unat new < 2 ^ 128" using unsigned_less [of new, where 'a = nat] by simp
  finally show ?thesis by (intro saturating_add_exact) simp
qed

lemma stake_books:
  assumes "stake T origin p v s = (Inr (), s')" "books_balance s"
  shows "books_balance s'"
  using assms(1)
proof (rule stake_okE)
  fix a w i new_locked new_total
  assume i: "StakerInfo_stake (staker_info_of s a p) (CurrentEra s) w = Inr i"
    and nl: "unat new_locked = unat (locked (ledger s a)) + unat w"
    and s': "s' = deposit_event (Stake a p w)
       ((update_staker_info a p i
         (update_ledger T a ((ledger s a)\<lparr>locked := new_locked\<rparr>)
          (mutate_era_info (CurrentEra s)
             (\<lambda>x. x\<lparr>ei_staked := saturating_add (ei_staked x) w,
                     ei_locked := saturating_add (ei_locked x) w\<rparr>) s)))
        \<lparr>ProviderEraStake := (ProviderEraStake s)((p, CurrentEra s) \<mapsto>
           (if latest_staked_value (staker_info_of s a p) = 0
            then (provider_stake s p (CurrentEra s))\<lparr>psi_number_of_stakers :=
               saturating_add (psi_number_of_stakers (provider_stake s p (CurrentEra s))) 1\<rparr>
            else provider_stake s p (CurrentEra s))\<lparr>psi_total := new_total\<rparr>)\<rparr>)"
  note D = books_balanceD [OF assms(2)]
  show ?thesis
    by (rule books_change [OF assms(2), of _ a p i "(ledger s a)\<lparr>locked := new_locked\<rparr>"])
      (use StakerInfo_stake_ok(1,2) [OF D(3) i] staker_info.latest_stake [OF D(3) i]
         staked_fits [OF assms(2) nl] nl D(5) in \<open>simp_all add: s'\<close>)
qed

lemma unstake_amount_le:
  assumes "0 < MinimumStakingAmount T"
    and "whole \<longleftrightarrow> saturating_sub staked v < MinimumStakingAmount T"
    and "w = (if whole then staked else v)"
  shows "unat w \<le> unat staked"
  using assms by (auto simp: word_nat)

lemma unstake_fits:
  assumes "books_balance s" "0 < MinimumStakingAmount T"
    and "whole \<longleftrightarrow>
      saturating_sub (latest_staked_value (staker_info_of s a p)) v < MinimumStakingAmount T"
    and "w = (if whole then latest_staked_value (staker_info_of s a p) else v)"
  shows "chunk_total (unbonding (ledger s a)) + unat w < 2 ^ 128"
proof -
  note D = books_balanceD [OF assms(1)]
  have "chunk_total (unbonding (ledger s a)) + unat w \<le> unat (locked (ledger s a))"
    using unstake_amount_le [OF assms(2-4)] D(6) [of a] D(7) [of a p] by simp
  also have "\<dots> < 2 ^ 128" using unsigned_less [of "locked (ledger s a)", where 'a = nat] by simp
  finally show ?thesis .
qed

lemma unstake_books:
  assumes "unstake T origin p v s = (Inr (), s')" "books_balance s" "0 < MinimumStakingAmount T"
  shows "books_balance s'"
  using assms(1)
proof (rule unstake_okE)
  fix a w i whole
  let ?c = "\<lparr>chunk_amount = w, unlock_era = CurrentEra s + UnbondingPeriod T\<rparr>"
  let ?l = "(ledger s a)\<lparr>unbonding := UnbondingInfo_add (unbonding (ledger s a)) ?c\<rparr>"
  assume whole: "whole \<longleftrightarrow>
      saturating_sub (latest_staked_value (staker_info_of s a p)) v < MinimumStakingAmount T"
    and w: "w = (if whole then latest_staked_value (staker_info_of s a p) else v)"
    and i: "StakerInfo_unstake (staker_info_of s a p) (CurrentEra s) w = Inr i"
    and s': "s' = deposit_event (Unstake a p w)
       ((update_staker_info a p i
         (mutate_era_info (CurrentEra s) (\<lambda>x. x\<lparr>ei_staked := saturating_sub (ei_staked x) w\<rparr>)
          (update_ledger T a ?l s)))
        \<lparr>ProviderEraStake := (ProviderEraStake s)((p, CurrentEra s) \<mapsto>
           (if whole
            then (provider_stake s p (CurrentEra s))\<lparr>psi_number_of_stakers :=
               saturating_sub (psi_number_of_stakers (provider_stake s p (CurrentEra s))) 1\<rparr>
            else provider_stake s p (CurrentEra s))\<lparr>psi_total :=
               saturating_sub (psi_total (provider_stake s p (CurrentEra s))) w\<rparr>)\<rparr>)"
  note D = books_balanceD [OF assms(2)]
  have le: "unat w \<le> unat (latest_staked_value (staker_info_of s a p))"
    using unstake_amount_le [OF assms(3) whole w] .
  have fits: "chunk_total (unbonding (ledger s a)) + unat (chunk_amount ?c) < 2 ^ 128"
    using unstake_fits [OF assms(2,3) whole w] by simp
  show ?thesis
    by (rule books_change [OF assms(2), of _ a p i ?l])
      (use StakerInfo_unstake_ok(1,2) [OF D(3) i] staker_info.latest_unstake [OF D(3) i] le D(5) fits
         unbonding_info.total_add [OF D(5) fits] unbonding_info.invar_add [OF D(5)]
       in \<open>simp_all add: s' unat_saturating_sub\<close>)
qed

lemma withdraw_unstaked_books:
  assumes "withdraw_unstaked T origin s = (Inr (), s')" "books_balance s"
  shows "books_balance s'"
  using assms(1)
proof (rule withdraw_unstaked_okE)
  fix a valid future w
  let ?l = "\<lparr>locked = saturating_sub (locked (ledger s a)) w, unbonding = future\<rparr>"
  assume part: "UnbondingInfo_partition (unbonding (ledger s a)) (CurrentEra s) = (valid, future)"
    and w: "w = UnbondingInfo_sum valid"
    and s': "s' = deposit_event (Withdrawn a w)
       (mutate_era_info (CurrentEra s) (\<lambda>x. x\<lparr>ei_locked := saturating_sub (ei_locked x) w\<rparr>)
         (update_ledger T a ?l s))"
  note D = books_balanceD [OF assms(2)]
  have fits: "chunk_total (unbonding (ledger s a)) < 2 ^ 128"
    using D(6) [of a] unsigned_less [of "locked (ledger s a)", where 'a = nat] by simp
  note sum = unbonding_info.sum_split [OF part fits]
  have "due (unbonding (ledger s a)) (CurrentEra s) \<le> chunk_total (unbonding (ledger s a))"
    by (rule unbonding_info.due_le_total)
  then show ?thesis
    by (intro books_change_ledger [OF assms(2), of _ a ?l])
      (use sum D(6) [of a] chunks_ok_partition [OF part D(5)]
       in \<open>simp_all add: s' w unat_saturating_sub\<close>)
qed

lemma withdraw_from_unregistered_staker_books:
  assumes "withdraw_from_unregistered_staker T origin p s = (Inr (), s')" "books_balance s"
  shows "books_balance s'"
  using assms(1)
proof (rule withdraw_from_unregistered_staker_okE)
  fix a info u w
  let ?l = "(ledger s a)\<lparr>locked := saturating_sub (locked (ledger s a)) w\<rparr>"
  assume w: "w = latest_staked_value (staker_info_of s a p)"
    and s': "s' = deposit_event (WithdrawFromUnregistered a p w)
       (mutate_era_info (CurrentEra s)
          (\<lambda>x. x\<lparr>ei_staked := saturating_sub (ei_staked x) w,
                  ei_locked := saturating_sub (ei_locked x) w\<rparr>)
          (update_staker_info a p StakerInfo_default (update_ledger T a ?l s)))"
  note D = books_balanceD [OF assms(2)]
  show ?thesis
    by (rule books_change [OF assms(2), of _ a p StakerInfo_default ?l])
      (use D(5) D(6) [of a] D(7) [of a p] w in \<open>simp_all add: s' unat_saturating_sub\<close>)
qed

lemma claim_staker_books:
  assumes "claim_staker T origin p s = (Inr (), s')" "books_balance s"
  shows "books_balance s'"
  using assms(1)
proof (rule claim_staker_okE)
  fix a e v i info era_info reward imb c
  assume claim: "StakerInfo_claim (staker_info_of s a p) = ((e, v), i)" and v: "0 < v"
    and e: "e < CurrentEra s"
    and s': "s' = deposit_event (Reward a p e reward)
       (update_staker_info a p i (s\<lparr>Balances := resolve_creating (Currency T) c a imb\<rparr>))"
  note D = books_balanceD [OF assms(2)]
  have v': "v \<noteq> 0" using v by auto
  note ok = StakerInfo_claim_ok(1,2) [OF D(3,4) claim e v']
  note latest = staker_info.latest_claim [OF D(3,4) claim e v']
  have H: "histories_ok s'"
    using D(2,3,4) ok staker_info_of_upd_default [of s' s a p i]
    by (simp add: histories_ok_def s')
  have "stake_sum sel (\<lambda>i. unat (latest_staked_value i)) s' =
      stake_sum sel (\<lambda>i. unat (latest_staked_value i)) s" for sel
    using stake_sum_update [of s' s a p i "\<lambda>i. unat (latest_staked_value i)" sel] D(2) latest
    by (simp add: s' split: if_splits)
  with H D(5,6) show ?thesis by (simp add: books_balance_def staked_by_def s' ledger_def)
qed

lemma claim_operator_books:
  assumes "claim_operator T origin p e s = (Inr (), s')" "books_balance s"
  shows "books_balance s'"
  using assms(1) by (rule claim_operator_okE) (rule books_same [OF assms(2)]; simp)

lemma settled_mono: "settled h c \<Longrightarrow> c \<le> c' \<Longrightarrow> settled h c'"
  by (auto simp: settled_def list_all_iff intro: order_trans)

lemma next_era_later: "c < (- 1 :: era_index) \<Longrightarrow> c < c + 1"
  by (rule saturating_succ_le_iff(3))

lemma new_era_books:
  assumes "on_initialize T now s = Some (w, s')" "era_ends T now s" "CurrentEra s < - 1"
    and "books_balance s"
  shows "books_balance s'"
proof -
  note f = on_initialize_new_era [OF assms(1,2)]
  note D = books_balanceD [OF assms(4)]
  have "settled (staker_info_of s a p) (CurrentEra s + 1)" for a p
    using settled_mono [OF D(4)] next_era_later [OF assms(3)] by auto
  with D(2,3) have "histories_ok s'"
    by (simp add: histories_ok_def f staker_info_of_def)
  with D(5,6) show ?thesis
    by (simp add: books_balance_def staked_by_def stake_sum_def f ledger_def)
qed

lemma other_books:
  "books_balance s \<Longrightarrow> books_balance (s\<lparr>Balances := c\<rparr>)"
  "books_balance s \<Longrightarrow> books_balance (s\<lparr>ForceEra := f\<rparr>)"
  "books_balance s \<Longrightarrow> books_balance (s\<lparr>BlockRewardAccumulator := acc\<rparr>)"
  "RegisteredProviders s p = None \<Longrightarrow> books_balance s \<Longrightarrow> books_balance (enrol c a p s)"
  "unregister p s = (Inr (), s') \<Longrightarrow> books_balance s \<Longrightarrow> books_balance s'"
  "withdraw_from_unregistered_operator T origin p s = (Inr (), s') \<Longrightarrow> books_balance s \<Longrightarrow>
     books_balance s'"
  by (auto simp: enrol_def elim!: unregister_okE withdraw_from_unregistered_operator_okE
      elim: books_same)

lemma staking_step_books:
  assumes "staking_step T s s'" "0 < MinimumStakingAmount T" "books_balance s"
  shows "books_balance s'"
  by (rule staking_step_rel [where P = books_balance and Q = books_balance, OF assms(1,3)])
    (assumption | rule other_books stake_books unstake_books [OF _ _ assms(2)] withdraw_unstaked_books
      claim_staker_books claim_operator_books withdraw_from_unregistered_staker_books new_era_books;
     assumption)+

lemma genesis_books: "books_balance (genesis c)"
  by (simp add: books_balance_def histories_ok_def staked_by_def stake_sum_def genesis_def ledger_def
      staker_info_of_def AccountLedger_default_def UnbondingInfo_default_def chunks_ok_def chunk_total_def)

interpretation staking_books: invariant_system "staking_step T"
  "\<lambda>s. 0 < MinimumStakingAmount T \<longrightarrow> books_balance s" for T
  by unfold_locales (blast intro: staking_step_books)

end
