(* ===== verification/Staking_Shares.thy ===== *)
theory Staking_Shares
  imports Staking_Ledger
begin

text \<open>
  The totals kept for each provider. For an active provider the total of the current era is the sum
  of what its stakers have staked and the counter is their number; for every era that can still be
  claimed, the stakes not yet claimed never exceed the total the reward is divided by. Both hold in
  every state the pallet can reach.
\<close>

section \<open>The invariant\<close>

definition staked_on :: "('a, 'p, 'c) staking \<Rightarrow> 'p \<Rightarrow> nat" where
  "staked_on s p = stake_sum (\<lambda>k. snd k = p) (\<lambda>i. unat (latest_staked_value i)) s"

definition stakers_on :: "('a, 'p, 'c) staking \<Rightarrow> 'p \<Rightarrow> nat" where
  "stakers_on s p = stake_sum (\<lambda>k. snd k = p) (\<lambda>i. of_bool (latest_staked_value i \<noteq> 0)) s"

text \<open>What is staked on a provider for an era and not claimed yet.\<close>

definition unclaimed_on :: "('a, 'p, 'c) staking \<Rightarrow> 'p \<Rightarrow> era_index \<Rightarrow> nat" where
  "unclaimed_on s p e = stake_sum (\<lambda>k. snd k = p) (\<lambda>i. unat (staked_at i e)) s"

text \<open>The eras a provider takes part in: all of them until it is unregistered.\<close>

definition takes_part :: "('a, 'p, 'c) staking \<Rightarrow> 'p \<Rightarrow> era_index \<Rightarrow> bool" where
  "takes_part s p e =
     (case RegisteredProviders s p of None \<Rightarrow> False
      | Some info \<Rightarrow> (case pi_state info of Registered \<Rightarrow> True | Unregistered u \<Rightarrow> e \<le> u))"

definition registry_ok :: "('a, 'p, 'c) staking \<Rightarrow> bool" where
  "registry_ok s \<longleftrightarrow> finite (dom (RegisteredProviders s)) \<and>
     (\<forall>p a. RegisteredProviders s p = None \<longrightarrow> staker_info_of s a p = StakerInfo_default) \<and>
     (\<forall>p e. RegisteredProviders s p = None \<or> CurrentEra s < e \<longrightarrow> ProviderEraStake s (p, e) = None) \<and>
     (\<forall>p info u. RegisteredProviders s p = Some info \<longrightarrow> pi_state info = Unregistered u \<longrightarrow>
        u \<le> CurrentEra s)"

definition totals_ok :: "('a, 'p, 'c) staking \<Rightarrow> bool" where
  "totals_ok s \<longleftrightarrow>
     (\<forall>p. is_active_provider p s \<longrightarrow>
        unat (psi_total (provider_stake s p (CurrentEra s))) = staked_on s p \<and>
        unat (psi_number_of_stakers (provider_stake s p (CurrentEra s))) = stakers_on s p) \<and>
     (\<forall>p e. e \<le> CurrentEra s \<longrightarrow> takes_part s p e \<longrightarrow>
        unclaimed_on s p e \<le> unat (psi_total (provider_stake s p e)))"

definition shares_ok :: "('a, 'p, 'c) staking \<Rightarrow> bool" where
  "shares_ok s \<longleftrightarrow> books_balance s \<and> registry_ok s \<and> totals_ok s"

lemmas provider_sums = staked_on_def stakers_on_def unclaimed_on_def

lemma shares_okD:
  assumes "shares_ok s"
  shows "books_balance s" "registry_ok s" "totals_ok s" "finite (dom (RegisteredProviders s))"
  using assms by (auto simp: shares_ok_def registry_ok_def)

lemma active_takes_part: "is_active_provider p s \<Longrightarrow> takes_part s p e"
  by (auto simp: is_active_provider_def takes_part_def split: option.splits)

lemma stake_sum_0:
  assumes "\<And>a p. sel (a, p) \<Longrightarrow> w (staker_info_of s a p) = 0"
  shows "stake_sum sel w s = 0"
  unfolding stake_sum_def msum_def
proof (rule sum.neutral, clarify)
  fix a p i
  assume "GeneralStakerInfo s (a, p) = Some i"
  with assms [of a p] show "(if sel (a, p) then w (the (GeneralStakerInfo s (a, p))) else 0) = 0"
    by (simp add: staker_info_of_def)
qed

lemma provider_sums_same:
  assumes "GeneralStakerInfo s' = GeneralStakerInfo s"
  shows "staked_on s' = staked_on s" "stakers_on s' = stakers_on s" "unclaimed_on s' = unclaimed_on s"
    "staker_info_of s' = staker_info_of s"
  by (auto simp: provider_sums stake_sum_same [OF assms] staker_info_of_def assms fun_eq_iff)

lemma unregistered_sums:
  assumes "registry_ok s" "RegisteredProviders s p = None"
  shows "staked_on s p = 0" "stakers_on s p = 0" "unclaimed_on s p e = 0"
  unfolding provider_sums using assms
  by (auto simp: registry_ok_def intro!: stake_sum_0)

lemma registry_same:
  assumes "registry_ok s" "RegisteredProviders s' = RegisteredProviders s"
    and "CurrentEra s' = CurrentEra s"
    and "\<And>p a. RegisteredProviders s p = None \<Longrightarrow> staker_info_of s' a p = staker_info_of s a p"
    and "\<And>p e. RegisteredProviders s p = None \<or> CurrentEra s < e \<Longrightarrow>
      ProviderEraStake s' (p, e) = ProviderEraStake s (p, e)"
  shows "registry_ok s'"
  using assms unfolding registry_ok_def by simp

lemma is_active_registered: "is_active_provider p s \<Longrightarrow> RegisteredProviders s p \<noteq> None"
  by (auto simp: is_active_provider_def split: option.splits)

text \<open>
  The shape of \<^verbatim>\<open>stake\<close> and \<^verbatim>\<open>unstake\<close>: one history changes from the current era on, and the totals of
  the provider follow it.
\<close>

lemma shares_change:
  assumes inv: "shares_ok s" and books: "books_balance s'"
    and G: "GeneralStakerInfo s' = upd_default StakerInfo_default (GeneralStakerInfo s) (a, p) i"
    and R: "RegisteredProviders s' = RegisteredProviders s" and C: "CurrentEra s' = CurrentEra s"
    and E: "ProviderEraStake s' = (ProviderEraStake s)((p, CurrentEra s) \<mapsto> t)"
    and act: "is_active_provider p s"
    and i: "settled i (CurrentEra s)" "\<And>e. e < CurrentEra s \<Longrightarrow> staked_at i e = staked_at (staker_info_of s a p) e"
    and total: "unat (psi_total t) + unat (latest_staked_value (staker_info_of s a p)) =
      unat (psi_total (provider_stake s p (CurrentEra s))) + unat (latest_staked_value i)"
    and number: "unat (psi_number_of_stakers t) +
        of_bool (latest_staked_value (staker_info_of s a p) \<noteq> 0) =
      unat (psi_number_of_stakers (provider_stake s p (CurrentEra s))) +
        of_bool (latest_staked_value i \<noteq> 0)"
  shows "shares_ok s'"
proof -
  note D = shares_okD [OF inv]
  note B = books_balanceD [OF D(1)]
  have reg: "registry_ok s'"
    using is_active_registered [OF act]
    by (intro registry_same [OF D(2) R C]) (auto simp: staker_info_of_upd_default [OF G] E)
  have same: "provider_stake s' q e = (if q = p \<and> e = CurrentEra s then t else provider_stake s q e)" for q e
    by (simp add: provider_stake_def E)
  have act': "is_active_provider q s' = is_active_provider q s" "takes_part s' q = takes_part s q" for q
    by (simp_all add: is_active_provider_def takes_part_def R fun_eq_iff)
  have old_settled: "staked_at (staker_info_of s a p) (CurrentEra s) =
      latest_staked_value (staker_info_of s a p)"
    using latest_settled [OF B(4)] by simp
  note upd = stake_sum_update [OF G B(2)]
  have totals: "unat (psi_total (provider_stake s' q (CurrentEra s))) = staked_on s' q \<and>
      unat (psi_number_of_stakers (provider_stake s' q (CurrentEra s))) = stakers_on s' q"
    if "is_active_provider q s" for q
    using D(3) that total number
      upd [of "\<lambda>i. unat (latest_staked_value i)" "\<lambda>k. snd k = q"]
      upd [of "\<lambda>i. of_bool (latest_staked_value i \<noteq> 0)" "\<lambda>k. snd k = q"]
    by (cases "q = p") (auto simp: totals_ok_def provider_sums same)
  have "unclaimed_on s' q e \<le> unat (psi_total (provider_stake s' q e))"
    if e: "e \<le> CurrentEra s" "takes_part s q e" for q e
  proof -
    have le: "unclaimed_on s q e \<le> unat (psi_total (provider_stake s q e))"
      using D(3) e by (simp add: totals_ok_def)
    have new: "staked_at i (CurrentEra s) = latest_staked_value i"
      using latest_settled [OF i(1)] by simp
    show ?thesis
      using le upd [of "\<lambda>i. unat (staked_at i e)" "\<lambda>k. snd k = q"] total old_settled new i(2) [of e] e(1)
      by (cases "q = p"; cases "e = CurrentEra s") (auto simp: provider_sums same order_le_less)
  qed
  with totals have "totals_ok s'" by (simp add: totals_ok_def act' C)
  with books reg show ?thesis by (simp add: shares_ok_def)
qed

text \<open>The shape of the claims and withdrawals: a history loses eras and no total changes.\<close>

lemma shares_shrink:
  assumes inv: "shares_ok s" and books: "books_balance s'"
    and G: "GeneralStakerInfo s' = upd_default StakerInfo_default (GeneralStakerInfo s) (a, p) i"
    and R: "RegisteredProviders s' = RegisteredProviders s" and C: "CurrentEra s' = CurrentEra s"
    and E: "ProviderEraStake s' = ProviderEraStake s"
    and p: "RegisteredProviders s p \<noteq> None"
    and less: "\<And>e. staked_at i e \<le> staked_at (staker_info_of s a p) e"
    and latest: "is_active_provider p s \<Longrightarrow> latest_staked_value i = latest_staked_value (staker_info_of s a p)"
  shows "shares_ok s'"
proof -
  note D = shares_okD [OF inv]
  note B = books_balanceD [OF D(1)]
  have reg: "registry_ok s'"
    using p by (intro registry_same [OF D(2) R C]) (auto simp: staker_info_of_upd_default [OF G] E)
  have same: "provider_stake s' = provider_stake s"
    by (simp add: provider_stake_def E fun_eq_iff)
  have act': "is_active_provider q s' = is_active_provider q s" "takes_part s' q = takes_part s q" for q
    by (simp_all add: is_active_provider_def takes_part_def R fun_eq_iff)
  note upd = stake_sum_update [OF G B(2)]
  have "staked_on s' q = staked_on s q" "stakers_on s' q = stakers_on s q" if "is_active_provider q s" for q
    using that latest upd [of "\<lambda>i. unat (latest_staked_value i)" "\<lambda>k. snd k = q"]
      upd [of "\<lambda>i. of_bool (latest_staked_value i \<noteq> 0)" "\<lambda>k. snd k = q"]
    by (cases "q = p"; simp add: provider_sums)+
  moreover have "unclaimed_on s' q e \<le> unclaimed_on s q e" for q e
    using upd [of "\<lambda>i. unat (staked_at i e)" "\<lambda>k. snd k = q"] less [of e]
    by (cases "q = p") (auto simp: provider_sums word_le_nat_alt)
  ultimately have "totals_ok s'"
    using D(3) order_trans unfolding totals_ok_def act' C same by (metis (no_types, lifting))
  with books reg show ?thesis by (simp add: shares_ok_def)
qed

section \<open>Every call keeps the totals\<close>

lemma stake_shares:
  assumes "stake T origin p v s = (Inr (), s')" "shares_ok s"
  shows "shares_ok s'"
  using assms(1)
proof (rule stake_okE)
  fix a w i new_locked new_total
  let ?old = "staker_info_of s a p"
  let ?ps = "provider_stake s p (CurrentEra s)"
  let ?t = "(if latest_staked_value ?old = 0
            then ?ps\<lparr>psi_number_of_stakers := saturating_add (psi_number_of_stakers ?ps) 1\<rparr>
            else ?ps)\<lparr>psi_total := new_total\<rparr>"
  assume act: "is_active_provider p s" and w: "0 < w"
    and room: "latest_staked_value ?old \<noteq> 0 \<or> psi_number_of_stakers ?ps < MaxNumberOfStakersPerProvider T"
    and i: "StakerInfo_stake ?old (CurrentEra s) w = Inr i"
    and nl: "unat new_locked = unat (locked (ledger s a)) + unat w"
    and nt: "unat new_total = unat (psi_total ?ps) + unat w"
    and s': "s' = deposit_event (Stake a p w)
       ((update_staker_info a p i
         (update_ledger T a ((ledger s a)\<lparr>locked := new_locked\<rparr>)
          (mutate_era_info (CurrentEra s)
             (\<lambda>x. x\<lparr>ei_staked := saturating_add (ei_staked x) w,
                     ei_locked := saturating_add (ei_locked x) w\<rparr>) s)))
        \<lparr>ProviderEraStake := (ProviderEraStake s)((p, CurrentEra s) \<mapsto> ?t)\<rparr>)"
  note D = shares_okD [OF assms(2)]
  note B = books_balanceD [OF D(1)]
  have latest: "unat (latest_staked_value i) = unat (latest_staked_value ?old) + unat w"
    using staker_info.latest_stake [OF B(3) i] staked_fits [OF D(1) nl] by simp
  then have "latest_staked_value i \<noteq> 0" using w by (auto simp: word_nat)
  moreover have "unat (saturating_add (psi_number_of_stakers ?ps) 1) = unat (psi_number_of_stakers ?ps) + 1"
    if "latest_staked_value ?old = 0"
    using room that saturating_succ_le_iff(4) unat_plus_one by metis
  ultimately have "unat (psi_number_of_stakers ?t) + of_bool (latest_staked_value ?old \<noteq> 0) =
      unat (psi_number_of_stakers ?ps) + of_bool (latest_staked_value i \<noteq> 0)"
    by simp
  then show ?thesis
    by (intro shares_change [OF assms(2) stake_books [OF assms(1) D(1)], of a p i ?t])
      (use act nt latest StakerInfo_stake_ok(2,3) [OF B(3) i] in \<open>auto simp: s' dest: leD\<close>)
qed

text \<open>A single stake on an active provider is part of its total.\<close>

lemma stake_le_total:
  assumes "shares_ok s" "is_active_provider p s"
  shows "unat (latest_staked_value (staker_info_of s a p)) \<le> unat (psi_total (provider_stake s p (CurrentEra s)))"
proof -
  note D = shares_okD [OF assms(1)]
  show ?thesis
    using D(3) assms(2) stake_sum_entry [OF books_balanceD(2) [OF D(1)],
        of "\<lambda>i. unat (latest_staked_value i)" "\<lambda>k. snd k = p" a p]
    by (simp add: totals_ok_def provider_sums)
qed

lemma unstake_shares:
  assumes "unstake T origin p v s = (Inr (), s')" "0 < MinimumStakingAmount T" "shares_ok s"
  shows "shares_ok s'"
  using assms(1)
proof (rule unstake_okE)
  fix a w i whole
  let ?old = "staker_info_of s a p"
  let ?ps = "provider_stake s p (CurrentEra s)"
  let ?l = "(ledger s a)\<lparr>unbonding := UnbondingInfo_add (unbonding (ledger s a))
     \<lparr>chunk_amount = w, unlock_era = CurrentEra s + UnbondingPeriod T\<rparr>\<rparr>"
  let ?t = "(if whole
            then ?ps\<lparr>psi_number_of_stakers := saturating_sub (psi_number_of_stakers ?ps) 1\<rparr>
            else ?ps)\<lparr>psi_total := saturating_sub (psi_total ?ps) w\<rparr>"
  assume act: "is_active_provider p s" and staked: "0 < latest_staked_value ?old"
    and whole: "whole \<longleftrightarrow> saturating_sub (latest_staked_value ?old) v < MinimumStakingAmount T"
    and w: "w = (if whole then latest_staked_value ?old else v)"
    and i: "StakerInfo_unstake ?old (CurrentEra s) w = Inr i"
    and s': "s' = deposit_event (Unstake a p w)
       ((update_staker_info a p i
         (mutate_era_info (CurrentEra s) (\<lambda>x. x\<lparr>ei_staked := saturating_sub (ei_staked x) w\<rparr>)
          (update_ledger T a ?l s)))
        \<lparr>ProviderEraStake := (ProviderEraStake s)((p, CurrentEra s) \<mapsto> ?t)\<rparr>)"
  note D = shares_okD [OF assms(3)]
  note B = books_balanceD [OF D(1)]
  have le: "unat w \<le> unat (latest_staked_value ?old)"
    using unstake_amount_le [OF assms(2) whole w] .
  have latest: "unat (latest_staked_value i) = unat (latest_staked_value ?old) - unat w"
    using staker_info.latest_unstake [OF B(3) i] by (simp add: unat_saturating_sub)
  have t: "unat (latest_staked_value ?old) \<le> unat (psi_total ?ps)" "1 \<le> unat (psi_number_of_stakers ?ps)"
    using stake_le_total [OF assms(3) act, of a] D(3) act word_gt_0 [THEN iffD1, OF staked]
      stake_sum_entry [OF B(2), of "\<lambda>i. of_bool (latest_staked_value i \<noteq> 0)" "\<lambda>k. snd k = p" a p]
    by (auto simp: totals_ok_def provider_sums)
  have zero: "latest_staked_value i = 0 \<longleftrightarrow> whole"
    using assms(2) whole w latest by (auto simp: word_nat)
  have "unat (psi_number_of_stakers ?t) + of_bool (latest_staked_value ?old \<noteq> 0) =
      unat (psi_number_of_stakers ?ps) + of_bool (latest_staked_value i \<noteq> 0)"
    using t(2) staked by (auto simp: zero unat_saturating_sub)
  moreover have "unat (psi_total ?t) + unat (latest_staked_value ?old) =
      unat (psi_total ?ps) + unat (latest_staked_value i)"
    using t(1) le latest by (simp add: unat_saturating_sub)
  ultimately show ?thesis
    by (intro shares_change [OF assms(3) unstake_books [OF assms(1) D(1) assms(2)], of a p i ?t])
      (use act StakerInfo_unstake_ok(2,3) [OF B(3) i] in \<open>auto simp: s' dest: leD\<close>)
qed

lemma claim_staker_shares:
  assumes "claim_staker T origin p s = (Inr (), s')" "shares_ok s"
  shows "shares_ok s'"
  using assms(1)
proof (rule claim_staker_okE)
  fix a e v i info era_info reward imb c
  assume claim: "StakerInfo_claim (staker_info_of s a p) = ((e, v), i)" and v: "0 < v"
    and info: "RegisteredProviders s p = Some info" and e: "e < CurrentEra s"
    and s': "s' = deposit_event (Reward a p e reward)
       (update_staker_info a p i (s\<lparr>Balances := resolve_creating (Currency T) c a imb\<rparr>))"
  note D = shares_okD [OF assms(2)]
  note B = books_balanceD [OF D(1)]
  have v': "v \<noteq> 0" using v by auto
  show ?thesis
    by (rule shares_shrink [OF assms(2) claim_staker_books [OF assms(1) D(1)], of a p i])
      (use StakerInfo_claim_ok(5) [OF B(3,4) claim e v'] staker_info.latest_claim [OF B(3,4) claim e v']
         info in \<open>auto simp: s'\<close>)
qed

lemma withdraw_from_unregistered_staker_shares:
  assumes "withdraw_from_unregistered_staker T origin p s = (Inr (), s')" "shares_ok s"
  shows "shares_ok s'"
  using assms(1)
proof (rule withdraw_from_unregistered_staker_okE)
  fix a info u w
  assume info: "RegisteredProviders s p = Some info" "pi_state info = Unregistered u"
    and s': "s' = deposit_event (WithdrawFromUnregistered a p w)
       (mutate_era_info (CurrentEra s)
          (\<lambda>x. x\<lparr>ei_staked := saturating_sub (ei_staked x) w,
                  ei_locked := saturating_sub (ei_locked x) w\<rparr>)
          (update_staker_info a p StakerInfo_default
            (update_ledger T a ((ledger s a)\<lparr>locked := saturating_sub (locked (ledger s a)) w\<rparr>) s)))"
  note D = shares_okD [OF assms(2)]
  show ?thesis
    by (rule shares_shrink [OF assms(2) withdraw_from_unregistered_staker_books [OF assms(1) D(1)],
          of a p StakerInfo_default])
      (use info in \<open>simp_all add: s' is_active_provider_def\<close>)
qed

text \<open>What neither changes a history nor a total keeps the invariant.\<close>

lemma shares_same:
  assumes "shares_ok s" "GeneralStakerInfo s' = GeneralStakerInfo s" "Ledger s' = Ledger s"
    and "CurrentEra s' = CurrentEra s" "RegisteredProviders s' = RegisteredProviders s"
    and "\<And>p e. psi_total (provider_stake s' p e) = psi_total (provider_stake s p e)"
    and "\<And>p. psi_number_of_stakers (provider_stake s' p (CurrentEra s)) =
        psi_number_of_stakers (provider_stake s p (CurrentEra s))"
    and "\<And>p e. RegisteredProviders s p = None \<or> CurrentEra s < e \<Longrightarrow>
      ProviderEraStake s' (p, e) = ProviderEraStake s (p, e)"
  shows "shares_ok s'"
proof -
  note D = shares_okD [OF assms(1)]
  note sums = provider_sums_same [OF assms(2)]
  have "books_balance s'" by (rule books_same [OF D(1) assms(2,3,4)])
  moreover have "registry_ok s'"
    using assms(8) by (intro registry_same [OF D(2) assms(5,4)]) (simp_all add: sums)
  moreover have "totals_ok s'"
    using D(3)
    by (simp add: totals_ok_def sums assms(4,6,7) is_active_provider_def takes_part_def assms(5))
  ultimately show ?thesis by (simp add: shares_ok_def)
qed

lemma withdraw_unstaked_shares:
  assumes "withdraw_unstaked T origin s = (Inr (), s')" "shares_ok s"
  shows "shares_ok s'"
proof -
  note D = shares_okD [OF assms(2)]
  have same: "GeneralStakerInfo s' = GeneralStakerInfo s" "CurrentEra s' = CurrentEra s"
    "RegisteredProviders s' = RegisteredProviders s" "ProviderEraStake s' = ProviderEraStake s"
    using assms(1) by (auto elim!: withdraw_unstaked_okE)
  note sums = provider_sums_same [OF same(1)]
  have "registry_ok s'" using D(2) by (rule registry_same) (simp_all add: same sums)
  moreover have "totals_ok s'"
    using D(3)
    by (simp add: totals_ok_def sums same is_active_provider_def takes_part_def provider_stake_def)
  ultimately show ?thesis
    using withdraw_unstaked_books [OF assms(1) D(1)] by (simp add: shares_ok_def)
qed

lemma claim_operator_shares:
  assumes "claim_operator T origin p e s = (Inr (), s')" "shares_ok s"
  shows "shares_ok s'"
  using assms(1)
proof (rule claim_operator_okE)
  fix info reward imb c
  assume info: "RegisteredProviders s p = Some info" and e: "e < CurrentEra s"
    and s': "s' = deposit_event (Reward (pi_operator info) p e reward)
       (s\<lparr>Balances := resolve_creating (Currency T) c (pi_operator info) imb,
          ProviderEraStake := (ProviderEraStake s)((p, e) \<mapsto>
            (provider_stake s p e)\<lparr>psi_reward_claimed := True\<rparr>)\<rparr>)"
  have ps: "provider_stake s' q d =
      (if (q, d) = (p, e) then (provider_stake s p e)\<lparr>psi_reward_claimed := True\<rparr>
       else provider_stake s q d)" for q d
    by (simp add: s' provider_stake_def)
  have others: "ProviderEraStake s' (q, d) = ProviderEraStake s (q, d)"
    if "RegisteredProviders s q = None \<or> CurrentEra s < d" for q d
  proof -
    have "\<not> CurrentEra s < e" using e by (simp add: not_less less_imp_le)
    then have "(q, d) \<noteq> (p, e)" using that info by auto
    then show ?thesis by (auto simp: s')
  qed
  have fields: "GeneralStakerInfo s' = GeneralStakerInfo s" "Ledger s' = Ledger s"
    "CurrentEra s' = CurrentEra s" "RegisteredProviders s' = RegisteredProviders s"
    by (simp_all add: s')
  have total: "psi_total (provider_stake s' q d) = psi_total (provider_stake s q d)"
    and number: "psi_number_of_stakers (provider_stake s' q d) =
      psi_number_of_stakers (provider_stake s q d)" for q d
    unfolding ps by simp_all
  show ?thesis
    using assms(2) fields total number others by (rule shares_same)
qed

text \<open>Changes of the register alone: entering, leaving, and returning the deposit.\<close>

lemma shares_register:
  assumes inv: "shares_ok s"
    and s': "s' = s\<lparr>Balances := c, RegisteredProviders := (RegisteredProviders s)(p \<mapsto> info),
        Events := evs\<rparr>"
    and active: "pi_state info = Registered \<Longrightarrow> RegisteredProviders s p = None \<or> is_active_provider p s"
    and left: "\<And>u. pi_state info = Unregistered u \<Longrightarrow> u \<le> CurrentEra s \<and>
      RegisteredProviders s p \<noteq> None \<and> (\<forall>e. e \<le> u \<longrightarrow> takes_part s p e)"
  shows "shares_ok s'"
proof -
  note D = shares_okD [OF inv]
  have "books_balance s'" by (rule books_same [OF D(1)]) (simp_all add: s')
  moreover have "registry_ok s'"
    using D(2) left by (auto simp: registry_ok_def s' staker_info_of_def)
  moreover have sums: "staked_on s' = staked_on s" "stakers_on s' = stakers_on s"
    "unclaimed_on s' = unclaimed_on s" "provider_stake s' = provider_stake s" "CurrentEra s' = CurrentEra s"
    using provider_sums_same [of s' s] by (auto simp: s' provider_stake_def fun_eq_iff)
  have none: "provider_stake s p e = ProviderStakeInfo_default" if "RegisteredProviders s p = None" for e
    using D(2) that by (simp add: registry_ok_def provider_stake_def)
  have "unat (psi_total (provider_stake s q (CurrentEra s))) = staked_on s q \<and>
      unat (psi_number_of_stakers (provider_stake s q (CurrentEra s))) = stakers_on s q"
    if "is_active_provider q s'" for q
  proof (cases "RegisteredProviders s q = None")
    case True
    then have "q = p" using that by (auto simp: is_active_provider_def s' split: if_splits)
    with True none [of "CurrentEra s"] unregistered_sums [OF D(2) True] show ?thesis
      by (simp add: ProviderStakeInfo_default_def)
  next
    case False
    then have "is_active_provider q s"
      using that active by (auto simp: is_active_provider_def s' split: if_splits)
    with D(3) show ?thesis by (simp add: totals_ok_def)
  qed
  moreover have "unclaimed_on s q e \<le> unat (psi_total (provider_stake s q e))"
    if "e \<le> CurrentEra s" "takes_part s' q e" for q e
  proof (cases "takes_part s q e")
    case True
    with D(3) that show ?thesis by (simp add: totals_ok_def)
  next
    case False
    have "q = p" using that(2) False by (auto simp: takes_part_def s' split: if_splits)
    moreover have "RegisteredProviders s p = None"
      using that(2) False active left active_takes_part [of p s e] \<open>q = p\<close>
      by (cases "pi_state info") (auto simp: takes_part_def s')
    ultimately show ?thesis using unregistered_sums(3) [OF D(2)] by simp
  qed
  ultimately show ?thesis by (simp add: shares_ok_def totals_ok_def sums)
qed

lemma register_shares:
  "RegisteredProviders s p = None \<Longrightarrow> shares_ok s \<Longrightarrow> shares_ok (enrol c a p s)"
  "unregister p s = (Inr (), s') \<Longrightarrow> shares_ok s \<Longrightarrow> shares_ok s'"
  "withdraw_from_unregistered_operator T origin p s = (Inr (), s') \<Longrightarrow> shares_ok s \<Longrightarrow> shares_ok s'"
proof -
  show "RegisteredProviders s p = None \<Longrightarrow> shares_ok s \<Longrightarrow> shares_ok (enrol c a p s)"
    by (erule shares_register [where c = c and p = p and info = "ProviderInfo_new a" and evs = "Events s"])
      (simp_all add: enrol_def ProviderInfo_new_def)
  show "shares_ok s'" if un: "unregister p s = (Inr (), s')" and inv: "shares_ok s"
    using un
  proof (rule unregister_okE)
    fix info
    assume info: "RegisteredProviders s p = Some info" "pi_state info = Registered"
      and s': "s' = s\<lparr>RegisteredProviders := (RegisteredProviders s)
         (p \<mapsto> info\<lparr>pi_state := Unregistered (CurrentEra s)\<rparr>)\<rparr>"
    show "shares_ok s'"
      by (rule shares_register [OF inv, where c = "Balances s" and p = p and evs = "Events s"
            and info = "info\<lparr>pi_state := Unregistered (CurrentEra s)\<rparr>"])
        (use info in \<open>simp_all add: s' takes_part_def\<close>)
  qed
  show "shares_ok s'" if wd: "withdraw_from_unregistered_operator T origin p s = (Inr (), s')"
    and inv: "shares_ok s"
    using wd
  proof (rule withdraw_from_unregistered_operator_okE)
    fix info u
    assume info: "RegisteredProviders s p = Some info" "pi_state info = Unregistered u"
      and s': "s' = deposit_event (WithdrawFromUnregistered (pi_operator info) p (RegisterDeposit T))
       (s\<lparr>RegisteredProviders := (RegisteredProviders s)(p \<mapsto> info\<lparr>pi_unreserved := True\<rparr>),
          Balances := unreserve (Currency T) (Balances s) (pi_operator info) (RegisterDeposit T)\<rparr>)"
    have u: "u \<le> CurrentEra s"
      using shares_okD(2) [OF inv] info unfolding registry_ok_def by blast
    show "shares_ok s'"
      by (rule shares_register [OF inv, where p = p and info = "info\<lparr>pi_unreserved := True\<rparr>"
            and c = "Balances s'" and evs = "Events s'"])
        (use info u in \<open>simp_all add: s' deposit_event_def takes_part_def\<close>)
  qed
qed

lemma unclaimed_next:
  assumes "books_balance s" "CurrentEra s < - 1"
  shows "unclaimed_on s p (CurrentEra s + 1) = unclaimed_on s p (CurrentEra s)"
  unfolding unclaimed_on_def stake_sum_def
proof (rule msum_cong)
  fix k i
  assume k: "GeneralStakerInfo s k = Some i"
  then have "settled i (CurrentEra s)"
    using books_balanceD(4) [OF assms(1), of "fst k" "snd k"] by (simp add: staker_info_of_def)
  then show "(if snd k = p then unat (staked_at i (CurrentEra s + 1)) else 0) =
      (if snd k = p then unat (staked_at i (CurrentEra s)) else 0)"
    using next_era_later [OF assms(2)] by (simp add: latest_settled)
qed

lemma takes_part_next:
  assumes "registry_ok s" "CurrentEra s < - 1" "takes_part s p (CurrentEra s + 1)"
  shows "is_active_provider p s"
proof -
  have "\<not> CurrentEra s + 1 \<le> u" if "u \<le> CurrentEra s" for u
    using le_less_trans [OF that next_era_later [OF assms(2)]] by (simp add: not_le)
  then show ?thesis
    using assms(1,3) unfolding takes_part_def is_active_provider_def registry_ok_def
    by (auto split: option.splits provider_state.splits)
qed

lemma new_era_shares:
  assumes on: "on_initialize T now s = Some (w, s')" "era_ends T now s" "CurrentEra s < - 1"
    and inv: "shares_ok s" and iter: "iter_laws (iter_providers T)"
  shows "shares_ok s'"
proof -
  note f = on_initialize_new_era [OF on(1,2)]
  note D = shares_okD [OF inv]
  note B = books_balanceD [OF D(1)]
  note E = on_initialize_stakes [OF on(1,2) iter D(4)]
  have less: "CurrentEra s < CurrentEra s + 1" using next_era_later [OF on(3)] .
  have split: "e \<le> CurrentEra s \<or> e = CurrentEra s + 1" if "e \<le> CurrentEra s + 1" for e
    using that saturating_succ_le_iff(2) [OF on(3), of e] by (auto simp: not_less [symmetric] order_le_less)
  note sums = provider_sums_same [OF f(6)]
  have act: "is_active_provider p s' = is_active_provider p s" "takes_part s' p = takes_part s p" for p
    by (simp_all add: is_active_provider_def takes_part_def f(5) fun_eq_iff)
  have future: "ProviderEraStake s (p, e) = None" if "CurrentEra s < e" for p e
    using D(2) that by (simp add: registry_ok_def)
  have bound: "u \<le> CurrentEra s + 1" if "u \<le> CurrentEra s" for u
    using order_trans [OF that less_imp_le [OF less]] .
  have reg: "registry_ok s'"
    using D(2) less
    by (auto simp: registry_ok_def f sums E is_active_provider_def bound split: option.splits
        intro: less_trans)
  have old: "provider_stake s' p e = provider_stake s p e" if "e \<noteq> CurrentEra s + 1" for p e
    using that by (simp add: provider_stake_def E)
  have new: "psi_total (provider_stake s' p (CurrentEra s + 1)) = psi_total (provider_stake s p (CurrentEra s))"
    "psi_number_of_stakers (provider_stake s' p (CurrentEra s + 1)) =
       psi_number_of_stakers (provider_stake s p (CurrentEra s))"
    if "is_active_provider p s" for p
    using that future [OF less] by (auto simp: provider_stake_def E split: option.splits)
  have "unclaimed_on s p e \<le> unat (psi_total (provider_stake s' p e))"
    if e: "e \<le> CurrentEra s + 1" "takes_part s p e" for p e
    using split [OF e(1)]
  proof
    assume "e \<le> CurrentEra s"
    then show ?thesis using D(3) e(2) less old by (auto simp: totals_ok_def)
  next
    assume e': "e = CurrentEra s + 1"
    note act = takes_part_next [OF D(2) on(3) e(2) [unfolded e']]
    have "unclaimed_on s p (CurrentEra s) \<le> unat (psi_total (provider_stake s p (CurrentEra s)))"
      using D(3) active_takes_part [OF act] by (simp add: totals_ok_def)
    then show ?thesis by (simp add: e' unclaimed_next [OF D(1) on(3)] new(1) [OF act])
  qed
  then have "totals_ok s'"
    using D(3) new by (simp add: totals_ok_def f(2) act sums)
  with new_era_books [OF on D(1)] reg show ?thesis by (simp add: shares_ok_def)
qed

lemma other_shares:
  "shares_ok s \<Longrightarrow> shares_ok (s\<lparr>Balances := c\<rparr>)"
  "shares_ok s \<Longrightarrow> shares_ok (s\<lparr>ForceEra := f\<rparr>)"
  "shares_ok s \<Longrightarrow> shares_ok (s\<lparr>BlockRewardAccumulator := acc\<rparr>)"
  by (erule shares_same; simp add: provider_stake_def)+

lemma staking_step_shares:
  assumes "staking_step T s s'" "0 < MinimumStakingAmount T" "iter_laws (iter_providers T)"
    and "shares_ok s"
  shows "shares_ok s'"
  by (rule staking_step_rel [where P = shares_ok and Q = shares_ok, OF assms(1,4)])
    (assumption | rule other_shares stake_shares unstake_shares [OF _ assms(2)] withdraw_unstaked_shares
      claim_staker_shares claim_operator_shares withdraw_from_unregistered_staker_shares
      register_shares new_era_shares [OF _ _ _ _ assms(3)];
     assumption)+

lemma genesis_shares: "shares_ok (genesis c)"
  unfolding shares_ok_def
proof (intro conjI genesis_books)
  show "registry_ok (genesis c)" "totals_ok (genesis c)"
    by (simp_all add: registry_ok_def totals_ok_def genesis_def staker_info_of_def
        is_active_provider_def takes_part_def)
qed

text \<open>What the results about runs need to know of the configuration.\<close>

definition staking_laws :: "('o, 'a, 'p, 'c, 'i, 'b, 'e) staking_config \<Rightarrow> bool" where
  "staking_laws T \<longleftrightarrow> 0 < MinimumStakingAmount T \<and> iter_laws (iter_providers T)"

interpretation staking_runs: invariant_system "staking_step T" "\<lambda>s. staking_laws T \<longrightarrow> shares_ok s" for T
  by unfold_locales (simp add: staking_laws_def staking_step_shares)

lemma staking_run_shares:
  "(staking_step T)\<^sup>*\<^sup>* s t \<Longrightarrow> staking_laws T \<Longrightarrow> shares_ok s \<Longrightarrow> shares_ok t"
  using staking_runs.run_invar by blast

end
