(* ===== verification/Dapi.thy ===== *)
theory Dapi
  imports Frame
begin

text \<open>
  The dApi pallet, \<^verbatim>\<open>pallets/dapi/src/lib.rs\<close> and \<^verbatim>\<open>pallets/dapi/src/types.rs\<close>: projects with a paid
  quota, providers with a life cycle, the regulators and the known chain ids. The pallet reaches the
  rest of the runtime through its configuration only; \<open>'w\<close> is the state of that rest, which the
  currency and the staking pallet change. The interface \<open>dapi_staking\<close> at the end is the trait
  \<^verbatim>\<open>DapiStaking\<close> with the laws the pallet relies on.
\<close>

section \<open>Types\<close>

type_synonym chain_id = "u8 list"

record 'a project =
  prj_consumer :: 'a
  prj_chain_id :: chain_id
  prj_quota :: u128
  prj_usage :: u128

datatype provider_type = Gateway | Node

datatype dapi_provider_state = DRegistered | DActive | DInActive

record 'a provider =
  prv_provider_type :: provider_type
  prv_operator :: 'a
  prv_chain_id :: chain_id
  prv_state :: dapi_provider_state

text \<open>\<^verbatim>\<open>BadPerformance\<close> carries the requests, the success rate and the average latency.\<close>

datatype provider_deactivate_reason =
    BadPerformance u64 u32 u32
  | OutOfSync
  | UnRegistered

datatype dapi_error =
    AlreadyExist
  | InactiveProvider
  | BadChainId
  | NotExist
  | NotOwner
  | PermissionDenied
  | InvalidProviderState

datatype ('a, 'p) dapi_event =
    ProjectRegistered 'p 'a chain_id u128
  | ProjectDeposited 'p u128
  | ProjectReachedQuota 'p
  | ProviderRegistered 'p provider_type 'a chain_id
  | ProviderActivated 'p provider_type
  | ProviderDeactivated 'p provider_type provider_deactivate_reason
  | ChainIdAdded chain_id
  | ChainIdRemoved chain_id
  | RegulatorAdded 'a
  | RegulatorRemoved 'a

text \<open>
  The configuration: the origin checks and the currency of the framework, the two functions of the
  trait \<^verbatim>\<open>DapiStaking\<close>, the handler of project payments, and the conversion of a byte vector into a
  \<^verbatim>\<open>BoundedVec<u8, ChainIdMaxLength>\<close>, whose \<^verbatim>\<open>try_into\<close> is the framework's. \<open>'x\<close> is the error the
  rest of the runtime hands to the pallet.
\<close>

record ('o, 'a, 'p, 'w, 'i, 'x) dapi_config =
  DapiSystem :: "('o, 'a) origin_ops"
  DapiCurrency :: "('a, 'w, 'i, 'x) currency_ops"
  staking_register :: "'a \<Rightarrow> 'p \<Rightarrow> balance \<Rightarrow> 'w \<Rightarrow> ('x + unit) \<times> 'w"
  staking_unregister :: "'p \<Rightarrow> 'w \<Rightarrow> ('x + unit) \<times> 'w"
  OnProjectPayment :: "'i \<Rightarrow> 'w \<Rightarrow> 'w"
  bounded_try_into :: "u8 list \<Rightarrow> chain_id option"

text \<open>The storage of the pallet, the rest of the runtime and the events deposited.\<close>

record ('a, 'p, 'w) dapi =
  Projects :: "'p \<rightharpoonup> 'a project"
  Providers :: "'p \<rightharpoonup> 'a provider"
  Regulators :: "'a set"
  ChainIds :: "chain_id set"
  World :: 'w
  DapiEvents :: "('a, 'p) dapi_event list"

type_synonym ('a, 'p, 'w, 'x) dapi_outcome =
  "(('a, 'p, 'w) dapi, (dapi_error, 'x) dispatch_error) outcome"

text \<open>\<^verbatim>\<open>GenesisConfig::build\<close>: the regulators of the chain specification, everything else empty.\<close>

definition dapi_genesis :: "'a list \<Rightarrow> 'w \<Rightarrow> ('a, 'p, 'w) dapi" where
  "dapi_genesis regulators w =
     \<lparr>Projects = Map.empty, Providers = Map.empty, Regulators = set regulators,
      ChainIds = {}, World = w, DapiEvents = []\<rparr>"

definition dapi_deposit_event :: "('a, 'p) dapi_event \<Rightarrow> ('a, 'p, 'w) dapi \<Rightarrow> ('a, 'p, 'w) dapi" where
  "dapi_deposit_event ev d = d\<lparr>DapiEvents := DapiEvents d @ [ev]\<rparr>"

definition calculate_quota :: "balance \<Rightarrow> u128" where
  "calculate_quota amount = amount div 1000000000000000"

section \<open>Projects\<close>

definition register_project ::
    "('o, 'a, 'p, 'w, 'i, 'x) dapi_config \<Rightarrow> 'o \<Rightarrow> 'p \<Rightarrow> u8 list \<Rightarrow> balance \<Rightarrow> ('a, 'p, 'w) dapi \<Rightarrow>
     ('a, 'p, 'w, 'x) dapi_outcome" where
  "register_project D origin project_id chain deposit d =
     (case ensure_signed (DapiSystem D) origin of None \<Rightarrow> (Inl BadOrigin, d) | Some consumer \<Rightarrow>
      if Projects d project_id \<noteq> None then (Inl (Module AlreadyExist), d) else
      case bounded_try_into D chain of None \<Rightarrow> (Inl (Module BadChainId), d) | Some bounded_chain_id \<Rightarrow>
      if bounded_chain_id \<notin> ChainIds d then (Inl (Module NotExist), d) else
      case withdraw (DapiCurrency D) (World d) consumer deposit TRANSFER KeepAlive of
        (Inl e, w) \<Rightarrow> (Inl (External e), d\<lparr>World := w\<rparr>)
      | (Inr payment, w) \<Rightarrow>
      let d1 = d\<lparr>World := OnProjectPayment D payment w\<rparr>;
          quota = calculate_quota deposit;
          project = \<lparr>prj_consumer = consumer, prj_chain_id = bounded_chain_id,
                     prj_quota = quota, prj_usage = 0\<rparr>;
          d2 = d1\<lparr>Projects := (Projects d1)(project_id \<mapsto> project)\<rparr>
      in (Inr (), dapi_deposit_event (ProjectRegistered project_id consumer chain quota) d2))"

definition deposit_project ::
    "('o, 'a, 'p, 'w, 'i, 'x) dapi_config \<Rightarrow> 'o \<Rightarrow> 'p \<Rightarrow> balance \<Rightarrow> ('a, 'p, 'w) dapi \<Rightarrow>
     ('a, 'p, 'w, 'x) dapi_outcome" where
  "deposit_project D origin project_id deposit d =
     (case ensure_signed (DapiSystem D) origin of None \<Rightarrow> (Inl BadOrigin, d) | Some consumer \<Rightarrow>
      case Projects d project_id of None \<Rightarrow> (Inl (Module NotExist), d) | Some project \<Rightarrow>
      case withdraw (DapiCurrency D) (World d) consumer deposit TRANSFER KeepAlive of
        (Inl e, w) \<Rightarrow> (Inl (External e), d\<lparr>World := w\<rparr>)
      | (Inr payment, w) \<Rightarrow>
      let d1 = d\<lparr>World := OnProjectPayment D payment w\<rparr>;
          quota = saturating_add (prj_quota project) (calculate_quota deposit);
          d2 = d1\<lparr>Projects := (Projects d1)(project_id \<mapsto> project\<lparr>prj_quota := quota\<rparr>)\<rparr>
      in (Inr (), dapi_deposit_event (ProjectDeposited project_id quota) d2))"

definition submit_project_usage ::
    "('o, 'a, 'p, 'w, 'i, 'x) dapi_config \<Rightarrow> 'o \<Rightarrow> 'p \<Rightarrow> u128 \<Rightarrow> ('a, 'p, 'w) dapi \<Rightarrow>
     ('a, 'p, 'w, 'x) dapi_outcome" where
  "submit_project_usage D origin project_id usage d =
     (case ensure_signed (DapiSystem D) origin of None \<Rightarrow> (Inl BadOrigin, d) | Some regulator \<Rightarrow>
      if regulator \<notin> Regulators d then (Inl (Module PermissionDenied), d) else
      case Projects d project_id of None \<Rightarrow> (Inl (Module NotExist), d) | Some project \<Rightarrow>
      let project1 = project\<lparr>prj_usage :=
            min (saturating_add (prj_usage project) usage) (prj_quota project)\<rparr>;
          d1 = (if prj_usage project1 = prj_quota project1
                then dapi_deposit_event (ProjectReachedQuota project_id) d else d)
      in (Inr (), d1\<lparr>Projects := (Projects d1)(project_id \<mapsto> project1)\<rparr>))"

section \<open>Providers\<close>

definition register_provider ::
    "('o, 'a, 'p, 'w, 'i, 'x) dapi_config \<Rightarrow> 'o \<Rightarrow> 'p \<Rightarrow> provider_type \<Rightarrow> 'a \<Rightarrow> u8 list \<Rightarrow>
     ('a, 'p, 'w) dapi \<Rightarrow> ('a, 'p, 'w, 'x) dapi_outcome" where
  "register_provider D origin provider_id provider_type operator chain d =
     (case ensure_signed (DapiSystem D) origin of None \<Rightarrow> (Inl BadOrigin, d) | Some regulator \<Rightarrow>
      if regulator \<notin> Regulators d then (Inl (Module PermissionDenied), d) else
      if Providers d provider_id \<noteq> None then (Inl (Module AlreadyExist), d) else
      case bounded_try_into D chain of None \<Rightarrow> (Inl (Module BadChainId), d) | Some bounded_chain_id \<Rightarrow>
      if bounded_chain_id \<notin> ChainIds d then (Inl (Module NotExist), d) else
      let d1 = d\<lparr>Providers := (Providers d)(provider_id \<mapsto>
                 \<lparr>prv_provider_type = provider_type, prv_operator = operator,
                  prv_chain_id = bounded_chain_id, prv_state = DRegistered\<rparr>)\<rparr>
      in (Inr (), dapi_deposit_event
            (ProviderRegistered provider_id provider_type operator chain) d1))"

definition deposit_provider ::
    "('o, 'a, 'p, 'w, 'i, 'x) dapi_config \<Rightarrow> 'o \<Rightarrow> 'p \<Rightarrow> balance \<Rightarrow> ('a, 'p, 'w) dapi \<Rightarrow>
     ('a, 'p, 'w, 'x) dapi_outcome" where
  "deposit_provider D origin provider_id deposit d =
     (case ensure_signed (DapiSystem D) origin of None \<Rightarrow> (Inl BadOrigin, d) | Some operator \<Rightarrow>
      case Providers d provider_id of None \<Rightarrow> (Inl (Module NotExist), d) | Some provider \<Rightarrow>
      if prv_operator provider \<noteq> operator then (Inl (Module NotOwner), d) else
      if prv_state provider \<noteq> DRegistered then (Inl (Module InvalidProviderState), d) else
      case staking_register D operator provider_id deposit (World d) of
        (Inl e, w) \<Rightarrow> (Inl (External e), d\<lparr>World := w\<rparr>)
      | (Inr _, w) \<Rightarrow>
      let d1 = d\<lparr>World := w\<rparr>;
          provider1 = provider\<lparr>prv_state := DActive\<rparr>;
          d2 = d1\<lparr>Providers := (Providers d1)(provider_id \<mapsto> provider1)\<rparr>
      in (Inr (), dapi_deposit_event
            (ProviderActivated provider_id (prv_provider_type provider1)) d2))"

definition unregister_provider ::
    "('o, 'a, 'p, 'w, 'i, 'x) dapi_config \<Rightarrow> 'o \<Rightarrow> 'p \<Rightarrow> ('a, 'p, 'w) dapi \<Rightarrow>
     ('a, 'p, 'w, 'x) dapi_outcome" where
  "unregister_provider D origin provider_id d =
     (case ensure_signed (DapiSystem D) origin of None \<Rightarrow> (Inl BadOrigin, d) | Some account \<Rightarrow>
      case Providers d provider_id of None \<Rightarrow> (Inl (Module NotExist), d) | Some provider \<Rightarrow>
      if prv_operator provider \<noteq> account then (Inl (Module NotOwner), d) else
      if prv_state provider \<noteq> DActive then (Inl (Module InactiveProvider), d) else
      case staking_unregister D provider_id (World d) of
        (Inl e, w) \<Rightarrow> (Inl (External e), d\<lparr>World := w\<rparr>)
      | (Inr _, w) \<Rightarrow>
      let d1 = d\<lparr>World := w\<rparr>;
          provider1 = provider\<lparr>prv_state := DInActive\<rparr>;
          d2 = d1\<lparr>Providers := (Providers d1)(provider_id \<mapsto> provider1)\<rparr>
      in (Inr (), dapi_deposit_event
            (ProviderDeactivated provider_id (prv_provider_type provider1) UnRegistered) d2))"

definition report_provider_offence ::
    "('o, 'a, 'p, 'w, 'i, 'x) dapi_config \<Rightarrow> 'o \<Rightarrow> 'p \<Rightarrow> provider_deactivate_reason \<Rightarrow>
     ('a, 'p, 'w) dapi \<Rightarrow> ('a, 'p, 'w, 'x) dapi_outcome" where
  "report_provider_offence D origin provider_id reason d =
     (case ensure_signed (DapiSystem D) origin of None \<Rightarrow> (Inl BadOrigin, d) | Some regulator \<Rightarrow>
      if regulator \<notin> Regulators d then (Inl (Module PermissionDenied), d) else
      case Providers d provider_id of None \<Rightarrow> (Inl (Module NotExist), d) | Some provider \<Rightarrow>
      if prv_state provider \<noteq> DActive then (Inl (Module InvalidProviderState), d) else
      case staking_unregister D provider_id (World d) of
        (Inl e, w) \<Rightarrow> (Inl (External e), d\<lparr>World := w\<rparr>)
      | (Inr _, w) \<Rightarrow>
      let d1 = d\<lparr>World := w\<rparr>;
          provider1 = provider\<lparr>prv_state := DInActive\<rparr>;
          d2 = d1\<lparr>Providers := (Providers d1)(provider_id \<mapsto> provider1)\<rparr>
      in (Inr (), dapi_deposit_event
            (ProviderDeactivated provider_id (prv_provider_type provider1) reason) d2))"

section \<open>Regulators and chain ids\<close>

text \<open>
  \<^verbatim>\<open>let _ = ensure_root(origin);\<close> evaluates the check and drops its result: the origin is an argument
  of the next four calls and decides nothing.
\<close>

definition add_regulator ::
    "('o, 'a, 'p, 'w, 'i, 'x) dapi_config \<Rightarrow> 'o \<Rightarrow> 'a \<Rightarrow> ('a, 'p, 'w) dapi \<Rightarrow>
     ('a, 'p, 'w, 'x) dapi_outcome" where
  "add_regulator D origin account_id d =
     (let _ = ensure_root (DapiSystem D) origin;
          regulators = Regulators d in
      if account_id \<in> regulators then (Inl (Module AlreadyExist), d) else
      let d1 = d\<lparr>Regulators := insert account_id regulators\<rparr>
      in (Inr (), dapi_deposit_event (RegulatorAdded account_id) d1))"

definition remove_regulator ::
    "('o, 'a, 'p, 'w, 'i, 'x) dapi_config \<Rightarrow> 'o \<Rightarrow> 'a \<Rightarrow> ('a, 'p, 'w) dapi \<Rightarrow>
     ('a, 'p, 'w, 'x) dapi_outcome" where
  "remove_regulator D origin account_id d =
     (let _ = ensure_root (DapiSystem D) origin;
          regulators = Regulators d in
      if account_id \<notin> regulators then (Inl (Module NotExist), d) else
      let d1 = d\<lparr>Regulators := regulators - {account_id}\<rparr>
      in (Inr (), dapi_deposit_event (RegulatorRemoved account_id) d1))"

definition add_chain_id ::
    "('o, 'a, 'p, 'w, 'i, 'x) dapi_config \<Rightarrow> 'o \<Rightarrow> u8 list \<Rightarrow> ('a, 'p, 'w) dapi \<Rightarrow>
     ('a, 'p, 'w, 'x) dapi_outcome" where
  "add_chain_id D origin chain d =
     (let _ = ensure_root (DapiSystem D) origin in
      case bounded_try_into D chain of None \<Rightarrow> (Inl (Module BadChainId), d) | Some bounded_chain_id \<Rightarrow>
      let chain_ids = ChainIds d in
      if bounded_chain_id \<in> chain_ids then (Inl (Module AlreadyExist), d) else
      let d1 = d\<lparr>ChainIds := insert bounded_chain_id chain_ids\<rparr>
      in (Inr (), dapi_deposit_event (ChainIdAdded chain) d1))"

definition remove_chain_id ::
    "('o, 'a, 'p, 'w, 'i, 'x) dapi_config \<Rightarrow> 'o \<Rightarrow> u8 list \<Rightarrow> ('a, 'p, 'w) dapi \<Rightarrow>
     ('a, 'p, 'w, 'x) dapi_outcome" where
  "remove_chain_id D origin chain d =
     (let _ = ensure_root (DapiSystem D) origin in
      case bounded_try_into D chain of None \<Rightarrow> (Inl (Module BadChainId), d) | Some bounded_chain_id \<Rightarrow>
      let chain_ids = ChainIds d in
      if bounded_chain_id \<notin> chain_ids then (Inl (Module NotExist), d) else
      let d1 = d\<lparr>ChainIds := chain_ids - {bounded_chain_id}\<rparr>
      in (Inr (), dapi_deposit_event (ChainIdRemoved chain) d1))"

lemmas dapi_call_defs =
  register_project_def deposit_project_def submit_project_usage_def register_provider_def
  deposit_provider_def unregister_provider_def report_provider_offence_def add_regulator_def
  remove_regulator_def add_chain_id_def remove_chain_id_def dapi_deposit_event_def Let_def

end
