(* ===== verification/Dapi_Steps.thy ===== *)
theory Dapi_Steps
  imports Dapi
begin

text \<open>
  The calls of the dApi pallet as steps, the invariant of its projects, the life cycle of its
  providers, and the trait \<^verbatim>\<open>DapiStaking\<close> as an interface: under the laws the staking pallet promises,
  the register of this pallet and that of the staking pallet agree, and deactivating an active
  provider is never refused.
\<close>

section \<open>The steps\<close>

inductive dapi_call ::
    "('o, 'a, 'p, 'w, 'i, 'x) dapi_config \<Rightarrow> ('a, 'p, 'w) dapi \<Rightarrow> ('a, 'p, 'w) dapi \<Rightarrow> bool"
  for D :: "('o, 'a, 'p, 'w, 'i, 'x) dapi_config" where
  register_project_call: "register_project D origin p chain v d = (r, d') \<Longrightarrow> dapi_call D d d'"
| deposit_project_call: "deposit_project D origin p v d = (r, d') \<Longrightarrow> dapi_call D d d'"
| submit_project_usage_call: "submit_project_usage D origin p u d = (r, d') \<Longrightarrow> dapi_call D d d'"
| register_provider_call: "register_provider D origin p t a chain d = (r, d') \<Longrightarrow> dapi_call D d d'"
| deposit_provider_call: "deposit_provider D origin p v d = (r, d') \<Longrightarrow> dapi_call D d d'"
| unregister_provider_call: "unregister_provider D origin p d = (r, d') \<Longrightarrow> dapi_call D d d'"
| report_provider_offence_call: "report_provider_offence D origin p reason d = (r, d') \<Longrightarrow> dapi_call D d d'"
| add_regulator_call: "add_regulator D origin a d = (r, d') \<Longrightarrow> dapi_call D d d'"
| remove_regulator_call: "remove_regulator D origin a d = (r, d') \<Longrightarrow> dapi_call D d d'"
| add_chain_id_call: "add_chain_id D origin chain d = (r, d') \<Longrightarrow> dapi_call D d d'"
| remove_chain_id_call: "remove_chain_id D origin chain d = (r, d') \<Longrightarrow> dapi_call D d d'"

lemmas dapi_splits = option.splits if_splits sum.splits prod.splits

text \<open>
  What a call can write: the part of the projects and the part of the providers are separate, and
  each changes at one key only.
\<close>

definition project_change :: "('a, 'p, 'w) dapi \<Rightarrow> 'p \<Rightarrow> 'a project \<Rightarrow> bool" where
  "project_change d p prj \<longleftrightarrow>
     (case Projects d p of
        None \<Rightarrow> prj_usage prj = 0 \<and> prj_chain_id prj \<in> ChainIds d
      | Some old \<Rightarrow> prj_consumer prj = prj_consumer old \<and> prj_chain_id prj = prj_chain_id old \<and>
          (\<exists>v. prj_quota prj = saturating_add (prj_quota old) (calculate_quota v) \<and>
               prj_usage prj = prj_usage old \<or>
               prj_quota prj = prj_quota old \<and>
               prj_usage prj = min (saturating_add (prj_usage old) v) (prj_quota old)))"

definition provider_change :: "('a, 'p, 'w) dapi \<Rightarrow> 'p \<Rightarrow> 'a provider \<Rightarrow> bool" where
  "provider_change d p prv \<longleftrightarrow>
     (case Providers d p of
        None \<Rightarrow> prv_state prv = DRegistered \<and> prv_chain_id prv \<in> ChainIds d
      | Some old \<Rightarrow>
          (prv_state old = DRegistered \<and> prv = old\<lparr>prv_state := DActive\<rparr> \<or>
           prv_state old = DActive \<and> prv = old\<lparr>prv_state := DInActive\<rparr>))"

lemma project_changes:
  "Projects d p = None \<Longrightarrow> k \<in> ChainIds d \<Longrightarrow>
     project_change d p \<lparr>prj_consumer = a, prj_chain_id = k, prj_quota = q, prj_usage = 0\<rparr>"
  "Projects d p = Some old \<Longrightarrow>
     project_change d p (old\<lparr>prj_quota := saturating_add (prj_quota old) (calculate_quota v)\<rparr>)"
  "Projects d p = Some old \<Longrightarrow>
     project_change d p (old\<lparr>prj_usage := min (saturating_add (prj_usage old) u) (prj_quota old)\<rparr>)"
  unfolding project_change_def by auto

lemma dapi_call_projects:
  assumes "dapi_call D d d'"
  shows "Projects d' = Projects d \<or>
    (\<exists>p prj. Projects d' = (Projects d)(p \<mapsto> prj) \<and> project_change d p prj)"
  using assms
proof (cases rule: dapi_call.cases)
  case (register_project_call origin p chain v r)
  then show ?thesis
    by (auto simp: dapi_call_defs split: dapi_splits) (metis project_changes(1))+
next
  case (deposit_project_call origin p v r)
  then show ?thesis
    by (auto simp: dapi_call_defs split: dapi_splits) (metis project_changes(2))+
next
  case (submit_project_usage_call origin p u r)
  then show ?thesis
    by (auto simp: dapi_call_defs split: dapi_splits) (metis project_changes(3))+
qed (auto simp: dapi_call_defs split: dapi_splits)

lemma dapi_call_providers:
  assumes "dapi_call D d d'"
  shows "Providers d' = Providers d \<or>
    (\<exists>p prv. Providers d' = (Providers d)(p \<mapsto> prv) \<and> provider_change d p prv)"
  using assms
proof (cases rule: dapi_call.cases)
  case (register_provider_call origin p t a chain r)
  then show ?thesis
    by (fastforce simp: dapi_call_defs provider_change_def split: dapi_splits)
next
  case (deposit_provider_call origin p v r)
  then show ?thesis
    by (fastforce simp: dapi_call_defs provider_change_def split: dapi_splits)
next
  case (unregister_provider_call origin p r)
  then show ?thesis
    by (fastforce simp: dapi_call_defs provider_change_def split: dapi_splits)
next
  case (report_provider_offence_call origin p reason r)
  then show ?thesis
    by (fastforce simp: dapi_call_defs provider_change_def split: dapi_splits)
qed (auto simp: dapi_call_defs split: dapi_splits)

section \<open>Chain ids stay within their bound\<close>

text \<open>
  Every chain id of the storage once passed the conversion into a bounded vector; \<open>ok\<close> is what that
  conversion promises of its result.
\<close>

definition chain_ids_ok :: "(chain_id \<Rightarrow> bool) \<Rightarrow> ('a, 'p, 'w) dapi \<Rightarrow> bool" where
  "chain_ids_ok ok d \<longleftrightarrow> (\<forall>k\<in>ChainIds d. ok k) \<and>
     (\<forall>p prj. Projects d p = Some prj \<longrightarrow> ok (prj_chain_id prj)) \<and>
     (\<forall>p prv. Providers d p = Some prv \<longrightarrow> ok (prv_chain_id prv))"

lemma dapi_call_known:
  assumes "dapi_call D d d'"
  shows "ChainIds d' \<subseteq> ChainIds d \<union> {k. \<exists>xs. bounded_try_into D xs = Some k}"
  using assms by (cases rule: dapi_call.cases) (auto simp: dapi_call_defs split: dapi_splits)

lemma change_chain_ids:
  assumes "chain_ids_ok ok d"
  shows "project_change d p prj \<Longrightarrow> ok (prj_chain_id prj)" "provider_change d p prv \<Longrightarrow> ok (prv_chain_id prv)"
  using assms by (auto simp: project_change_def provider_change_def chain_ids_ok_def split: option.splits)

lemma dapi_call_chain_ids:
  assumes call: "dapi_call D d d'" and inv: "chain_ids_ok ok d"
    and into: "\<And>xs k. bounded_try_into D xs = Some k \<Longrightarrow> ok k"
  shows "chain_ids_ok ok d'"
proof -
  have "\<forall>k\<in>ChainIds d'. ok k" using dapi_call_known [OF call] inv into by (auto simp: chain_ids_ok_def)
  moreover have "\<forall>p prj. Projects d' p = Some prj \<longrightarrow> ok (prj_chain_id prj)"
    using dapi_call_projects [OF call] inv change_chain_ids(1) [OF inv]
    by (auto simp: chain_ids_ok_def split: if_splits)
  moreover have "\<forall>p prv. Providers d' p = Some prv \<longrightarrow> ok (prv_chain_id prv)"
    using dapi_call_providers [OF call] inv change_chain_ids(2) [OF inv]
    by (auto simp: chain_ids_ok_def split: if_splits)
  ultimately show ?thesis by (simp add: chain_ids_ok_def)
qed

section \<open>Projects: usage never exceeds the quota\<close>

definition usage_ok :: "('a, 'p, 'w) dapi \<Rightarrow> bool" where
  "usage_ok d \<longleftrightarrow> (\<forall>p prj. Projects d p = Some prj \<longrightarrow> prj_usage prj \<le> prj_quota prj)"

lemma saturating_add_ge: "a \<le> saturating_add a b"
  by (simp add: word_nat) (metis One_nat_def less_Suc_eq_le Suc_pred unsigned_less zero_less_numeral zero_less_power)

lemma project_change_usage:
  assumes "project_change d p prj" "usage_ok d"
  shows "prj_usage prj \<le> prj_quota prj"
  using assms
  by (fastforce simp: project_change_def usage_ok_def split: option.splits
      intro: order_trans [OF _ saturating_add_ge])

lemma dapi_call_usage:
  assumes "dapi_call D d d'" "usage_ok d"
  shows "usage_ok d'"
  using dapi_call_projects [OF assms(1)]
proof
  assume "Projects d' = Projects d"
  with assms(2) show ?thesis by (simp add: usage_ok_def)
next
  assume "\<exists>p prj. Projects d' = (Projects d)(p \<mapsto> prj) \<and> project_change d p prj"
  then obtain p prj where "Projects d' = (Projects d)(p \<mapsto> prj)" "project_change d p prj" by blast
  with project_change_usage [OF _ assms(2)] assms(2) show ?thesis
    by (auto simp: usage_ok_def split: if_splits)
qed

section \<open>Providers: the life cycle\<close>

text \<open>\<open>rank\<close> orders the states along the life cycle.\<close>

primrec rank :: "dapi_provider_state \<Rightarrow> nat" where
  "rank DRegistered = 0"
| "rank DActive = 1"
| "rank DInActive = 2"

text \<open>One provider as it was and as it is: the same one, at the same place of its life or later.\<close>

definition provider_later :: "'a provider \<Rightarrow> 'a provider \<Rightarrow> bool" where
  "provider_later old new \<longleftrightarrow> new\<lparr>prv_state := prv_state old\<rparr> = old \<and>
     rank (prv_state old) \<le> rank (prv_state new)"

definition providers_later :: "('p \<rightharpoonup> 'a provider) \<Rightarrow> ('p \<rightharpoonup> 'a provider) \<Rightarrow> bool" where
  "providers_later m m' \<longleftrightarrow>
     (\<forall>p old. m p = Some old \<longrightarrow> (\<exists>new. m' p = Some new \<and> provider_later old new))"

lemma provider_later_refl [simp]: "provider_later prv prv"
  by (simp add: provider_later_def)

lemma provider_later_trans:
  assumes "provider_later a b" "provider_later b c"
  shows "provider_later a c"
proof -
  have "c\<lparr>prv_state := prv_state a\<rparr> = (c\<lparr>prv_state := prv_state b\<rparr>)\<lparr>prv_state := prv_state a\<rparr>"
    by simp
  with assms show ?thesis by (auto simp: provider_later_def)
qed

lemma providers_later_refl [simp]: "providers_later m m"
  by (auto simp: providers_later_def)

lemma providers_later_trans:
  assumes "providers_later m1 m2" "providers_later m2 m3"
  shows "providers_later m1 m3"
  using assms unfolding providers_later_def by (meson provider_later_trans)

lemma dapi_call_providers_later:
  assumes "dapi_call D d d'"
  shows "providers_later (Providers d) (Providers d')"
  using dapi_call_providers [OF assms]
proof
  assume "Providers d' = Providers d"
  then show ?thesis by simp
next
  assume "\<exists>p prv. Providers d' = (Providers d)(p \<mapsto> prv) \<and> provider_change d p prv"
  then obtain p prv where d': "Providers d' = (Providers d)(p \<mapsto> prv)" and ch: "provider_change d p prv"
    by blast
  have "provider_later old prv" if "Providers d p = Some old" for old
    using ch that by (auto simp: provider_change_def provider_later_def)
  then show ?thesis by (auto simp: providers_later_def d')
qed

section \<open>The staking trait as an interface\<close>

text \<open>
  The trait \<^verbatim>\<open>DapiStaking\<close>. \<open>registered w p\<close> is the operator a provider is entered under in the staking
  pallet, \<open>active w p\<close> says that it takes part in staking. Registering succeeds only for a new
  provider and makes it active; when it is refused the provider may still have been entered and be
  active, but only under the given operator. Unregistering succeeds exactly for an active provider.
\<close>

locale dapi_staking =
  fixes register :: "'a \<Rightarrow> 'p \<Rightarrow> balance \<Rightarrow> 'w \<Rightarrow> ('x + unit) \<times> 'w"
    and unregister :: "'p \<Rightarrow> 'w \<Rightarrow> ('x + unit) \<times> 'w"
    and registered :: "'w \<Rightarrow> 'p \<Rightarrow> 'a option"
    and active :: "'w \<Rightarrow> 'p \<Rightarrow> bool"
  assumes active_registered: "active w p \<Longrightarrow> registered w p \<noteq> None"
    and register_ok: "register a p v w = (Inr u, w') \<Longrightarrow>
      registered w p = None \<and> registered w' p = Some a \<and> active w' p"
    and register_refused: "register a p v w = (Inl x, w') \<Longrightarrow>
      registered w' p = registered w p \<and> active w' p = active w p \<or>
      registered w p = None \<and> registered w' p = Some a \<and> active w' p"
    and register_others: "register a p v w = (r, w') \<Longrightarrow> q \<noteq> p \<Longrightarrow>
      registered w' q = registered w q \<and> active w' q = active w q"
    and unregister_defined: "active w p \<Longrightarrow> \<exists>w'. unregister p w = (Inr (), w')"
    and unregister_ok: "unregister p w = (Inr u, w') \<Longrightarrow>
      active w p \<and> \<not> active w' p \<and> registered w' p = registered w p"
    and unregister_refused: "unregister p w = (Inl x, w') \<Longrightarrow> w' = w"
    and unregister_others: "unregister p w = (r, w') \<Longrightarrow> q \<noteq> p \<Longrightarrow>
      registered w' q = registered w q \<and> active w' q = active w q"

text \<open>The two registers agree on a provider: what this pallet says of it, its operator there, and
  whether it is active there.\<close>

definition agree :: "'a provider option \<Rightarrow> 'a option \<Rightarrow> bool \<Rightarrow> bool" where
  "agree here operator act =
     (case here of
        None \<Rightarrow> operator = None
      | Some prv \<Rightarrow>
          (case prv_state prv of
             DRegistered \<Rightarrow> operator = None \<or> operator = Some (prv_operator prv) \<and> act
           | DActive \<Rightarrow> operator = Some (prv_operator prv) \<and> act
           | DInActive \<Rightarrow> operator = Some (prv_operator prv) \<and> \<not> act))"

definition coherent ::
    "('w \<Rightarrow> 'p \<Rightarrow> 'a option) \<Rightarrow> ('w \<Rightarrow> 'p \<Rightarrow> bool) \<Rightarrow> ('a, 'p, 'w) dapi \<Rightarrow> bool" where
  "coherent registered active d \<longleftrightarrow>
     (\<forall>p. agree (Providers d p) (registered (World d) p) (active (World d) p))"

lemma coherent_change:
  assumes "coherent registered active d" "\<And>q. q \<noteq> p \<Longrightarrow> Providers d' q = Providers d q"
    and "\<And>q. q \<noteq> p \<Longrightarrow>
      registered (World d') q = registered (World d) q \<and> active (World d') q = active (World d) q"
    and "agree (Providers d' p) (registered (World d') p) (active (World d') p)"
  shows "coherent registered active d'"
  unfolding coherent_def
proof
  fix q
  show "agree (Providers d' q) (registered (World d') q) (active (World d') q)"
    using assms by (cases "q = p") (simp_all add: coherent_def)
qed

text \<open>
  The pallet in a runtime: its configuration passes the trait's functions on, and the currency
  leaves the register of the staking pallet alone. That the handler of payments does so as well is a
  premise of the lemmas below.
\<close>

locale dapi_host = dapi_staking +
  fixes D :: "('o, 'a, 'p, 'w, 'i, 'x) dapi_config"
  assumes D_register: "staking_register D = register"
    and D_unregister: "staking_unregister D = unregister"
    and D_withdraw: "withdraw (DapiCurrency D) w a v reasons keep = (r, w') \<Longrightarrow>
      registered w' = registered w \<and> active w' = active w"
begin

lemma deposit_provider_coherent:
  assumes "deposit_provider D origin p v d = (r, d')" "coherent registered active d"
  shows "coherent registered active d'"
proof (cases "d' = d")
  case False
  then obtain a prv x w where c: "Providers d p = Some prv" "prv_operator prv = a"
      "prv_state prv = DRegistered" "register a p v (World d) = (x, w)"
    and d': "World d' = w" "Providers d' = (case x of Inl _ \<Rightarrow> Providers d
      | Inr _ \<Rightarrow> (Providers d)(p \<mapsto> prv\<lparr>prv_state := DActive\<rparr>))"
    using assms(1) by (auto simp: dapi_call_defs D_register split: dapi_splits)
  have old: "registered (World d) p = None \<or>
      registered (World d) p = Some (prv_operator prv) \<and> active (World d) p"
    using assms(2) c(1,3) unfolding coherent_def agree_def by (auto dest: spec [of _ p])
  show ?thesis
  proof (rule coherent_change [OF assms(2)])
    show "agree (Providers d' p) (registered (World d') p) (active (World d') p)"
      using c old register_ok [of a p v "World d"] register_refused [of a p v "World d"]
      by (cases x) (auto simp: agree_def d')
  qed (use register_others [OF c(4)] d' in \<open>auto split: sum.splits\<close>)
qed (use assms(2) in simp)

lemma deactivate_coherent:
  assumes "coherent registered active d" "Providers d p = Some prv" "prv_state prv = DActive"
    and "unregister p (World d) = (x, w)" "World d' = w"
    and "Providers d' = (case x of Inl _ \<Rightarrow> Providers d
      | Inr _ \<Rightarrow> (Providers d)(p \<mapsto> prv\<lparr>prv_state := DInActive\<rparr>))"
  shows "coherent registered active d'"
proof (rule coherent_change [OF assms(1)])
  have "agree (Some prv) (registered (World d) p) (active (World d) p)"
    using assms(1,2) by (metis coherent_def)
  then show "agree (Providers d' p) (registered (World d') p) (active (World d') p)"
    using assms unregister_ok [of p "World d"] unregister_refused [of p "World d"]
    by (cases x) (auto simp: agree_def)
qed (use unregister_others [OF assms(4)] assms(5,6) in \<open>auto split: sum.splits\<close>)

lemma unregister_provider_coherent:
  assumes "unregister_provider D origin p d = (r, d')" "coherent registered active d"
  shows "coherent registered active d'"
proof (cases "d' = d")
  case False
  with assms(1) show ?thesis
    by (auto simp: dapi_call_defs D_unregister split: dapi_splits
        intro: deactivate_coherent [OF assms(2)])
qed (use assms(2) in simp)

lemma report_provider_offence_coherent:
  assumes "report_provider_offence D origin p reason d = (r, d')" "coherent registered active d"
  shows "coherent registered active d'"
proof (cases "d' = d")
  case False
  with assms(1) show ?thesis
    by (auto simp: dapi_call_defs D_unregister split: dapi_splits
        intro: deactivate_coherent [OF assms(2)])
qed (use assms(2) in simp)

lemma register_provider_coherent:
  assumes "register_provider D origin p t a chain d = (r, d')" "coherent registered active d"
  shows "coherent registered active d'"
proof (cases "d' = d")
  case False
  then obtain k where "Providers d p = None"
    and d': "World d' = World d" "Providers d' = (Providers d)(p \<mapsto>
      \<lparr>prv_provider_type = t, prv_operator = a, prv_chain_id = k, prv_state = DRegistered\<rparr>)"
    using assms(1) by (auto simp: dapi_call_defs split: dapi_splits)
  then show ?thesis
    using assms(2)
    by (intro coherent_change [OF assms(2), of p]) (auto simp: coherent_def agree_def dest: spec [of _ p])
qed (use assms(2) in simp)

lemma project_call_world:
  assumes "\<And>i w. registered (OnProjectPayment D i w) = registered w \<and> active (OnProjectPayment D i w) = active w"
  shows "register_project D origin p chain v d = (r, d') \<Longrightarrow> Providers d' = Providers d \<and>
     registered (World d') = registered (World d) \<and> active (World d') = active (World d)"
  "deposit_project D origin p v d = (r, d') \<Longrightarrow> Providers d' = Providers d \<and>
     registered (World d') = registered (World d) \<and> active (World d') = active (World d)"
  by (auto simp: dapi_call_defs assms split: dapi_splits dest: D_withdraw)

lemma dapi_call_coherent:
  assumes "dapi_call D d d'" "coherent registered active d"
    and pay: "\<And>i w. registered (OnProjectPayment D i w) = registered w \<and>
      active (OnProjectPayment D i w) = active w"
  shows "coherent registered active d'"
  using assms(1)
proof (cases rule: dapi_call.cases)
  case (deposit_provider_call origin p v r)
  then show ?thesis using deposit_provider_coherent assms(2) by blast
next
  case (unregister_provider_call origin p r)
  then show ?thesis using unregister_provider_coherent assms(2) by blast
next
  case (report_provider_offence_call origin p reason r)
  then show ?thesis using report_provider_offence_coherent assms(2) by blast
next
  case (register_provider_call origin p t a chain r)
  then show ?thesis using register_provider_coherent assms(2) by blast
next
  case (register_project_call origin p chain v r)
  then show ?thesis using project_call_world(1) [OF pay] assms(2) by (simp add: coherent_def)
next
  case (deposit_project_call origin p v r)
  then show ?thesis using project_call_world(2) [OF pay] assms(2) by (simp add: coherent_def)
qed (use assms(2) in \<open>auto simp: dapi_call_defs coherent_def split: dapi_splits\<close>)

lemma active_provider_leaves:
  assumes "coherent registered active d" "Providers d p = Some prv" "prv_state prv = DActive"
  obtains w where "unregister p (World d) = (Inr (), w)" "\<not> active w p"
    "registered w p = Some (prv_operator prv)"
proof -
  have "agree (Some prv) (registered (World d) p) (active (World d) p)"
    using assms(1,2) by (metis coherent_def)
  then have act: "active (World d) p" "registered (World d) p = Some (prv_operator prv)"
    using assms(3) by (simp_all add: agree_def)
  obtain w where "unregister p (World d) = (Inr (), w)" using unregister_defined [OF act(1)] by blast
  with unregister_ok [OF this] act(2) that show thesis by simp
qed

end

end
