(* ===== verification/Staking_Trait.thy ===== *)
theory Staking_Trait
  imports Staking_Steps Dapi_Steps
begin

text \<open>
  The staking pallet as the implementation of the trait \<^verbatim>\<open>DapiStaking\<close>: \<^verbatim>\<open>register\<close> and \<^verbatim>\<open>unregister\<close>
  satisfy the laws of the interface \<open>dapi_staking\<close>, and no extrinsic of the staking pallet changes
  what the interface observes.
\<close>

definition operator_of :: "('a, 'p, 'c) staking \<Rightarrow> 'p \<Rightarrow> 'a option" where
  "operator_of s p = map_option pi_operator (RegisteredProviders s p)"

definition active_in :: "('a, 'p, 'c) staking \<Rightarrow> 'p \<Rightarrow> bool" where
  "active_in s p = is_active_provider p s"

lemmas registry_defs = operator_of_def active_in_def is_active_provider_def

lemma stake_registry:
  assumes "stake T origin p v s = (r, s')"
  shows "RegisteredProviders s' = RegisteredProviders s"
proof (cases r)
  case (Inl err)
  then have "s' = s" using assms refused_unchanged(3) by metis
  then show ?thesis by simp
next
  case (Inr u)
  then have "stake T origin p v s = (Inr (), s')" using assms by simp
  then show ?thesis by (rule stake_okE) simp
qed

lemma register_registry:
  assumes "register T a p v s = (r, s')"
  shows "RegisteredProviders s' = RegisteredProviders s \<and> r \<noteq> Inr () \<or>
    RegisteredProviders s p = None \<and>
    RegisteredProviders s' = (RegisteredProviders s)(p \<mapsto> ProviderInfo_new a)"
  using assms
proof (cases rule: register_cases)
  case (enrolled x c)
  then show ?thesis using stake_registry [OF enrolled(4)] by (simp add: enrol_def)
qed auto

interpretation staking_trait: dapi_staking "register T" unregister operator_of active_in
  for T :: "('o, 'a, 'p, 'c, 'i, 'b, 'e) staking_config"
proof unfold_locales
  show "operator_of w p \<noteq> None" if "active_in w p" for w :: "('a, 'p, 'c) staking" and p
    using that by (auto simp: registry_defs split: option.splits)
  show "operator_of w p = None \<and> operator_of w' p = Some a \<and> active_in w' p"
    if "register T a p v w = (Inr u, w')" for a p v w u w'
    using register_registry [OF that] by (auto simp: registry_defs ProviderInfo_new_def)
  show "operator_of w' p = operator_of w p \<and> active_in w' p = active_in w p \<or>
      operator_of w p = None \<and> operator_of w' p = Some a \<and> active_in w' p"
    if "register T a p v w = (Inl x, w')" for a p v w x w'
    using register_registry [OF that] by (auto simp: registry_defs ProviderInfo_new_def)
  show "operator_of w' q = operator_of w q \<and> active_in w' q = active_in w q"
    if "register T a p v w = (r, w')" "q \<noteq> p" for a p v w r w' q
    using register_registry [OF that(1)] that(2) by (auto simp: registry_defs)
  show "\<exists>w'. unregister p w = ((Inr () :: (staking_error, 'e) dispatch_error + unit), w')"
    if "active_in w p" for w :: "('a, 'p, 'c) staking" and p
    using that by (auto simp: registry_defs unregister_def Let_def split: option.splits)
  show "active_in w p \<and> \<not> active_in w' p \<and> operator_of w' p = operator_of w p"
    if "unregister p w = ((Inr u :: (staking_error, 'e) dispatch_error + unit), w')" for p u and w w' :: "('a, 'p, 'c) staking"
    using that by (auto simp: registry_defs elim!: unregister_okE)
  show "w' = w" if "unregister p w = ((Inl x :: (staking_error, 'e) dispatch_error + unit), w')" for p x and w w' :: "('a, 'p, 'c) staking"
    using that by (rule refused_unchanged(7))
  show "operator_of w' q = operator_of w q \<and> active_in w' q = active_in w q"
    if "unregister p w = ((r :: (staking_error, 'e) dispatch_error + unit), w')" "q \<noteq> p" for p r q and w w' :: "('a, 'p, 'c) staking"
    using that by (auto simp: registry_defs unregister_def Let_def split: option.splits if_splits)
qed

section \<open>The extrinsics of the staking pallet\<close>

text \<open>The extrinsics of the staking pallet; the functions of its trait are not among them.\<close>

inductive staking_extrinsic ::
    "('o, 'a, 'p, 'c, 'i, 'b, 'e) staking_config \<Rightarrow> ('a, 'p, 'c) staking \<Rightarrow> ('a, 'p, 'c) staking \<Rightarrow> bool"
  for T :: "('o, 'a, 'p, 'c, 'i, 'b, 'e) staking_config" where
  "withdraw_from_unregistered_staker T origin p s = (r, s') \<Longrightarrow> staking_extrinsic T s s'"
| "withdraw_from_unregistered_operator T origin p s = (r, s') \<Longrightarrow> staking_extrinsic T s s'"
| "stake T origin p v s = (r, s') \<Longrightarrow> staking_extrinsic T s s'"
| "unstake T origin p v s = (r, s') \<Longrightarrow> staking_extrinsic T s s'"
| "withdraw_unstaked T origin s = (r, s') \<Longrightarrow> staking_extrinsic T s s'"
| "claim_staker T origin p s = (r, s') \<Longrightarrow> staking_extrinsic T s s'"
| "claim_operator T origin p e s = (r, s') \<Longrightarrow> staking_extrinsic T s s'"
| "force_new_era T origin s = (r, s') \<Longrightarrow> staking_extrinsic T s s'"

lemma staking_extrinsic_step: "staking_extrinsic T s s' \<Longrightarrow> staking_step T s s'"
  by (induction rule: staking_extrinsic.induct) (blast intro: staking_step.intros)+

lemma successful_registry:
  "withdraw_from_unregistered_staker T origin p s = (Inr (), s') \<Longrightarrow> RegisteredProviders s' = RegisteredProviders s"
  "unstake T origin p v s = (Inr (), s') \<Longrightarrow> RegisteredProviders s' = RegisteredProviders s"
  "withdraw_unstaked T origin s = (Inr (), s') \<Longrightarrow> RegisteredProviders s' = RegisteredProviders s"
  "claim_staker T origin p s = (Inr (), s') \<Longrightarrow> RegisteredProviders s' = RegisteredProviders s"
  "claim_operator T origin p e s = (Inr (), s') \<Longrightarrow> RegisteredProviders s' = RegisteredProviders s"
  by (auto elim!: withdraw_from_unregistered_staker_okE unstake_okE withdraw_unstaked_okE
      claim_staker_okE claim_operator_okE)

text \<open>What the interface observes of the register is the same after every extrinsic.\<close>

lemma staking_extrinsic_registry:
  assumes "staking_extrinsic T s s'"
  shows "operator_of s' = operator_of s \<and> active_in s' = active_in s"
proof -
  let ?P = "\<lambda>t. operator_of t = operator_of s \<and> active_in t = active_in s"
  let ?R = "\<lambda>t. RegisteredProviders t = RegisteredProviders s"
  have same: "?P t" if "?R t" for t
    using that by (simp add: registry_defs fun_eq_iff)
  have op: "?P t" if "withdraw_from_unregistered_operator T origin p s = (Inr (), t)" for origin p t
    using that by (rule withdraw_from_unregistered_operator_okE) (auto simp: registry_defs fun_eq_iff)
  show ?thesis
    using assms
  proof (cases rule: staking_extrinsic.cases)
    case (2 origin p r)
    then show ?thesis
      by (rule outcome_preserves [where P = ?P]) (drule refused_unchanged(2), simp, erule op)
  next
    case (3 origin p v r)
    then show ?thesis by (rule same [OF stake_registry])
  next
    case (8 origin r)
    then show ?thesis by (intro same) (auto simp: force_new_era_def split: if_splits)
  qed (rule same, erule outcome_preserves [where P = ?R];
      (erule successful_registry | drule refused_unchanged, simp | drule refused_only_balances, erule exE, simp))+
qed

end
