(* ===== verification/Staking_Claims.thy ===== *)
theory Staking_Claims
  imports Staking_Shares Staking_Trait
begin

text \<open>
  What happens at most once in the staking pallet: an era is paid to a staker once, and in
  increasing order; an era is paid to an operator once; the deposit of an operator is returned once.
  Each is an invariant of the steps that follow the payment.
\<close>

section \<open>Stakers\<close>

lemma claimed_upto_mono: "claimed_upto h e' \<Longrightarrow> e \<le> e' \<Longrightarrow> claimed_upto h e"
  by (auto simp: claimed_upto_def list_all_iff intro: le_less_trans)

lemma put_stake_claimed:
  "list_all (\<lambda>x. e < es_era x) xs \<Longrightarrow> e < c \<Longrightarrow> list_all (\<lambda>x. e < es_era x) (put_stake xs c v)"
  using set_put_stake [of xs c v] by (auto simp: list_all_iff EraStake_new_def)

lemma remove_unstaked_head_claimed:
  "list_all P xs \<Longrightarrow> list_all P (remove_unstaked_head xs)"
  using set_remove_unstaked_head [of xs] by (auto simp: list_all_iff)

lemma StakerInfo_claimed_upto:
  assumes "claimed_upto h e" "e < c"
  shows "StakerInfo_stake h c v = Inr h' \<Longrightarrow> claimed_upto h' e"
    and "StakerInfo_unstake h c v = Inr h' \<Longrightarrow> claimed_upto h' e"
  using assms
  by (auto simp: StakerInfo_stake_eq StakerInfo_unstake_eq claimed_upto_def put_stake_claimed
      remove_unstaked_head_claimed split: if_splits)

lemma claimed_upto_claim:
  assumes "claimed_upto h e" "StakerInfo_claim h = ((e', v), h')" "v \<noteq> 0"
  shows "e < e'"
  using assms by (cases "stakes h") (auto simp: StakerInfo_claim_Nil StakerInfo_claim_Cons claimed_upto_def)

text \<open>Everything up to era \<open>e\<close> is paid to account \<open>a\<close> for provider \<open>p\<close>.\<close>

definition paid_upto :: "'a \<Rightarrow> 'p \<Rightarrow> era_index \<Rightarrow> ('a, 'p, 'c) staking \<Rightarrow> bool" where
  "paid_upto a p e s \<longleftrightarrow> books_balance s \<and> e < CurrentEra s \<and> claimed_upto (staker_info_of s a p) e"

lemma paid_upto_change:
  assumes "paid_upto a p e s" "books_balance s'" "CurrentEra s' = CurrentEra s"
    and "GeneralStakerInfo s' = upd_default StakerInfo_default (GeneralStakerInfo s) (b, q) i"
    and "(b, q) = (a, p) \<Longrightarrow> claimed_upto i e"
  shows "paid_upto a p e s'"
  using assms(1,2,3,5) by (auto simp: paid_upto_def staker_info_of_upd_default [OF assms(4)])

lemma paid_upto_same:
  assumes "paid_upto a p e s" "books_balance s'" "CurrentEra s' = CurrentEra s"
    and "GeneralStakerInfo s' = GeneralStakerInfo s"
  shows "paid_upto a p e s'"
  using assms by (simp add: paid_upto_def staker_info_of_def)

text \<open>What \<^verbatim>\<open>stake\<close> and \<^verbatim>\<open>unstake\<close> do to the histories, without the rest of the storage.\<close>

lemma stake_historyE:
  assumes "stake T origin p v s = (Inr (), s')"
  obtains a w i where "is_active_provider p s"
    "StakerInfo_stake (staker_info_of s a p) (CurrentEra s) w = Inr i"
    "GeneralStakerInfo s' = upd_default StakerInfo_default (GeneralStakerInfo s) (a, p) i"
    "CurrentEra s' = CurrentEra s"
  using assms by (rule stake_okE) (use that in simp)

lemma unstake_historyE:
  assumes "unstake T origin p v s = (Inr (), s')"
  obtains a w i where "is_active_provider p s"
    "StakerInfo_unstake (staker_info_of s a p) (CurrentEra s) w = Inr i"
    "GeneralStakerInfo s' = upd_default StakerInfo_default (GeneralStakerInfo s) (a, p) i"
    "CurrentEra s' = CurrentEra s"
  using assms by (rule unstake_okE) (use that in simp)

lemma stake_paid:
  assumes ok: "stake T origin q v s = (Inr (), s')" and inv: "paid_upto a p e s"
  shows "paid_upto a p e s'"
proof -
  have b: "books_balance s'" using stake_books [OF ok] inv by (simp add: paid_upto_def)
  obtain b w i where "is_active_provider q s"
    and h: "StakerInfo_stake (staker_info_of s b q) (CurrentEra s) w = Inr i"
    "GeneralStakerInfo s' = upd_default StakerInfo_default (GeneralStakerInfo s) (b, q) i"
    "CurrentEra s' = CurrentEra s"
    using ok by (rule stake_historyE)
  show ?thesis
    by (rule paid_upto_change [OF inv b h(3,2)])
      (use inv h(1) StakerInfo_claimed_upto(1) in \<open>auto simp: paid_upto_def\<close>)
qed

lemma unstake_paid:
  assumes ok: "unstake T origin q v s = (Inr (), s')" and inv: "paid_upto a p e s"
    and min: "0 < MinimumStakingAmount T"
  shows "paid_upto a p e s'"
proof -
  have b: "books_balance s'" using unstake_books [OF ok _ min] inv by (simp add: paid_upto_def)
  obtain b w i where "is_active_provider q s"
    and h: "StakerInfo_unstake (staker_info_of s b q) (CurrentEra s) w = Inr i"
    "GeneralStakerInfo s' = upd_default StakerInfo_default (GeneralStakerInfo s) (b, q) i"
    "CurrentEra s' = CurrentEra s"
    using ok by (rule unstake_historyE)
  show ?thesis
    by (rule paid_upto_change [OF inv b h(3,2)])
      (use inv h(1) StakerInfo_claimed_upto(2) in \<open>auto simp: paid_upto_def\<close>)
qed

lemma withdraw_staker_paid:
  assumes ok: "withdraw_from_unregistered_staker T origin q s = (Inr (), s')" and inv: "paid_upto a p e s"
  shows "paid_upto a p e s'"
proof -
  have b: "books_balance s'"
    using withdraw_from_unregistered_staker_books [OF ok] inv by (simp add: paid_upto_def)
  have "\<exists>b. GeneralStakerInfo s' = upd_default StakerInfo_default (GeneralStakerInfo s) (b, q) StakerInfo_default"
    "CurrentEra s' = CurrentEra s"
    using ok by (auto elim!: withdraw_from_unregistered_staker_okE)
  then show ?thesis using paid_upto_change [OF inv b] by fastforce
qed

lemma claim_staker_paid:
  assumes ok: "claim_staker T origin q s = (Inr (), s')" and inv: "paid_upto a p e s"
  shows "paid_upto a p e s'"
  using ok
proof (rule claim_staker_okE)
  fix b e' v i reward imb c
  assume claim: "StakerInfo_claim (staker_info_of s b q) = ((e', v), i)" and v: "0 < v"
    and e': "e' < CurrentEra s"
    and s': "s' = deposit_event (Reward b q e' reward)
       (update_staker_info b q i (s\<lparr>Balances := resolve_creating (Currency T) c b imb\<rparr>))"
  have books: "books_balance s" "books_balance s'"
    using inv claim_staker_books [OF ok] by (simp_all add: paid_upto_def)
  have v': "v \<noteq> 0" using v by auto
  note B = books_balanceD [OF books(1)]
  have "claimed_upto i e'" by (rule StakerInfo_claim_ok(3) [OF B(3,4) claim e' v'])
  moreover have "e < e'" if "(b, q) = (a, p)"
    using inv that claimed_upto_claim [OF _ claim v'] by (simp add: paid_upto_def)
  ultimately show ?thesis
    by (intro paid_upto_change [OF inv books(2), where b = b and q = q and i = i])
      (auto simp: s' intro: claimed_upto_mono)
qed

lemma new_era_paid:
  assumes on: "on_initialize T now s = Some (w, s')" "era_ends T now s" "CurrentEra s < - 1"
    and inv: "paid_upto a p e s"
  shows "paid_upto a p e s'"
  using inv new_era_books [OF on] on_initialize_new_era(2,6) [OF on(1,2)]
    less_trans [OF _ next_era_later [OF on(3)], of e]
  by (simp add: paid_upto_def staker_info_of_def)

lemma other_paid:
  "paid_upto a p e s \<Longrightarrow> paid_upto a p e (s\<lparr>Balances := c\<rparr>)"
  "paid_upto a p e s \<Longrightarrow> paid_upto a p e (s\<lparr>ForceEra := f\<rparr>)"
  "paid_upto a p e s \<Longrightarrow> paid_upto a p e (s\<lparr>BlockRewardAccumulator := acc\<rparr>)"
  "RegisteredProviders s q = None \<Longrightarrow> paid_upto a p e s \<Longrightarrow> paid_upto a p e (enrol c b q s)"
  "unregister q s = (Inr (), s') \<Longrightarrow> paid_upto a p e s \<Longrightarrow> paid_upto a p e s'"
  "withdraw_from_unregistered_operator T origin q s = (Inr (), s') \<Longrightarrow> paid_upto a p e s \<Longrightarrow> paid_upto a p e s'"
  "withdraw_unstaked T origin s = (Inr (), s') \<Longrightarrow> paid_upto a p e s \<Longrightarrow> paid_upto a p e s'"
  "claim_operator T origin q e' s = (Inr (), s') \<Longrightarrow> paid_upto a p e s \<Longrightarrow> paid_upto a p e s'"
proof -
  note books = other_books withdraw_unstaked_books claim_operator_books
  have enrolled: "books_balance (enrol c b q s)" if "books_balance s"
    using that by (rule books_same) (simp_all add: enrol_def)
  show "paid_upto a p e s \<Longrightarrow> paid_upto a p e (s\<lparr>Balances := c\<rparr>)"
    "paid_upto a p e s \<Longrightarrow> paid_upto a p e (s\<lparr>ForceEra := f\<rparr>)"
    "paid_upto a p e s \<Longrightarrow> paid_upto a p e (s\<lparr>BlockRewardAccumulator := acc\<rparr>)"
    "RegisteredProviders s q = None \<Longrightarrow> paid_upto a p e s \<Longrightarrow> paid_upto a p e (enrol c b q s)"
    by (simp_all add: paid_upto_def books enrolled staker_info_of_def) (simp_all add: enrol_def)
  show "paid_upto a p e s'" if ok: "unregister q s = (Inr (), s')" and inv: "paid_upto a p e s"
    by (rule paid_upto_same [OF inv])
      (use ok inv books(5) [OF ok] in \<open>auto simp: paid_upto_def elim!: unregister_okE\<close>)
  show "paid_upto a p e s'"
    if ok: "withdraw_from_unregistered_operator T origin q s = (Inr (), s')" and inv: "paid_upto a p e s"
    by (rule paid_upto_same [OF inv])
      (use ok inv books(6) [OF ok] in \<open>auto simp: paid_upto_def elim!: withdraw_from_unregistered_operator_okE\<close>)
  show "paid_upto a p e s'"
    if ok: "withdraw_unstaked T origin s = (Inr (), s')" and inv: "paid_upto a p e s"
    by (rule paid_upto_same [OF inv])
      (use ok inv books(7) [OF ok] in \<open>auto simp: paid_upto_def elim!: withdraw_unstaked_okE\<close>)
  show "paid_upto a p e s'"
    if ok: "claim_operator T origin q e' s = (Inr (), s')" and inv: "paid_upto a p e s"
    by (rule paid_upto_same [OF inv])
      (use ok inv books(8) [OF ok] in \<open>auto simp: paid_upto_def elim!: claim_operator_okE\<close>)
qed

lemma staking_step_paid:
  assumes "staking_step T s s'" "0 < MinimumStakingAmount T" "paid_upto a p e s"
  shows "paid_upto a p e s'"
  by (rule staking_step_rel [where P = "paid_upto a p e" and Q = "paid_upto a p e", OF assms(1,3)])
    (assumption | rule other_paid stake_paid unstake_paid [OF _ _ assms(2)] claim_staker_paid withdraw_staker_paid
      new_era_paid; assumption)+

interpretation staker_paid: invariant_system "staking_step T"
  "\<lambda>s. 0 < MinimumStakingAmount T \<longrightarrow> paid_upto a p e s" for T a p e
  by unfold_locales (blast intro: staking_step_paid)

section \<open>Operators\<close>

lemma rotate_loop_other:
  "rotate_loop w c n ps consumed s = (weight, s') \<Longrightarrow> e \<noteq> n \<Longrightarrow>
     ProviderEraStake s' (p, e) = ProviderEraStake s (p, e)"
  by (induction w c n ps consumed s rule: rotate_loop.induct)
    (auto simp: Let_def split: option.splits provider_state.splits)

lemma on_initialize_other_eras:
  assumes "on_initialize T now s = Some (w, s')" "e \<noteq> CurrentEra s + 1"
  shows "ProviderEraStake s' (p, e) = ProviderEraStake s (p, e)"
proof -
  let ?s = "reward_balance_snapshot (CurrentEra s) (BlockRewardAccumulator s)
    (s\<lparr>CurrentEra := CurrentEra s + 1, BlockRewardAccumulator := RewardInfo_default\<rparr>)"
  obtain v s4 where rot: "rotate_staking_info T (CurrentEra s) ?s = (v, s4)" by (metis surj_pair)
  have "ProviderEraStake ?s = ProviderEraStake s"
    by (simp add: reward_balance_snapshot_def Let_def)
  moreover have "ProviderEraStake s4 (p, e) = ProviderEraStake ?s (p, e)"
    using rotate_loop_other [OF rot [unfolded rotate_staking_info_def]] assms(2) by blast
  ultimately show ?thesis
    using assms(1) rot by (auto simp: on_initialize_def Let_def split: if_splits)
qed

text \<open>The reward of era \<open>e\<close> is paid to the operator of provider \<open>p\<close>.\<close>

definition operator_paid :: "'p \<Rightarrow> era_index \<Rightarrow> ('a, 'p, 'c) staking \<Rightarrow> bool" where
  "operator_paid p e s \<longleftrightarrow> e < CurrentEra s \<and> psi_reward_claimed (provider_stake s p e)"

lemma operator_paid_change:
  assumes "operator_paid p e s" "CurrentEra s' = CurrentEra s"
    and "ProviderEraStake s' = (ProviderEraStake s)((q, d) \<mapsto> t)" "d = CurrentEra s \<or> psi_reward_claimed t"
  shows "operator_paid p e s'"
  using assms by (auto simp: operator_paid_def provider_stake_def)

lemma operator_paid_same:
  assumes "operator_paid p e s" "CurrentEra s' = CurrentEra s" "ProviderEraStake s' = ProviderEraStake s"
  shows "operator_paid p e s'"
  using assms by (simp add: operator_paid_def provider_stake_def)

lemma era_stakes_change:
  "stake T origin q v s = (Inr (), s') \<Longrightarrow> CurrentEra s' = CurrentEra s \<and>
     (\<exists>t. ProviderEraStake s' = (ProviderEraStake s)((q, CurrentEra s) \<mapsto> t))"
  "unstake T origin q v s = (Inr (), s') \<Longrightarrow> CurrentEra s' = CurrentEra s \<and>
     (\<exists>t. ProviderEraStake s' = (ProviderEraStake s)((q, CurrentEra s) \<mapsto> t))"
  "claim_operator T origin q d s = (Inr (), s') \<Longrightarrow> CurrentEra s' = CurrentEra s \<and>
     (\<exists>t. psi_reward_claimed t \<and> ProviderEraStake s' = (ProviderEraStake s)((q, d) \<mapsto> t))"
  by (fastforce elim!: stake_okE unstake_okE, fastforce elim!: unstake_okE,
      erule claim_operator_okE, simp, metis provider_stake_info.select_convs(3)
        provider_stake_info.surjective provider_stake_info.update_convs(3))

lemma era_stakes_same:
  "withdraw_from_unregistered_staker T origin q s = (Inr (), s') \<Longrightarrow>
     CurrentEra s' = CurrentEra s \<and> ProviderEraStake s' = ProviderEraStake s"
  "withdraw_from_unregistered_operator T origin q s = (Inr (), s') \<Longrightarrow>
     CurrentEra s' = CurrentEra s \<and> ProviderEraStake s' = ProviderEraStake s"
  "withdraw_unstaked T origin s = (Inr (), s') \<Longrightarrow>
     CurrentEra s' = CurrentEra s \<and> ProviderEraStake s' = ProviderEraStake s"
  "claim_staker T origin q s = (Inr (), s') \<Longrightarrow>
     CurrentEra s' = CurrentEra s \<and> ProviderEraStake s' = ProviderEraStake s"
  "unregister q s = (Inr (), s') \<Longrightarrow>
     CurrentEra s' = CurrentEra s \<and> ProviderEraStake s' = ProviderEraStake s"
  by (auto elim!: withdraw_from_unregistered_staker_okE withdraw_from_unregistered_operator_okE
      withdraw_unstaked_okE claim_staker_okE unregister_okE)

lemma new_era_operator_paid:
  assumes on: "on_initialize T now s = Some (w, s')" "era_ends T now s" "CurrentEra s < - 1"
    and inv: "operator_paid p e s"
  shows "operator_paid p e s'"
proof -
  have e: "e < CurrentEra s + 1"
    using inv less_trans [OF _ next_era_later [OF on(3)]] by (simp add: operator_paid_def)
  then have "provider_stake s' p e = provider_stake s p e"
    using on_initialize_other_eras [OF on(1)] by (auto simp: provider_stake_def)
  with e inv on_initialize_new_era(2) [OF on(1,2)] show ?thesis by (simp add: operator_paid_def)
qed

lemma operator_paid_calls:
  "stake T origin q v s = (Inr (), s') \<Longrightarrow> operator_paid p e s \<Longrightarrow> operator_paid p e s'"
  "unstake T origin q v s = (Inr (), s') \<Longrightarrow> operator_paid p e s \<Longrightarrow> operator_paid p e s'"
  "claim_operator T origin q d s = (Inr (), s') \<Longrightarrow> operator_paid p e s \<Longrightarrow> operator_paid p e s'"
  using era_stakes_change [of T origin q] operator_paid_change by metis+

lemma operator_paid_others:
  "withdraw_from_unregistered_staker T origin q s = (Inr (), s') \<Longrightarrow> operator_paid p e s \<Longrightarrow> operator_paid p e s'"
  "withdraw_from_unregistered_operator T origin q s = (Inr (), s') \<Longrightarrow> operator_paid p e s \<Longrightarrow> operator_paid p e s'"
  "withdraw_unstaked T origin s = (Inr (), s') \<Longrightarrow> operator_paid p e s \<Longrightarrow> operator_paid p e s'"
  "claim_staker T origin q s = (Inr (), s') \<Longrightarrow> operator_paid p e s \<Longrightarrow> operator_paid p e s'"
  "unregister q s = (Inr (), s') \<Longrightarrow> operator_paid p e s \<Longrightarrow> operator_paid p e s'"
  "operator_paid p e s \<Longrightarrow> operator_paid p e (s\<lparr>Balances := c\<rparr>)"
  "operator_paid p e s \<Longrightarrow> operator_paid p e (s\<lparr>ForceEra := f\<rparr>)"
  "operator_paid p e s \<Longrightarrow> operator_paid p e (s\<lparr>BlockRewardAccumulator := acc\<rparr>)"
  "RegisteredProviders s q = None \<Longrightarrow> operator_paid p e s \<Longrightarrow> operator_paid p e (enrol c b q s)"
  by (erule operator_paid_same; simp add: enrol_def | (drule era_stakes_same, simp add: operator_paid_def provider_stake_def))+

lemma staking_step_operator_paid:
  assumes "staking_step T s s'" "operator_paid p e s"
  shows "operator_paid p e s'"
  by (rule staking_step_rel [where P = "operator_paid p e" and Q = "operator_paid p e", OF assms])
    (assumption | rule operator_paid_calls operator_paid_others new_era_operator_paid; assumption)+

interpretation operator_once: invariant_system "staking_step T" "operator_paid p e" for T p e
  by unfold_locales (rule staking_step_operator_paid)

section \<open>Deposits\<close>

text \<open>The deposit of the operator of provider \<open>p\<close> has been returned.\<close>

definition deposit_returned :: "'p \<Rightarrow> ('a, 'p, 'c) staking \<Rightarrow> bool" where
  "deposit_returned p s =
     (case RegisteredProviders s p of None \<Rightarrow> False | Some info \<Rightarrow> pi_unreserved info)"

lemma deposit_returned_calls:
  "stake T origin q v s = (Inr (), s') \<Longrightarrow> deposit_returned p s \<Longrightarrow> deposit_returned p s'"
  "unstake T origin q v s = (Inr (), s') \<Longrightarrow> deposit_returned p s \<Longrightarrow> deposit_returned p s'"
  "claim_operator T origin q d s = (Inr (), s') \<Longrightarrow> deposit_returned p s \<Longrightarrow> deposit_returned p s'"
  "withdraw_from_unregistered_staker T origin q s = (Inr (), s') \<Longrightarrow> deposit_returned p s \<Longrightarrow> deposit_returned p s'"
  "withdraw_unstaked T origin s = (Inr (), s') \<Longrightarrow> deposit_returned p s \<Longrightarrow> deposit_returned p s'"
  "claim_staker T origin q s = (Inr (), s') \<Longrightarrow> deposit_returned p s \<Longrightarrow> deposit_returned p s'"
  by (simp_all add: deposit_returned_def successful_registry stake_registry)

lemma deposit_returned_registry:
  "withdraw_from_unregistered_operator T origin q s = (Inr (), s') \<Longrightarrow> deposit_returned p s \<Longrightarrow> deposit_returned p s'"
  "unregister q s = (Inr (), s') \<Longrightarrow> deposit_returned p s \<Longrightarrow> deposit_returned p s'"
  "deposit_returned p s \<Longrightarrow> deposit_returned p (s\<lparr>Balances := c\<rparr>)"
  "deposit_returned p s \<Longrightarrow> deposit_returned p (s\<lparr>ForceEra := f\<rparr>)"
  "deposit_returned p s \<Longrightarrow> deposit_returned p (s\<lparr>BlockRewardAccumulator := acc\<rparr>)"
  "RegisteredProviders s q = None \<Longrightarrow> deposit_returned p s \<Longrightarrow> deposit_returned p (enrol c b q s)"
  "on_initialize T now s = Some (w, s') \<Longrightarrow> era_ends T now s \<Longrightarrow> CurrentEra s < - 1 \<Longrightarrow>
     deposit_returned p s \<Longrightarrow> deposit_returned p s'"
  by (auto simp: deposit_returned_def enrol_def on_initialize_new_era(5)
      elim!: withdraw_from_unregistered_operator_okE unregister_okE split: option.splits if_splits)

interpretation deposit_once: invariant_system "staking_step T" "deposit_returned p" for T p
proof
  fix s t
  assume step: "staking_step T s t" and inv: "deposit_returned p s"
  show "deposit_returned p t"
    by (rule staking_step_rel [where P = "deposit_returned p" and Q = "deposit_returned p", OF step inv])
      (assumption | rule deposit_returned_calls deposit_returned_registry; assumption)+
qed

section \<open>Entries\<close>

text \<open>Provider \<open>p\<close> is entered in the register under the operator \<open>a\<close>.\<close>

definition entered_under :: "'a \<Rightarrow> 'p \<Rightarrow> ('a, 'p, 'c) staking \<Rightarrow> bool" where
  "entered_under a p s =
     (case RegisteredProviders s p of None \<Rightarrow> False | Some info \<Rightarrow> pi_operator info = a)"

lemma entered_under_calls:
  "stake T origin q v s = (Inr (), s') \<Longrightarrow> entered_under a p s \<Longrightarrow> entered_under a p s'"
  "unstake T origin q v s = (Inr (), s') \<Longrightarrow> entered_under a p s \<Longrightarrow> entered_under a p s'"
  "claim_operator T origin q d s = (Inr (), s') \<Longrightarrow> entered_under a p s \<Longrightarrow> entered_under a p s'"
  "withdraw_from_unregistered_staker T origin q s = (Inr (), s') \<Longrightarrow> entered_under a p s \<Longrightarrow> entered_under a p s'"
  "withdraw_unstaked T origin s = (Inr (), s') \<Longrightarrow> entered_under a p s \<Longrightarrow> entered_under a p s'"
  "claim_staker T origin q s = (Inr (), s') \<Longrightarrow> entered_under a p s \<Longrightarrow> entered_under a p s'"
  by (simp_all add: entered_under_def successful_registry stake_registry)

lemma entered_under_registry:
  "withdraw_from_unregistered_operator T origin q s = (Inr (), s') \<Longrightarrow> entered_under a p s \<Longrightarrow> entered_under a p s'"
  "unregister q s = (Inr (), s') \<Longrightarrow> entered_under a p s \<Longrightarrow> entered_under a p s'"
  "entered_under a p s \<Longrightarrow> entered_under a p (s\<lparr>Balances := c\<rparr>)"
  "entered_under a p s \<Longrightarrow> entered_under a p (s\<lparr>ForceEra := f\<rparr>)"
  "entered_under a p s \<Longrightarrow> entered_under a p (s\<lparr>BlockRewardAccumulator := acc\<rparr>)"
  "RegisteredProviders s q = None \<Longrightarrow> entered_under a p s \<Longrightarrow> entered_under a p (enrol c b q s)"
  "on_initialize T now s = Some (w, s') \<Longrightarrow> era_ends T now s \<Longrightarrow> CurrentEra s < - 1 \<Longrightarrow>
     entered_under a p s \<Longrightarrow> entered_under a p s'"
  by (auto simp: entered_under_def enrol_def on_initialize_new_era(5)
      elim!: withdraw_from_unregistered_operator_okE unregister_okE split: option.splits if_splits)

interpretation entries_stay: invariant_system "staking_step T" "entered_under a p" for T a p
proof
  fix s t
  assume step: "staking_step T s t" and inv: "entered_under a p s"
  show "entered_under a p t"
    by (rule staking_step_rel [where P = "entered_under a p" and Q = "entered_under a p", OF step inv])
      (assumption | rule entered_under_calls entered_under_registry; assumption)+
qed

lemma register_entered:
  assumes "entered_under a p s"
  shows "register T b p d s = (Inl (Module AlreadyRegisteredProvider), s)"
  using assms by (simp add: entered_under_def register_def split: option.splits)

end
