(* ===== verification/Sample.thy ===== *)
theory Sample
  imports Staking_Claims
begin

text \<open>
  A small instance of the framework, for evaluating the model on concrete inputs: accounts are
  numbers, a signed origin is \<open>Some\<close> account and the root is \<open>None\<close>, the currency is the free
  balance of each account, an imbalance is an amount, and a \<^verbatim>\<open>Perbill\<close> is a number of parts per
  billion. The laws the theorems assume of the framework hold for it.
\<close>

type_synonym purse = "nat \<Rightarrow> balance"

definition purse_take :: "purse \<Rightarrow> nat \<Rightarrow> balance \<Rightarrow> (unit + balance) \<times> purse" where
  "purse_take c a v = (if v \<le> c a then (Inr v, c(a := c a - v)) else (Inl (), c))"

definition purse_give :: "purse \<Rightarrow> nat \<Rightarrow> balance \<Rightarrow> purse" where
  "purse_give c a v = c(a := c a + v)"

definition sample_system :: "(nat option, nat) origin_ops" where
  "sample_system = \<lparr>ensure_signed = (\<lambda>orig. orig), ensure_root = (\<lambda>orig. orig = None), signed = Some\<rparr>"

definition sample_currency :: "(nat, purse, balance, unit) currency_ops" where
  "sample_currency =
     \<lparr>free_balance = (\<lambda>c a. c a), minimum_balance = 1,
      withdraw = (\<lambda>c a v _ _. purse_take c a v),
      resolve_creating = purse_give,
      set_lock = (\<lambda>c _ _ _ _. c), remove_lock = (\<lambda>c _ _. c),
      reserve = (\<lambda>c a v. case purse_take c a v of (r, c') \<Rightarrow> (map_sum id (\<lambda>_. ()) r, c')),
      unreserve = purse_give,
      transfer = (\<lambda>c a b v _. case purse_take c a v of
        (Inl e, c') \<Rightarrow> (Inl e, c') | (Inr i, c') \<Rightarrow> (Inr (), purse_give c' b i)),
      issue = (\<lambda>c v. (v, c)), peek = (\<lambda>i. i),
      split_imbalance = (\<lambda>i n. (min n i, i - min n i)),
      drop_imbalance = (\<lambda>c _. c)\<rparr>"

definition sample_perbill :: "nat perbill_ops" where
  "sample_perbill =
     \<lparr>from_rational = (\<lambda>p q. if unat q \<le> unat p then 1000000000 else unat p * 1000000000 div unat q),
      perbill_mul = (\<lambda>b x. of_nat (unat x * min b 1000000000 div 1000000000)),
      perbill_checked_add = (\<lambda>a b. if a + b \<le> 1000000000 then Some (a + b) else None),
      perbill_zero = 0, perbill_one = 1000000000,
      from_percent = (\<lambda>n. min 1000000000 (unat n * 10000000))\<rparr>"

definition sample_db_weight :: db_weight where
  "sample_db_weight =
     \<lparr>db_reads = (\<lambda>n. 25 * n), db_writes = (\<lambda>n. 100 * n), db_reads_writes = (\<lambda>n m. 25 * n + 100 * m)\<rparr>"

definition sample_iter :: "('k::linorder \<rightharpoonup> 'v) \<Rightarrow> ('k \<times> 'v) list" where
  "sample_iter m = map (\<lambda>k. (k, the (m k))) (sorted_list_of_set (dom m))"

lemma sample_iter_laws: "iter_laws sample_iter"
  by (auto simp: iter_laws_def sample_iter_def comp_def)

lemma sample_perbill_part: "perbill_part sample_perbill"
proof -
  have part: "unat x * min p 1000000000 div 1000000000 \<le> unat x" for x :: balance and p :: nat
    by (metis div_le_mono min.cobounded2 mult_le_mono2 nonzero_mult_div_cancel_right zero_neq_numeral)
  moreover have "unat x * min p 1000000000 div 1000000000 < 2 ^ 128" for x :: balance and p :: nat
    using part [of x p] unsigned_less [of x, where 'a = nat] by simp
  ultimately show ?thesis
    by (simp add: perbill_part_def sample_perbill_def word_le_nat_alt unat_of_nat)
qed

lemma sample_split_laws: "split_laws sample_currency"
  by (auto simp: split_laws_def sample_currency_def min_def word_le_nat_alt unat_sub)

text \<open>The staking pallet in it, with the providers \<open>False\<close> and \<open>True\<close> and small amounts.\<close>

definition sample_staking :: "(nat option, nat, bool, purse, balance, nat, unit) staking_config" where
  "sample_staking =
     \<lparr>System = sample_system, Currency = sample_currency, Perbill = sample_perbill,
      DbWeight = sample_db_weight, iter_providers = sample_iter, pallet_account = 0,
      BlockPerEra = 3, OperatorRewardPercentage = 800000000, RegisterDeposit = 100,
      MaxNumberOfStakersPerProvider = 2, MinimumStakingAmount = 10, MinimumRemainingAmount = 1,
      MaxUnlockingChunks = 2, UnbondingPeriod = 2, MaxEraStakeValues = 5\<rparr>"

lemma sample_staking_laws: "staking_laws sample_staking" "0 < MinimumStakingAmount sample_staking"
  by (simp_all add: staking_laws_def sample_staking_def sample_iter_laws)

definition sample_purse :: purse where
  "sample_purse = (\<lambda>_. 1000)"

lemmas sample_defs = sample_staking_def sample_system_def sample_currency_def sample_perbill_def
  sample_db_weight_def purse_take_def purse_give_def sample_purse_def

text \<open>What evaluates a call of the staking pallet on a concrete state.\<close>

lemmas staking_eval = sample_defs Let_def deposit_event_def mutate_era_info_def update_ledger_def
  update_staker_info_def ledger_def staker_info_of_def provider_stake_def
  available_staking_balance_def is_active_provider_def operator_stakers_split_def rewards_def
  unbonding_defs UnbondingInfo_add_def binary_search_by_def bsearch_loop.simps cmp_def reduce_def
  staker_info_defs remove_unstaked_head_def ProviderStakeInfo_default_def RewardInfo_default_def
  EraInfo_default_def ProviderInfo_new_def saturating_add_def saturating_sub_def checked_add_def
  len_u32_def genesis_def on_initialize_def reward_balance_snapshot_def rotate_staking_info_def
  sample_iter_def

lemmas staking_call_defs = register_def stake_def unstake_def withdraw_unstaked_def claim_staker_def
  claim_operator_def unregister_def withdraw_from_unregistered_staker_def
  withdraw_from_unregistered_operator_def force_new_era_def

text \<open>
  A run: the first block, account 5 registers provider \<open>True\<close> and stakes 50 on it, account 2 stakes
  30, a reward of 100 arrives, and the next era begins.
\<close>

definition sample_block :: "u32 \<Rightarrow> (nat, bool, purse) staking \<Rightarrow> (nat, bool, purse) staking" where
  "sample_block now s = (case on_initialize sample_staking now s of None \<Rightarrow> s | Some (w, s') \<Rightarrow> s')"

definition sample_start :: "(nat, bool, purse) staking" where
  "sample_start = sample_block 1 (genesis sample_purse)"

definition sample_registered :: "(nat, bool, purse) staking" where
  "sample_registered = snd (register sample_staking 5 True 150 sample_start)"

definition sample_staked :: "(nat, bool, purse) staking" where
  "sample_staked = snd (stake sample_staking (Some 2) True 30 sample_registered)"

definition sample_rewarded :: "(nat, bool, purse) staking" where
  "sample_rewarded = rewards sample_staking 100 sample_staked"

definition sample_next :: "(nat, bool, purse) staking" where
  "sample_next = sample_block 4 sample_rewarded"

lemma sample_staked_eq:
  "sample_staked =
     \<lparr>Ledger = [5 \<mapsto> \<lparr>locked = 50, unbonding = \<lparr>unlocking_chunks = []\<rparr>\<rparr>,
                2 \<mapsto> \<lparr>locked = 30, unbonding = \<lparr>unlocking_chunks = []\<rparr>\<rparr>],
      CurrentEra = 1, BlockRewardAccumulator = \<lparr>ri_operators = 0, ri_stakers = 0\<rparr>,
      ForceEra = NotForcing,
      RegisteredProviders = [True \<mapsto> \<lparr>pi_operator = 5, pi_state = Registered, pi_unreserved = False\<rparr>],
      GeneralEraInfo =
        [0 \<mapsto> \<lparr>ei_rewards = \<lparr>ri_operators = 0, ri_stakers = 0\<rparr>, ei_staked = 0, ei_locked = 0\<rparr>,
         1 \<mapsto> \<lparr>ei_rewards = \<lparr>ri_operators = 0, ri_stakers = 0\<rparr>, ei_staked = 80, ei_locked = 80\<rparr>],
      ProviderEraStake =
        [(True, 1) \<mapsto> \<lparr>psi_total = 80, psi_number_of_stakers = 2, psi_reward_claimed = False\<rparr>],
      GeneralStakerInfo =
        [(5, True) \<mapsto> \<lparr>stakes = [\<lparr>es_staked = 50, es_era = 1\<rparr>]\<rparr>,
         (2, True) \<mapsto> \<lparr>stakes = [\<lparr>es_staked = 30, es_era = 1\<rparr>]\<rparr>],
      Balances = (\<lambda>_. 1000)(5 := 900),
      Events = [NewDapiStakingEra 1, Stake 5 True 50, Stake 2 True 30]\<rparr>"
  by (simp add: sample_staked_def sample_registered_def sample_start_def sample_block_def
      staking_call_defs staking_eval)

lemma sample_next_eq:
  "sample_next =
     \<lparr>Ledger = [5 \<mapsto> \<lparr>locked = 50, unbonding = \<lparr>unlocking_chunks = []\<rparr>\<rparr>,
                2 \<mapsto> \<lparr>locked = 30, unbonding = \<lparr>unlocking_chunks = []\<rparr>\<rparr>],
      CurrentEra = 2, BlockRewardAccumulator = \<lparr>ri_operators = 0, ri_stakers = 0\<rparr>,
      ForceEra = NotForcing,
      RegisteredProviders = [True \<mapsto> \<lparr>pi_operator = 5, pi_state = Registered, pi_unreserved = False\<rparr>],
      GeneralEraInfo =
        [0 \<mapsto> \<lparr>ei_rewards = \<lparr>ri_operators = 0, ri_stakers = 0\<rparr>, ei_staked = 0, ei_locked = 0\<rparr>,
         2 \<mapsto> \<lparr>ei_rewards = \<lparr>ri_operators = 0, ri_stakers = 0\<rparr>, ei_staked = 80, ei_locked = 80\<rparr>,
         1 \<mapsto> \<lparr>ei_rewards = \<lparr>ri_operators = 80, ri_stakers = 20\<rparr>, ei_staked = 80, ei_locked = 80\<rparr>],
      ProviderEraStake =
        [(True, 1) \<mapsto> \<lparr>psi_total = 80, psi_number_of_stakers = 2, psi_reward_claimed = False\<rparr>,
         (True, 2) \<mapsto> \<lparr>psi_total = 80, psi_number_of_stakers = 2, psi_reward_claimed = False\<rparr>],
      GeneralStakerInfo =
        [(5, True) \<mapsto> \<lparr>stakes = [\<lparr>es_staked = 50, es_era = 1\<rparr>]\<rparr>,
         (2, True) \<mapsto> \<lparr>stakes = [\<lparr>es_staked = 30, es_era = 1\<rparr>]\<rparr>],
      Balances = (\<lambda>_. 1000)(5 := 900, 0 := 1100),
      Events = [NewDapiStakingEra 1, Stake 5 True 50, Stake 2 True 30, NewDapiStakingEra 2]\<rparr>"
  by (simp add: sample_next_def sample_rewarded_def sample_staked_eq sample_block_def staking_eval)

text \<open>Each call is a step, so the states lie on runs from genesis.\<close>

lemma call_run:
  "(staking_step T)\<^sup>*\<^sup>* c s \<Longrightarrow> (staking_step T)\<^sup>*\<^sup>* c (snd (stake T origin p v s))"
  "(staking_step T)\<^sup>*\<^sup>* c s \<Longrightarrow> (staking_step T)\<^sup>*\<^sup>* c (snd (unstake T origin p v s))"
  "(staking_step T)\<^sup>*\<^sup>* c s \<Longrightarrow> (staking_step T)\<^sup>*\<^sup>* c (snd (claim_staker T origin p s))"
  "(staking_step T)\<^sup>*\<^sup>* c s \<Longrightarrow> (staking_step T)\<^sup>*\<^sup>* c (snd (claim_operator T origin p e s))"
  "(staking_step T)\<^sup>*\<^sup>* c s \<Longrightarrow> (staking_step T)\<^sup>*\<^sup>* c (snd (register T a p v s))"
  "(staking_step T)\<^sup>*\<^sup>* c s \<Longrightarrow> (staking_step T)\<^sup>*\<^sup>* c (rewards T i s)"
  by (metis rtranclp.rtrancl_into_rtrancl surjective_pairing stake_step unstake_step claim_staker_step
      claim_operator_step register_step rewards_step)+

lemma unregister_run:
  fixes T :: "('o, 'a, 'p, 'c, 'i, 'b, 'e) staking_config"
  assumes "(staking_step T)\<^sup>*\<^sup>* c s"
  shows "(staking_step T)\<^sup>*\<^sup>* c (snd (unregister p s :: ('a, 'p, 'c, 'e) staking_outcome))"
  using assms by (metis rtranclp.rtrancl_into_rtrancl surjective_pairing unregister_step)

lemma sample_block_run:
  assumes "(staking_step sample_staking)\<^sup>*\<^sup>* c s" "CurrentEra s \<noteq> - 1"
  shows "(staking_step sample_staking)\<^sup>*\<^sup>* c (sample_block now s)"
proof (cases "on_initialize sample_staking now s")
  case None
  with assms(1) show ?thesis by (simp add: sample_block_def)
next
  case (Some ws)
  then have "staking_step sample_staking s (snd ws)"
    using assms(2) initialize_step [of sample_staking now s "fst ws" "snd ws"]
    by (simp add: word_order.not_eq_extremum)
  with Some assms(1) show ?thesis by (simp add: sample_block_def split_beta)
qed

lemma sample_runs:
  "(staking_step sample_staking)\<^sup>*\<^sup>* (genesis sample_purse) sample_staked"
  "(staking_step sample_staking)\<^sup>*\<^sup>* (genesis sample_purse) sample_next"
proof -
  have "(staking_step sample_staking)\<^sup>*\<^sup>* (genesis sample_purse) sample_start"
    unfolding sample_start_def by (rule sample_block_run) (simp_all add: genesis_def)
  then show staked: "(staking_step sample_staking)\<^sup>*\<^sup>* (genesis sample_purse) sample_staked"
    unfolding sample_staked_def sample_registered_def by (intro call_run)
  have "CurrentEra sample_rewarded = 1" by (simp add: sample_rewarded_def sample_staked_eq rewards_def Let_def)
  then show "(staking_step sample_staking)\<^sup>*\<^sup>* (genesis sample_purse) sample_next"
    unfolding sample_next_def
    by (intro sample_block_run) (simp_all add: sample_rewarded_def call_run(6) [OF staked])
qed

end
