(* ===== verification/Validator_Set.thy ===== *)
theory Validator_Set
  imports Frame
begin

text \<open>
  The validator set pallet, \<^verbatim>\<open>pallets/validator-set/src/lib.rs\<close>: candidates register against a bond,
  candidates that stop producing blocks are removed when a session begins, and the session gets the
  invulnerable validators followed by the candidates that stay. The local runtime does not include
  the pallet; it is modelled on its own.
\<close>

section \<open>Configuration and storage\<close>

definition VALIDATOR_STAKING_ID :: lock_identifier where
  "VALIDATOR_STAKING_ID = ''valstake''"

definition IdentityValidator_convert :: "'t \<Rightarrow> 't option" where
  "IdentityValidator_convert t = Some t"

record 'a candidate_info =
  ci_who :: 'a
  ci_deposit :: balance

record ('o, 'a, 'c, 'i, 'e, 'v) validator_config =
  VSystem :: "('o, 'a) origin_ops"
  VCurrency :: "('a, 'c, 'i, 'e) currency_ops"
  UpdateOrigin :: "'o \<Rightarrow> bool"
  pot_account :: 'a
  MaxCandidates :: u32
  MinCandidates :: u32
  MaxInvulnerables :: u32
  KickThreshold :: u32
  ValidatorIdOf :: "'a \<Rightarrow> 'v option"
  is_registered :: "'v \<Rightarrow> bool"

datatype 'a validator_event =
    NewInvulnerables "'a list"
  | NewDesiredCandidates u32
  | NewCandidacyBond balance
  | CandidateAdded 'a balance
  | CandidateRemoved 'a

datatype validator_error =
    TooManyCandidates
  | TooFewCandidates
  | Unknown
  | Permission
  | AlreadyCandidate
  | NotCandidate
  | AlreadyInvulnerable
  | NoAssociatedValidatorId
  | ValidatorNotRegistered
  | TooLowFreeBalance

text \<open>The storage of the pallet, the block number of the system, the currency and the events.\<close>

record ('a, 'c) validator_set =
  Invulnerables :: "'a list"
  Candidates :: "'a candidate_info list"
  LastAuthoredBlock :: "'a \<rightharpoonup> u32"
  DesiredCandidates :: u32
  CandidacyBond :: balance
  block_number :: u32
  VBalances :: 'c
  VEvents :: "'a validator_event list"

type_synonym ('a, 'c, 'e) validator_outcome =
  "(('a, 'c) validator_set, (validator_error, 'e) dispatch_error) outcome"

text \<open>\<^verbatim>\<open>GenesisConfig::build\<close>: \<open>None\<close> is a failed assertion.\<close>

definition validator_genesis ::
    "('o, 'a, 'c, 'i, 'e, 'v) validator_config \<Rightarrow> 'a list \<Rightarrow> balance \<Rightarrow> u32 \<Rightarrow> 'c \<Rightarrow>
     ('a, 'c) validator_set option" where
  "validator_genesis V invulnerables bond desired c =
     (if length (remdups invulnerables) \<noteq> length invulnerables then None
      else if \<not> MaxInvulnerables V \<ge> len_u32 invulnerables then None
      else if \<not> MaxCandidates V \<ge> desired then None
      else Some \<lparr>Invulnerables = invulnerables, Candidates = [], LastAuthoredBlock = Map.empty,
                 DesiredCandidates = desired, CandidacyBond = bond, block_number = 0,
                 VBalances = c, VEvents = []\<rparr>)"

text \<open>\<^verbatim>\<open>last_authored_block\<close> is a \<^verbatim>\<open>ValueQuery\<close>.\<close>

definition last_authored_block :: "('a, 'c) validator_set \<Rightarrow> 'a \<Rightarrow> u32" where
  "last_authored_block s who = (case LastAuthoredBlock s who of None \<Rightarrow> 0 | Some n \<Rightarrow> n)"

definition validator_deposit_event :: "'a validator_event \<Rightarrow> ('a, 'c) validator_set \<Rightarrow> ('a, 'c) validator_set"
  where "validator_deposit_event ev s = s\<lparr>VEvents := VEvents s @ [ev]\<rparr>"

section \<open>Calls\<close>

text \<open>A too long list of invulnerables is only logged.\<close>

definition set_invulnerables ::
    "('o, 'a, 'c, 'i, 'e, 'v) validator_config \<Rightarrow> 'o \<Rightarrow> 'a list \<Rightarrow> ('a, 'c) validator_set \<Rightarrow>
     ('a, 'c, 'e) validator_outcome" where
  "set_invulnerables V origin invulnerables s =
     (if \<not> UpdateOrigin V origin then (Inl BadOrigin, s) else
      (Inr (), validator_deposit_event (NewInvulnerables invulnerables)
         (s\<lparr>Invulnerables := invulnerables\<rparr>)))"

definition register_as_candidate ::
    "('o, 'a, 'c, 'i, 'e, 'v) validator_config \<Rightarrow> 'o \<Rightarrow> ('a, 'c) validator_set \<Rightarrow>
     ('a, 'c, 'e) validator_outcome" where
  "register_as_candidate V origin s =
     (case ensure_signed (VSystem V) origin of None \<Rightarrow> (Inl BadOrigin, s) | Some who \<Rightarrow>
      if \<not> len_u32 (Candidates s) < DesiredCandidates s then (Inl (Module TooManyCandidates), s) else
      if who \<in> set (Invulnerables s) then (Inl (Module AlreadyInvulnerable), s) else
      case ValidatorIdOf V who of None \<Rightarrow> (Inl (Module NoAssociatedValidatorId), s)
      | Some validator_key \<Rightarrow>
      if \<not> is_registered V validator_key then (Inl (Module ValidatorNotRegistered), s) else
      let deposit = CandidacyBond s in
      if \<not> free_balance (VCurrency V) (VBalances s) who > deposit
      then (Inl (Module TooLowFreeBalance), s) else
      let incoming = \<lparr>ci_who = who, ci_deposit = deposit\<rparr> in
      if list_ex (\<lambda>candidate. ci_who candidate = who) (Candidates s)
      then (Inl (Module AlreadyCandidate), s) else
      let s1 = s\<lparr>VBalances :=
                 set_lock (VCurrency V) (VBalances s) VALIDATOR_STAKING_ID who deposit AllReasons,
               Candidates := Candidates s @ [incoming],
               LastAuthoredBlock := (LastAuthoredBlock s)(who \<mapsto> block_number s + KickThreshold V)\<rparr>
      in (Inr (), validator_deposit_event (CandidateAdded who deposit) s1))"

section \<open>Removing stale candidates\<close>

text \<open>\<^verbatim>\<open>Iterator::position\<close> and \<^verbatim>\<open>Vec::remove\<close>.\<close>

fun position :: "('x \<Rightarrow> bool) \<Rightarrow> 'x list \<Rightarrow> nat option" where
  "position P [] = None"
| "position P (x # xs) = (if P x then Some 0 else map_option Suc (position P xs))"

definition vec_remove :: "nat \<Rightarrow> 'x list \<Rightarrow> 'x list" where
  "vec_remove index xs = take index xs @ drop (Suc index) xs"

definition try_remove_candidate ::
    "('o, 'a, 'c, 'i, 'e, 'v) validator_config \<Rightarrow> 'a \<Rightarrow> ('a, 'c) validator_set \<Rightarrow>
     (validator_error + nat) \<times> ('a, 'c) validator_set" where
  "try_remove_candidate V who s =
     (case position (\<lambda>candidate. ci_who candidate = who) (Candidates s) of
        None \<Rightarrow> (Inl NotCandidate, s)
      | Some index \<Rightarrow>
          let s1 = s\<lparr>VBalances := remove_lock (VCurrency V) (VBalances s) VALIDATOR_STAKING_ID who,
                     Candidates := vec_remove index (Candidates s),
                     LastAuthoredBlock := (LastAuthoredBlock s)(who := None)\<rparr>
          in (Inr (length (Candidates s1)), validator_deposit_event (CandidateRemoved who) s1))"

definition assemble_validators :: "('a, 'c) validator_set \<Rightarrow> 'a list \<Rightarrow> 'a list" where
  "assemble_validators s candidates = Invulnerables s @ candidates"

text \<open>
  The closure of \<^verbatim>\<open>filter_map\<close> in \<^verbatim>\<open>kick_stale_candidates\<close> reads and writes the storage, so the loop
  threads it. A failed removal is only logged.
\<close>

fun kick_loop ::
    "('o, 'a, 'c, 'i, 'e, 'v) validator_config \<Rightarrow> u32 \<Rightarrow> 'a candidate_info list \<Rightarrow>
     ('a, 'c) validator_set \<Rightarrow> 'a list \<times> ('a, 'c) validator_set" where
  "kick_loop V now [] s = ([], s)"
| "kick_loop V now (c # cs) s =
     (let last_block = last_authored_block s (ci_who c);
          since_last = saturating_sub now last_block in
      if since_last < KickThreshold V \<or> len_u32 (Candidates s) \<le> MinCandidates V then
        let (rest, s') = kick_loop V now cs s in (ci_who c # rest, s')
      else
        let (_, s1) = try_remove_candidate V (ci_who c) s in kick_loop V now cs s1)"

definition kick_stale_candidates ::
    "('o, 'a, 'c, 'i, 'e, 'v) validator_config \<Rightarrow> 'a candidate_info list \<Rightarrow> ('a, 'c) validator_set \<Rightarrow>
     'a list \<times> ('a, 'c) validator_set" where
  "kick_stale_candidates V candidates s = kick_loop V (block_number s) candidates s"

section \<open>Authorship and sessions\<close>

text \<open>The outcome of the transfer is ignored.\<close>

definition note_author ::
    "('o, 'a, 'c, 'i, 'e, 'v) validator_config \<Rightarrow> 'a \<Rightarrow> ('a, 'c) validator_set \<Rightarrow> ('a, 'c) validator_set" where
  "note_author V author s =
     (let cur = VCurrency V;
          pot = pot_account V;
          available =
            (case checked_sub (free_balance cur (VBalances s) pot) (minimum_balance cur) of
               None \<Rightarrow> 0 | Some x \<Rightarrow> x);
          reward = available div 2;
          (_, c) = transfer cur (VBalances s) pot author reward KeepAlive
      in s\<lparr>VBalances := c,
           LastAuthoredBlock := (LastAuthoredBlock s)(author \<mapsto> block_number s)\<rparr>)"

definition note_uncle :: "'a \<Rightarrow> u32 \<Rightarrow> ('a, 'c) validator_set \<Rightarrow> ('a, 'c) validator_set" where
  "note_uncle author age s = s"

definition new_session ::
    "('o, 'a, 'c, 'i, 'e, 'v) validator_config \<Rightarrow> u32 \<Rightarrow> ('a, 'c) validator_set \<Rightarrow>
     'a list option \<times> ('a, 'c) validator_set" where
  "new_session V index s =
     (let candidates = Candidates s;
          (active_candidates, s1) = kick_stale_candidates V candidates s;
          result = assemble_validators s1 active_candidates
      in (Some result, s1))"

section \<open>What a session keeps\<close>

text \<open>
  The invariant: no account is a candidate twice, and there are at most as many candidates as
  desired.
\<close>

definition candidates_ok :: "('a, 'c) validator_set \<Rightarrow> bool" where
  "candidates_ok s \<longleftrightarrow> distinct (map ci_who (Candidates s)) \<and>
     length (Candidates s) \<le> unat (DesiredCandidates s)"

lemma candidates_len:
  assumes "candidates_ok s"
  shows "unat (len_u32 (Candidates s)) = length (Candidates s)"
  using assms unsigned_less [of "DesiredCandidates s", where 'a = nat]
  by (intro len_u32_exact) (simp add: candidates_ok_def)

lemma position_first:
  assumes "\<forall>x\<in>set xs. \<not> P x" "P y"
  shows "position P (xs @ y # ys) = Some (length xs)"
  using assms by (induction xs) auto

lemma vec_remove_middle: "vec_remove (length xs) (xs @ y # ys) = xs @ ys"
  by (simp add: vec_remove_def)

lemma other_candidate:
  assumes "distinct (map ci_who (pre @ c # cs))" "x \<in> set pre \<or> x \<in> set cs"
  shows "ci_who x \<noteq> ci_who c"
  using assms by (auto simp: image_iff)

lemma try_remove_candidate_eq:
  assumes "Candidates s = pre @ c # cs" "distinct (map ci_who (pre @ c # cs))"
  obtains s' where "try_remove_candidate V (ci_who c) s = (Inr (length (pre @ cs)), s')"
    "Candidates s' = pre @ cs" "Invulnerables s' = Invulnerables s"
    "DesiredCandidates s' = DesiredCandidates s" "block_number s' = block_number s"
    "LastAuthoredBlock s' = (LastAuthoredBlock s)(ci_who c := None)"
proof -
  have "\<forall>x\<in>set pre. ci_who x \<noteq> ci_who c" using other_candidate [OF assms(2)] by blast
  then have "position (\<lambda>x. ci_who x = ci_who c) (Candidates s) = Some (length pre)"
    unfolding assms(1) by (intro position_first) auto
  then show thesis
    by (intro that [of "snd (try_remove_candidate V (ci_who c) s)"])
      (simp_all add: try_remove_candidate_def Let_def assms(1) vec_remove_middle validator_deposit_event_def)
qed

text \<open>
  What the loop promises for the candidates \<open>cs\<close> it still has to look at, when \<open>pre\<close> have stayed: it
  returns \<open>ks\<close> of them, these are what is left in the storage, not fewer than the minimum, and
  whoever is gone has been silent for the threshold.
\<close>

definition kick_keeps ::
    "('o, 'a, 'c, 'i, 'e, 'v) validator_config \<Rightarrow> u32 \<Rightarrow> 'a candidate_info list \<Rightarrow>
     'a candidate_info list \<Rightarrow> ('a, 'c) validator_set \<Rightarrow> 'a candidate_info list \<Rightarrow>
     ('a, 'c) validator_set \<Rightarrow> bool" where
  "kick_keeps V now pre cs s ks s' \<longleftrightarrow>
     Candidates s' = pre @ ks \<and> set ks \<subseteq> set cs \<and> length ks \<le> length cs \<and>
     distinct (map ci_who (pre @ ks)) \<and>
     min (unat (MinCandidates V)) (length (pre @ cs)) \<le> length (pre @ ks) \<and>
     (\<forall>c \<in> set cs. c \<notin> set ks \<longrightarrow>
        \<not> saturating_sub now (last_authored_block s (ci_who c)) < KickThreshold V) \<and>
     Invulnerables s' = Invulnerables s \<and> DesiredCandidates s' = DesiredCandidates s"

lemma kick_keeps_stay:
  "kick_keeps V now (pre @ [c]) cs s ks s' \<Longrightarrow> kick_keeps V now pre (c # cs) s (c # ks) s'"
  by (auto simp: kick_keeps_def)

lemma kick_keeps_remove:
  assumes "kick_keeps V now pre cs s1 ks s'" "distinct (map ci_who (pre @ c # cs))"
    and "Invulnerables s1 = Invulnerables s" "DesiredCandidates s1 = DesiredCandidates s"
    and "LastAuthoredBlock s1 = (LastAuthoredBlock s)(ci_who c := None)"
    and "\<not> saturating_sub now (last_authored_block s (ci_who c)) < KickThreshold V"
    and "unat (MinCandidates V) \<le> length (pre @ cs)"
  shows "kick_keeps V now pre (c # cs) s ks s'"
proof -
  have "last_authored_block s1 (ci_who x) = last_authored_block s (ci_who x)" if "x \<in> set cs" for x
    using other_candidate [OF assms(2)] that assms(5) by (auto simp: last_authored_block_def)
  with assms show ?thesis by (auto simp: kick_keeps_def)
qed

lemma kick_loop_kept:
  assumes "Candidates s = pre @ cs" "distinct (map ci_who (pre @ cs))" "length (pre @ cs) < 2 ^ 32"
    and "kick_loop V now cs s = (kept, s')"
  shows "\<exists>ks. kept = map ci_who ks \<and> kick_keeps V now pre cs s ks s'"
  using assms
proof (induction V now cs s arbitrary: pre kept rule: kick_loop.induct)
  case (1 V now s)
  then show ?case by (auto simp: kick_keeps_def)
next
  case (2 V now c cs s)
  show ?case
  proof (cases "saturating_sub now (last_authored_block s (ci_who c)) < KickThreshold V \<or>
      len_u32 (Candidates s) \<le> MinCandidates V")
    case True
    obtain rest where rest: "kick_loop V now cs s = (rest, s')" "kept = ci_who c # rest"
      using "2.prems"(4) True by (auto simp: Let_def split: prod.splits)
    have "\<exists>ks. rest = map ci_who ks \<and> kick_keeps V now (pre @ [c]) cs s ks s'"
      using "2.prems"(1,2,3) rest(1) by (intro "2.IH"(1) [OF refl refl True]) simp_all
    then show ?thesis using kick_keeps_stay rest(2) by (metis list.simps(9))
  next
    case False
    obtain s1 where s1: "try_remove_candidate V (ci_who c) s = (Inr (length (pre @ cs)), s1)"
        "Candidates s1 = pre @ cs" "Invulnerables s1 = Invulnerables s"
        "DesiredCandidates s1 = DesiredCandidates s"
        "LastAuthoredBlock s1 = (LastAuthoredBlock s)(ci_who c := None)"
      using try_remove_candidate_eq [OF "2.prems"(1,2)] by blast
    have loop: "kick_loop V now cs s1 = (kept, s')"
      using "2.prems"(4) False s1(1) by (simp add: Let_def)
    have many: "unat (MinCandidates V) \<le> length (pre @ cs)"
      using False "2.prems"(1,3) len_u32_exact [of "Candidates s"] by (auto simp: word_nat)
    have "\<exists>ks. kept = map ci_who ks \<and> kick_keeps V now pre cs s1 ks s'"
      using "2.prems"(2,3) loop by (intro "2.IH"(2) [OF refl refl False s1(1) [symmetric] refl s1(2)]) simp_all
    then show ?thesis
      using kick_keeps_remove [OF _ "2.prems"(2) s1(3,4,5) _ many] False by blast
  qed
qed

lemma new_session_kept:
  assumes "candidates_ok s" "new_session V index s = (result, s')"
  shows "\<exists>ks. result = Some (Invulnerables s @ map ci_who ks) \<and>
    kick_keeps V (block_number s) [] (Candidates s) s ks s'"
proof -
  obtain kept where loop: "kick_loop V (block_number s) (Candidates s) s = (kept, s')"
    and result: "result = Some (Invulnerables s' @ kept)"
    using assms(2)
    by (auto simp: new_session_def kick_stale_candidates_def assemble_validators_def Let_def
        split: prod.splits)
  have "length (Candidates s) < 2 ^ 32"
    using candidates_len [OF assms(1)] unsigned_less [of "len_u32 (Candidates s)", where 'a = nat] by simp
  then obtain ks where "kept = map ci_who ks" "kick_keeps V (block_number s) [] (Candidates s) s ks s'"
    using kick_loop_kept [of s "[]" "Candidates s", OF _ _ _ loop] assms(1)
    by (auto simp: candidates_ok_def)
  with result show ?thesis by (auto simp: kick_keeps_def)
qed

section \<open>The steps of the pallet\<close>

inductive validator_step ::
    "('o, 'a, 'c, 'i, 'e, 'v) validator_config \<Rightarrow> ('a, 'c) validator_set \<Rightarrow> ('a, 'c) validator_set \<Rightarrow> bool"
  for V :: "('o, 'a, 'c, 'i, 'e, 'v) validator_config" where
  set_invulnerables_step: "set_invulnerables V origin is s = (r, s') \<Longrightarrow> validator_step V s s'"
| register_as_candidate_step: "register_as_candidate V origin s = (r, s') \<Longrightarrow> validator_step V s s'"
| note_author_step: "validator_step V s (note_author V author s)"
| note_uncle_step: "validator_step V s (note_uncle author age s)"
| new_session_step: "new_session V index s = (r, s') \<Longrightarrow> validator_step V s s'"
| next_block_step: "validator_step V s (s\<lparr>block_number := block_number s + 1, VBalances := c\<rparr>)"

lemma register_as_candidate_okE:
  assumes "register_as_candidate V origin s = (Inr (), s')"
  obtains who where "ensure_signed (VSystem V) origin = Some who"
    "len_u32 (Candidates s) < DesiredCandidates s" "who \<notin> set (Invulnerables s)"
    "CandidacyBond s < free_balance (VCurrency V) (VBalances s) who"
    "\<forall>x\<in>set (Candidates s). ci_who x \<noteq> who"
    "Candidates s' = Candidates s @ [\<lparr>ci_who = who, ci_deposit = CandidacyBond s\<rparr>]"
    "LastAuthoredBlock s' = (LastAuthoredBlock s)(who \<mapsto> block_number s + KickThreshold V)"
    "DesiredCandidates s' = DesiredCandidates s" "Invulnerables s' = Invulnerables s"
    "block_number s' = block_number s"
  using assms unfolding register_as_candidate_def Let_def
  by (auto simp: list_ex_iff validator_deposit_event_def split: option.splits if_splits)

lemma register_as_candidate_refused:
  "register_as_candidate V origin s = (Inl err, s') \<Longrightarrow> s' = s"
  by (auto simp: register_as_candidate_def Let_def split: option.splits if_splits)

lemma register_as_candidate_candidates:
  assumes "register_as_candidate V origin s = (r, s')" "candidates_ok s"
  shows "candidates_ok s'"
proof (cases r)
  case (Inl err)
  then have "s' = s" using assms(1) register_as_candidate_refused by simp
  with assms(2) show ?thesis by simp
next
  case (Inr u)
  then have "register_as_candidate V origin s = (Inr (), s')" using assms(1) by simp
  then show ?thesis
    by (rule register_as_candidate_okE)
      (use assms(2) candidates_len [OF assms(2)] in \<open>auto simp: candidates_ok_def word_nat\<close>)
qed

interpretation validators: invariant_system "validator_step V" candidates_ok for V
proof
  fix s t
  assume "validator_step V s t" "candidates_ok s"
  then show "candidates_ok t"
  proof (cases rule: validator_step.cases)
    case (register_as_candidate_step origin r)
    then show ?thesis using \<open>candidates_ok s\<close> by (rule register_as_candidate_candidates)
  next
    case (new_session_step index r)
    then obtain ks where "kick_keeps V (block_number s) [] (Candidates s) s ks t"
      using new_session_kept [OF \<open>candidates_ok s\<close>] by blast
    then show ?thesis using \<open>candidates_ok s\<close> by (auto simp: kick_keeps_def candidates_ok_def)
  qed (auto simp: set_invulnerables_def note_author_def note_uncle_def validator_deposit_event_def
      candidates_ok_def Let_def split: if_splits prod.splits)
qed

lemma validator_genesis_candidates: "validator_genesis V is bond desired c = Some s \<Longrightarrow> candidates_ok s"
  by (auto simp: validator_genesis_def candidates_ok_def split: if_splits)

end
