(* ===== verification/Validator_Properties.thy ===== *)
theory Validator_Properties
  imports Sample Validator_Set
begin

text \<open>The properties of the validator set pallet, with an instance in the sample framework.\<close>

definition sample_validators :: "(nat option, nat, purse, balance, unit, nat) validator_config" where
  "sample_validators =
     \<lparr>VSystem = sample_system, VCurrency = sample_currency, UpdateOrigin = (\<lambda>orig. orig = None),
      pot_account = 0, MaxCandidates = 10, MinCandidates = 1, MaxInvulnerables = 5, KickThreshold = 10,
      ValidatorIdOf = IdentityValidator_convert, is_registered = (\<lambda>_. True)\<rparr>"

definition sample_validator_set :: "(nat, purse) validator_set" where
  "sample_validator_set =
     \<lparr>Invulnerables = [7], Candidates = [\<lparr>ci_who = 2, ci_deposit = 5\<rparr>, \<lparr>ci_who = 3, ci_deposit = 5\<rparr>],
      LastAuthoredBlock = [2 \<mapsto> 4, 3 \<mapsto> 25], DesiredCandidates = 4, CandidacyBond = 5,
      block_number = 30, VBalances = sample_purse, VEvents = []\<rparr>"

lemma sample_candidates_ok: "candidates_ok sample_validator_set"
  by (simp add: candidates_ok_def sample_validator_set_def)

text \<open>
  C34. From genesis on, whatever the calls, no account is a candidate twice and there are never more
  candidates than desired.
\<close>

theorem candidates_always:
  assumes "validator_genesis V is bond desired c = Some s0" "(validator_step V)\<^sup>*\<^sup>* s0 s"
  shows "distinct (map ci_who (Candidates s)) \<and> length (Candidates s) \<le> unat (DesiredCandidates s)"
  using validators.run_invar [OF assms(2) validator_genesis_candidates [OF assms(1)]]
  by (simp add: candidates_ok_def)

theorem candidates_always_witness:
  "length (Candidates (snd (register_as_candidate sample_validators (Some 2)
     (the (validator_genesis sample_validators [7] 5 4 sample_purse))))) = 1 \<and>
   distinct (map ci_who (Candidates (snd (register_as_candidate sample_validators (Some 2)
     (the (validator_genesis sample_validators [7] 5 4 sample_purse))))))"
proof -
  let ?s0 = "the (validator_genesis sample_validators [7] 5 4 sample_purse)"
  have g: "validator_genesis sample_validators [7] 5 4 sample_purse = Some ?s0"
    by (simp add: validator_genesis_def sample_validators_def len_u32_def)
  have "(validator_step sample_validators)\<^sup>*\<^sup>* ?s0
      (snd (register_as_candidate sample_validators (Some 2) ?s0))"
    by (metis r_into_rtranclp register_as_candidate_step surjective_pairing)
  from candidates_always [OF g this] show ?thesis
    by (simp add: register_as_candidate_def validator_genesis_def sample_validators_def sample_defs
        len_u32_def IdentityValidator_convert_def Let_def validator_deposit_event_def)
qed

text \<open>
  C33. A session gets the invulnerable validators followed by the candidates that stay, and these are
  exactly the candidates left in the storage. All of them were candidates before, at least the
  minimum number stays (or all, when there were fewer), and a candidate is removed only when it has
  not produced a block for the threshold.
\<close>

theorem session_validators:
  assumes "candidates_ok s" "new_session V index s = (result, s')"
  shows "result = Some (Invulnerables s @ map ci_who (Candidates s')) \<and>
    set (Candidates s') \<subseteq> set (Candidates s) \<and> distinct (map ci_who (Candidates s')) \<and>
    min (unat (MinCandidates V)) (length (Candidates s)) \<le> length (Candidates s') \<and>
    (\<forall>c. c \<in> set (Candidates s) \<longrightarrow> c \<notin> set (Candidates s') \<longrightarrow>
       KickThreshold V \<le> saturating_sub (block_number s) (last_authored_block s (ci_who c)))"
  using new_session_kept [OF assms] by (auto simp: kick_keeps_def not_less)

theorem session_validators_witness:
  "fst (new_session sample_validators 1 sample_validator_set) = Some [7, 3] \<and>
   distinct (map ci_who (Candidates (snd (new_session sample_validators 1 sample_validator_set))))"
proof -
  have "fst (new_session sample_validators 1 sample_validator_set) = Some [7, 3]"
    by (simp add: new_session_def kick_stale_candidates_def assemble_validators_def
        try_remove_candidate_def vec_remove_def last_authored_block_def saturating_sub_def len_u32_def
        validator_deposit_event_def sample_validator_set_def sample_validators_def sample_currency_def Let_def word_le_nat_alt)
  then show ?thesis
    using session_validators [OF sample_candidates_ok, of sample_validators 1, OF surjective_pairing] by simp
qed

text \<open>
  A candidate that produced a block within the threshold, or registered so recently that its grace
  period lasts, stays a candidate and is a validator of the session.
\<close>

theorem active_candidate_stays:
  assumes "candidates_ok s" "new_session V index s = (result, s')" "c \<in> set (Candidates s)"
    and "saturating_sub (block_number s) (last_authored_block s (ci_who c)) < KickThreshold V"
  shows "c \<in> set (Candidates s') \<and> (\<exists>vs. result = Some vs \<and> ci_who c \<in> set vs)"
  using new_session_kept [OF assms(1,2)] assms(3,4) by (auto simp: kick_keeps_def)

end
