(* ===== verification/Staking_Eras.thy ===== *)
theory Staking_Eras
  imports Staking_Shares
begin

text \<open>
  The totals of an era, \<^verbatim>\<open>GeneralEraInfo\<close>: from the first block on, the entry of the current era holds
  the sum of all stakes and the sum of all locked balances. The code adds to these totals with
  saturation, so the result is for runs in which everything locked together fits into a balance,
  as it does when the total issue of the currency does.
\<close>

section \<open>The sums\<close>

definition total_staked :: "('a, 'p, 'c) staking \<Rightarrow> nat" where
  "total_staked s = stake_sum (\<lambda>_. True) (\<lambda>i. unat (latest_staked_value i)) s"

definition total_locked :: "('a, 'p, 'c) staking \<Rightarrow> nat" where
  "total_locked s = msum (\<lambda>_ l. unat (locked l)) (Ledger s)"

text \<open>A step after which everything locked fits into a balance.\<close>

definition funded_step ::
    "('o, 'a, 'p, 'c, 'i, 'b, 'e) staking_config \<Rightarrow> ('a, 'p, 'c) staking \<Rightarrow> ('a, 'p, 'c) staking \<Rightarrow> bool" where
  "funded_step T s s' \<longleftrightarrow> staking_step T s s' \<and> total_locked s' < 2 ^ 128"

lemma funded_run: "(funded_step T)\<^sup>*\<^sup>* s s' \<Longrightarrow> (staking_step T)\<^sup>*\<^sup>* s s'"
  by (rule mono_rtranclp [rule_format]) (auto simp: funded_step_def)

lemma staked_by_group:
  assumes "finite (dom (GeneralStakerInfo s))"
  shows "total_staked s = (\<Sum>a\<in>fst ` dom (GeneralStakerInfo s). staked_by s a)"
proof -
  let ?G = "GeneralStakerInfo s"
  have "total_staked s = (\<Sum>a\<in>fst ` dom ?G. \<Sum>k\<in>{k \<in> dom ?G. fst k = a}. unat (latest_staked_value (the (?G k))))"
    unfolding total_staked_def stake_sum_def msum_def by (simp add: sum.image_gen [OF assms])
  moreover have "(\<Sum>k\<in>{k \<in> dom ?G. fst k = a}. unat (latest_staked_value (the (?G k)))) = staked_by s a" for a
    unfolding staked_by_def stake_sum_def msum_def using assms
    by (simp add: sum.If_cases Int_def)
  ultimately show ?thesis by simp
qed

lemma total_staked_le_locked:
  assumes "books_balance s" "finite (dom (Ledger s))"
  shows "total_staked s \<le> total_locked s"
proof -
  note D = books_balanceD [OF assms(1)]
  let ?A = "fst ` dom (GeneralStakerInfo s)"
  have "total_staked s = (\<Sum>a\<in>?A. staked_by s a)" by (rule staked_by_group [OF D(2)])
  also have "\<dots> \<le> (\<Sum>a\<in>?A. unat (locked (ledger s a)))" by (intro sum_mono) (simp add: D(6))
  also have "\<dots> = (\<Sum>a\<in>?A \<inter> dom (Ledger s). unat (locked (ledger s a)))"
    using D(2) by (intro sum.mono_neutral_right)
      (auto simp: ledger_def AccountLedger_default_def domIff)
  also have "\<dots> \<le> (\<Sum>a\<in>dom (Ledger s). unat (locked (ledger s a)))"
    using assms(2) by (intro sum_mono2) auto
  also have "\<dots> = total_locked s"
    unfolding total_locked_def msum_def by (intro sum.cong) (auto simp: ledger_def)
  finally show ?thesis .
qed

section \<open>The invariant\<close>

definition era_sums :: "('a, 'p, 'c) staking \<Rightarrow> bool" where
  "era_sums s \<longleftrightarrow> books_balance s \<and> finite (dom (Ledger s)) \<and>
     (\<exists>x. GeneralEraInfo s (CurrentEra s) = Some x \<and>
        unat (ei_staked x) = total_staked s \<and> unat (ei_locked x) = total_locked s)"

lemma era_sumsD:
  assumes "era_sums s"
  shows "books_balance s" "finite (dom (Ledger s))" "total_staked s \<le> total_locked s"
    "total_locked s < 2 ^ 128"
proof -
  show *: "books_balance s" "finite (dom (Ledger s))" using assms by (simp_all add: era_sums_def)
  show "total_staked s \<le> total_locked s" using * by (rule total_staked_le_locked)
  obtain x :: era_info where "unat (ei_locked x) = total_locked s" using assms by (auto simp: era_sums_def)
  then show "total_locked s < 2 ^ 128" using unsigned_less [of "ei_locked x", where 'a = nat] by simp
qed

lemma total_staked_update:
  assumes "books_balance s"
    and "GeneralStakerInfo s' = upd_default StakerInfo_default (GeneralStakerInfo s) (a, p) i"
  shows "total_staked s' + unat (latest_staked_value (staker_info_of s a p)) =
    total_staked s + unat (latest_staked_value i)"
  using stake_sum_update [OF assms(2) books_balanceD(2) [OF assms(1)], of "\<lambda>i. unat (latest_staked_value i)" "\<lambda>_. True"]
  by (simp add: total_staked_def)

lemma total_locked_update:
  assumes "finite (dom (Ledger s))" "Ledger s' = upd_default AccountLedger_default (Ledger s) a l"
  shows "total_locked s' + unat (locked (ledger s a)) = total_locked s + unat (locked l)"
  using msum_upd_default [OF assms(1), of "\<lambda>_ l. unat (locked l)" a AccountLedger_default l]
  by (simp add: total_locked_def assms(2) ledger_def AccountLedger_default_def)

lemma era_sums_change:
  assumes inv: "era_sums s" and books: "books_balance s'"
    and L: "Ledger s' = upd_default AccountLedger_default (Ledger s) a l"
    and C: "CurrentEra s' = CurrentEra s"
    and E: "GeneralEraInfo s' = (GeneralEraInfo s)(CurrentEra s := map_option f (GeneralEraInfo s (CurrentEra s)))"
    and f: "\<And>x. unat (ei_staked x) = total_staked s \<Longrightarrow> unat (ei_locked x) = total_locked s \<Longrightarrow>
      unat (ei_staked (f x)) = total_staked s' \<and> unat (ei_locked (f x)) = total_locked s'"
  shows "era_sums s'"
  using inv books f by (auto simp: era_sums_def L C E)

lemma era_sums_same:
  assumes "era_sums s" "books_balance s'" "Ledger s' = Ledger s" "CurrentEra s' = CurrentEra s"
    "GeneralEraInfo s' = GeneralEraInfo s" "total_staked s' = total_staked s"
  shows "era_sums s'"
  using assms by (simp add: era_sums_def total_locked_def)

section \<open>Every call keeps the totals\<close>

lemma stake_era_sums:
  assumes "stake T origin p v s = (Inr (), s')" "era_sums s" and room: "total_locked s' < 2 ^ 128"
  shows "era_sums s'"
  using assms(1)
proof (rule stake_okE)
  fix a w i new_locked new_total
  assume i: "StakerInfo_stake (staker_info_of s a p) (CurrentEra s) w = Inr i"
    and nl: "unat new_locked = unat (locked (ledger s a)) + unat w"
    and s': "s' = deposit_event (Stake a p w)
       ((update_staker_info a p i
         (update_ledger T a ((ledger s a)\<lparr>locked := new_locked\<rparr>)
          (mutate_era_info (CurrentEra s)
             (\<lambda>x. x\<lparr>ei_staked := saturating_add (ei_staked x) w,
                     ei_locked := saturating_add (ei_locked x) w\<rparr>) s)))
        \<lparr>ProviderEraStake := (ProviderEraStake s)((p, CurrentEra s) \<mapsto>
           (if latest_staked_value (staker_info_of s a p) = 0
            then (provider_stake s p (CurrentEra s))\<lparr>psi_number_of_stakers :=
               saturating_add (psi_number_of_stakers (provider_stake s p (CurrentEra s))) 1\<rparr>
            else provider_stake s p (CurrentEra s))\<lparr>psi_total := new_total\<rparr>)\<rparr>)"
  note D = era_sumsD [OF assms(2)]
  let ?l = "(ledger s a)\<lparr>locked := new_locked\<rparr>"
  have books: "books_balance s'" by (rule stake_books [OF assms(1) D(1)])
  have L: "Ledger s' = upd_default AccountLedger_default (Ledger s) a ?l" by (simp add: s')
  have locked: "total_locked s' = total_locked s + unat w"
    using total_locked_update [OF D(2) L] nl by simp
  have staked: "total_staked s' = total_staked s + unat w"
    using total_staked_update [OF D(1), of s' a p i] staker_info.latest_stake [OF books_balanceD(3) [OF D(1)] i]
      staked_fits [OF D(1) nl] by (simp add: s')
  have C: "CurrentEra s' = CurrentEra s" by (simp add: s')
  have E: "GeneralEraInfo s' = (GeneralEraInfo s)(CurrentEra s := map_option
      (\<lambda>x. x\<lparr>ei_staked := saturating_add (ei_staked x) w, ei_locked := saturating_add (ei_locked x) w\<rparr>) (GeneralEraInfo s (CurrentEra s)))" by (simp add: s')
  show ?thesis
    by (rule era_sums_change [OF assms(2) books L C E])
      (use room D(3) in \<open>simp add: locked staked saturating_add_exact\<close>)
qed

lemma unstake_era_sums:
  assumes "unstake T origin p v s = (Inr (), s')" "era_sums s" "0 < MinimumStakingAmount T"
  shows "era_sums s'"
  using assms(1)
proof (rule unstake_okE)
  fix a w i whole
  let ?l = "(ledger s a)\<lparr>unbonding := UnbondingInfo_add (unbonding (ledger s a))
    \<lparr>chunk_amount = w, unlock_era = CurrentEra s + UnbondingPeriod T\<rparr>\<rparr>"
  assume whole: "whole \<longleftrightarrow>
      saturating_sub (latest_staked_value (staker_info_of s a p)) v < MinimumStakingAmount T"
    and w: "w = (if whole then latest_staked_value (staker_info_of s a p) else v)"
    and i: "StakerInfo_unstake (staker_info_of s a p) (CurrentEra s) w = Inr i"
    and s': "s' = deposit_event (Unstake a p w)
       ((update_staker_info a p i
         (mutate_era_info (CurrentEra s) (\<lambda>x. x\<lparr>ei_staked := saturating_sub (ei_staked x) w\<rparr>)
          (update_ledger T a ?l s)))
        \<lparr>ProviderEraStake := (ProviderEraStake s)((p, CurrentEra s) \<mapsto>
           (if whole
            then (provider_stake s p (CurrentEra s))\<lparr>psi_number_of_stakers :=
               saturating_sub (psi_number_of_stakers (provider_stake s p (CurrentEra s))) 1\<rparr>
            else provider_stake s p (CurrentEra s))\<lparr>psi_total :=
               saturating_sub (psi_total (provider_stake s p (CurrentEra s))) w\<rparr>)\<rparr>)"
  note D = era_sumsD [OF assms(2)]
  have le: "unat w \<le> unat (latest_staked_value (staker_info_of s a p))"
    using unstake_amount_le [OF assms(3) whole w] .
  have books: "books_balance s'" by (rule unstake_books [OF assms(1) D(1) assms(3)])
  have L: "Ledger s' = upd_default AccountLedger_default (Ledger s) a ?l" by (simp add: s')
  have locked: "total_locked s' = total_locked s"
    using total_locked_update [OF D(2) L] by simp
  have staked: "total_staked s' = total_staked s - unat w"
    using total_staked_update [OF D(1), of s' a p i] staker_info.latest_unstake [OF books_balanceD(3) [OF D(1)] i]
      le by (simp add: s' unat_saturating_sub)
  have C: "CurrentEra s' = CurrentEra s" by (simp add: s')
  have E: "GeneralEraInfo s' = (GeneralEraInfo s)(CurrentEra s := map_option
      (\<lambda>x. x\<lparr>ei_staked := saturating_sub (ei_staked x) w\<rparr>) (GeneralEraInfo s (CurrentEra s)))" by (simp add: s')
  show ?thesis
    by (rule era_sums_change [OF assms(2) books L C E]) (simp add: locked staked unat_saturating_sub)
qed

lemma withdraw_unstaked_era_sums:
  assumes "withdraw_unstaked T origin s = (Inr (), s')" "era_sums s"
  shows "era_sums s'"
  using assms(1)
proof (rule withdraw_unstaked_okE)
  fix a valid future w
  let ?l = "\<lparr>locked = saturating_sub (locked (ledger s a)) w, unbonding = future\<rparr>"
  assume part: "UnbondingInfo_partition (unbonding (ledger s a)) (CurrentEra s) = (valid, future)"
    and w: "w = UnbondingInfo_sum valid"
    and s': "s' = deposit_event (Withdrawn a w)
       (mutate_era_info (CurrentEra s) (\<lambda>x. x\<lparr>ei_locked := saturating_sub (ei_locked x) w\<rparr>)
         (update_ledger T a ?l s))"
  note D = era_sumsD [OF assms(2)]
  note B = books_balanceD [OF D(1)]
  have books: "books_balance s'" by (rule withdraw_unstaked_books [OF assms(1) D(1)])
  have fits: "chunk_total (unbonding (ledger s a)) < 2 ^ 128"
    using B(6) [of a] unsigned_less [of "locked (ledger s a)", where 'a = nat] by simp
  have le: "unat w \<le> unat (locked (ledger s a))"
    using unbonding_info.sum_split [OF part fits] unbonding_info.due_le_total [of "unbonding (ledger s a)" "CurrentEra s"]
      B(6) [of a] by (simp add: w)
  have L: "Ledger s' = upd_default AccountLedger_default (Ledger s) a ?l" by (simp add: s')
  have locked: "total_locked s' = total_locked s - unat w"
    using total_locked_update [OF D(2) L] le by (simp add: unat_saturating_sub)
  have staked: "total_staked s' = total_staked s"
    unfolding total_staked_def by (rule stake_sum_same) (simp add: s')
  have C: "CurrentEra s' = CurrentEra s" by (simp add: s')
  have E: "GeneralEraInfo s' = (GeneralEraInfo s)(CurrentEra s := map_option
      (\<lambda>x. x\<lparr>ei_locked := saturating_sub (ei_locked x) w\<rparr>) (GeneralEraInfo s (CurrentEra s)))" by (simp add: s')
  show ?thesis
    by (rule era_sums_change [OF assms(2) books L C E]) (simp add: locked staked unat_saturating_sub)
qed

lemma withdraw_from_unregistered_staker_era_sums:
  assumes "withdraw_from_unregistered_staker T origin p s = (Inr (), s')" "era_sums s"
  shows "era_sums s'"
  using assms(1)
proof (rule withdraw_from_unregistered_staker_okE)
  fix a info u w
  let ?l = "(ledger s a)\<lparr>locked := saturating_sub (locked (ledger s a)) w\<rparr>"
  assume w: "w = latest_staked_value (staker_info_of s a p)"
    and s': "s' = deposit_event (WithdrawFromUnregistered a p w)
       (mutate_era_info (CurrentEra s)
          (\<lambda>x. x\<lparr>ei_staked := saturating_sub (ei_staked x) w,
                  ei_locked := saturating_sub (ei_locked x) w\<rparr>)
          (update_staker_info a p StakerInfo_default (update_ledger T a ?l s)))"
  note D = era_sumsD [OF assms(2)]
  note B = books_balanceD [OF D(1)]
  have books: "books_balance s'" by (rule withdraw_from_unregistered_staker_books [OF assms(1) D(1)])
  have L: "Ledger s' = upd_default AccountLedger_default (Ledger s) a ?l" by (simp add: s')
  have locked: "total_locked s' = total_locked s - unat w"
    using total_locked_update [OF D(2) L] B(6) [of a] B(7) [of a p] by (simp add: w unat_saturating_sub)
  have staked: "total_staked s' = total_staked s - unat w"
    using total_staked_update [OF D(1), of s' a p StakerInfo_default] by (simp add: s' w)
  have C: "CurrentEra s' = CurrentEra s" by (simp add: s')
  have E: "GeneralEraInfo s' = (GeneralEraInfo s)(CurrentEra s := map_option
      (\<lambda>x. x\<lparr>ei_staked := saturating_sub (ei_staked x) w, ei_locked := saturating_sub (ei_locked x) w\<rparr>) (GeneralEraInfo s (CurrentEra s)))" by (simp add: s')
  show ?thesis
    by (rule era_sums_change [OF assms(2) books L C E]) (simp add: locked staked unat_saturating_sub)
qed

lemma claim_staker_era_sums:
  assumes "claim_staker T origin p s = (Inr (), s')" "era_sums s"
  shows "era_sums s'"
  using assms(1)
proof (rule claim_staker_okE)
  fix a e v i info era_info reward imb c
  assume claim: "StakerInfo_claim (staker_info_of s a p) = ((e, v), i)" and v: "0 < v"
    and e: "e < CurrentEra s"
    and s': "s' = deposit_event (Reward a p e reward)
       (update_staker_info a p i (s\<lparr>Balances := resolve_creating (Currency T) c a imb\<rparr>))"
  note D = era_sumsD [OF assms(2)]
  note B = books_balanceD [OF D(1)]
  have "v \<noteq> 0" using v by auto
  then have "total_staked s' = total_staked s"
    using total_staked_update [OF D(1), of s' a p i] staker_info.latest_claim [OF B(3,4) claim e]
    by (simp add: s')
  then show ?thesis
    by (intro era_sums_same [OF assms(2) claim_staker_books [OF assms(1) D(1)]]) (simp_all add: s')
qed

lemma new_era_sums:
  assumes "on_initialize T now s = Some (w, s')" "era_ends T now s" "CurrentEra s < - 1" "era_sums s"
  shows "era_sums s'"
proof -
  note f = on_initialize_new_era [OF assms(1,2)]
  note D = era_sumsD [OF assms(4)]
  have "total_staked s' = total_staked s" "total_locked s' = total_locked s"
    by (simp_all add: total_staked_def stake_sum_def total_locked_def f)
  with new_era_books [OF assms(1,2,3) D(1)] assms(4) show ?thesis
    by (auto simp: era_sums_def f Let_def)
qed

lemma other_era_sums:
  "era_sums s \<Longrightarrow> era_sums (s\<lparr>Balances := c\<rparr>)"
  "era_sums s \<Longrightarrow> era_sums (s\<lparr>ForceEra := f\<rparr>)"
  "era_sums s \<Longrightarrow> era_sums (s\<lparr>BlockRewardAccumulator := acc\<rparr>)"
  "RegisteredProviders s p = None \<Longrightarrow> era_sums s \<Longrightarrow> era_sums (enrol c a p s)"
  "unregister p s = (Inr (), s') \<Longrightarrow> era_sums s \<Longrightarrow> era_sums s'"
  "withdraw_from_unregistered_operator T origin p s = (Inr (), s') \<Longrightarrow> era_sums s \<Longrightarrow> era_sums s'"
  "claim_operator T origin p e s = (Inr (), s') \<Longrightarrow> era_sums s \<Longrightarrow> era_sums s'"
proof -
  have same: "era_sums t" if "era_sums s" "Ledger t = Ledger s" "CurrentEra t = CurrentEra s"
    "GeneralEraInfo t = GeneralEraInfo s" "GeneralStakerInfo t = GeneralStakerInfo s" for t
    using that by (intro era_sums_same [OF that(1) books_same [OF era_sumsD(1) [OF that(1)]]])
      (simp_all add: total_staked_def stake_sum_def)
  show "era_sums s \<Longrightarrow> era_sums (s\<lparr>Balances := c\<rparr>)" "era_sums s \<Longrightarrow> era_sums (s\<lparr>ForceEra := f\<rparr>)"
    "era_sums s \<Longrightarrow> era_sums (s\<lparr>BlockRewardAccumulator := acc\<rparr>)"
    "era_sums s \<Longrightarrow> era_sums (enrol c a p s)"
    by (rule same; simp add: enrol_def)+
  show "era_sums s'" if "unregister p s = (Inr (), s')" "era_sums s"
    using that(1) by (rule unregister_okE) (rule same [OF that(2)]; simp)
  show "era_sums s'" if "withdraw_from_unregistered_operator T origin p s = (Inr (), s')" "era_sums s"
    using that(1) by (rule withdraw_from_unregistered_operator_okE) (rule same [OF that(2)]; simp)
  show "era_sums s'" if "claim_operator T origin p e s = (Inr (), s')" "era_sums s"
    using that(1) by (rule claim_operator_okE) (rule same [OF that(2)]; simp)
qed

lemma funded_step_era_sums:
  assumes "funded_step T s s'" "0 < MinimumStakingAmount T" "era_sums s"
  shows "era_sums s'"
proof -
  let ?Q = "\<lambda>s. total_locked s < 2 ^ 128 \<longrightarrow> era_sums s"
  have step: "staking_step T s s'" using assms(1) by (simp add: funded_step_def)
  have "?Q s'"
    by (rule staking_step_rel [where P = era_sums and Q = ?Q, OF step assms(3)])
      (rule other_era_sums; assumption |
       rule impI, (assumption | rule other_era_sums stake_era_sums unstake_era_sums [OF _ _ assms(2)]
         withdraw_unstaked_era_sums claim_staker_era_sums withdraw_from_unregistered_staker_era_sums
         new_era_sums; assumption))+
  with assms(1) show ?thesis by (simp add: funded_step_def)
qed

interpretation era_totals: invariant_system "funded_step T"
  "\<lambda>s. 0 < MinimumStakingAmount T \<longrightarrow> era_sums s" for T
  by unfold_locales (blast intro: funded_step_era_sums)

text \<open>The first block starts the first era, with nothing staked yet.\<close>

lemma first_block_sums:
  assumes "on_initialize T now (genesis c) = Some (w, s)"
  shows "era_sums s"
proof -
  have ends: "era_ends T now (genesis c)" by (simp add: era_ends_def genesis_def)
  note f = on_initialize_new_era [OF assms ends]
  have "books_balance s"
    by (rule new_era_books [OF assms ends _ genesis_books]) (simp add: genesis_def word_gt_0)
  then show ?thesis
    by (simp add: era_sums_def f Let_def genesis_def total_staked_def stake_sum_def total_locked_def
        EraInfo_default_def)
qed

text \<open>What is staked on the active providers together is part of what is staked.\<close>

lemma active_stakes_le:
  assumes "finite (dom (GeneralStakerInfo s))" "finite A"
  shows "(\<Sum>p\<in>A. staked_on s p) \<le> total_staked s"
proof -
  let ?G = "GeneralStakerInfo s"
  let ?v = "\<lambda>k. unat (latest_staked_value (the (?G k)))"
  have on: "staked_on s p = (\<Sum>k\<in>{k \<in> dom ?G. snd k = p}. ?v k)" for p
    unfolding staked_on_def stake_sum_def msum_def using assms(1) by (simp add: sum.If_cases Int_def)
  have "(\<Sum>p\<in>A. staked_on s p) = (\<Sum>k\<in>(\<Union>p\<in>A. {k \<in> dom ?G. snd k = p}). ?v k)"
    unfolding on using assms by (intro sum.UNION_disjoint [symmetric]) auto
  also have "\<dots> \<le> (\<Sum>k\<in>dom ?G. ?v k)" using assms(1) by (intro sum_mono2) auto
  finally show ?thesis by (simp add: total_staked_def stake_sum_def msum_def)
qed

end
