(* ===== verification/Staking_Payouts.thy ===== *)
theory Staking_Payouts
  imports Staking_Claims Staking_Eras
begin

text \<open>
  What the staking pallet pays out over a whole run. A past era never changes: its rewards, its
  total and the totals of its providers stay as they were when it ended, and what is left to claim
  only shrinks. So the payments made for an era add up to no more than the rewards it collected,
  apart from the rounding of the single payments.
\<close>

section \<open>The past does not change\<close>

text \<open>The eras a provider can be paid for: all of them until it is unregistered.\<close>

definition claimable :: "('a, 'p, 'c) staking \<Rightarrow> 'p \<Rightarrow> era_index \<Rightarrow> bool" where
  "claimable s p e =
     (case RegisteredProviders s p of None \<Rightarrow> False
      | Some info \<Rightarrow> (case pi_state info of Registered \<Rightarrow> True | Unregistered u \<Rightarrow> e < u))"

definition era_kept :: "('a, 'p, 'c) staking \<Rightarrow> ('a, 'p, 'c) staking \<Rightarrow> era_index \<Rightarrow> bool" where
  "era_kept s s' e \<longleftrightarrow> GeneralEraInfo s' e = GeneralEraInfo s e \<and>
     (\<forall>p. psi_total (provider_stake s' p e) = psi_total (provider_stake s p e) \<and>
        (psi_reward_claimed (provider_stake s p e) \<longrightarrow> psi_reward_claimed (provider_stake s' p e)) \<and>
        unclaimed_on s' p e \<le> unclaimed_on s p e \<and>
        (RegisteredProviders s p \<noteq> None \<longrightarrow> claimable s' p e = claimable s p e))"

definition past_kept :: "('a, 'p, 'c) staking \<Rightarrow> ('a, 'p, 'c) staking \<Rightarrow> bool" where
  "past_kept s s' \<longleftrightarrow> CurrentEra s \<le> CurrentEra s' \<and>
     dom (RegisteredProviders s) \<subseteq> dom (RegisteredProviders s') \<and>
     (\<forall>e. e < CurrentEra s \<longrightarrow> era_kept s s' e)"

lemma past_kept_refl: "past_kept s s"
  by (simp add: past_kept_def era_kept_def)

lemma past_kept_trans:
  assumes "past_kept s t" "past_kept t u"
  shows "past_kept s u"
proof -
  have "era_kept s u e" if e: "e < CurrentEra s" for e
  proof -
    have "era_kept s t e" "era_kept t u e"
      using assms e unfolding past_kept_def by (auto intro: less_le_trans)
    moreover have "RegisteredProviders t p \<noteq> None" if "RegisteredProviders s p \<noteq> None" for p
      using assms(1) that unfolding past_kept_def by blast
    ultimately show ?thesis unfolding era_kept_def by (auto intro: order_trans)
  qed
  then show ?thesis using assms unfolding past_kept_def by (meson order_trans subset_trans)
qed

lemma claimable_same: "RegisteredProviders s' = RegisteredProviders s \<Longrightarrow> claimable s' = claimable s"
  by (simp add: claimable_def fun_eq_iff)

lemma claimable_registered: "claimable s p e \<Longrightarrow> RegisteredProviders s p \<noteq> None"
  by (cases "RegisteredProviders s p") (simp_all add: claimable_def)

lemma claimable_takes_part: "claimable s p e \<Longrightarrow> takes_part s p e"
  by (auto simp: claimable_def takes_part_def split: option.splits provider_state.splits)

lemma claimable_current:
  assumes "registry_ok s"
  shows "claimable s p (CurrentEra s) \<longleftrightarrow> is_active_provider p s"
  using assms
  by (fastforce simp: claimable_def is_active_provider_def registry_ok_def not_less
      split: option.splits provider_state.splits)

lemma unclaimed_update:
  assumes "books_balance s"
    and "GeneralStakerInfo s' = upd_default StakerInfo_default (GeneralStakerInfo s) (a, p) i"
  shows "unclaimed_on s' q e + (if q = p then unat (staked_at (staker_info_of s a p) e) else 0) =
    unclaimed_on s q e + (if q = p then unat (staked_at i e) else 0)"
  using stake_sum_update [OF assms(2) books_balanceD(2) [OF assms(1)],
      of "\<lambda>i. unat (staked_at i e)" "\<lambda>k. snd k = q"]
  by (auto simp: unclaimed_on_def)

text \<open>A call that writes nothing of the past but takes from what is left to claim.\<close>

lemma past_kept_unclaimed:
  assumes "CurrentEra s' = CurrentEra s" "RegisteredProviders s' = RegisteredProviders s"
    and "\<And>e. e \<noteq> CurrentEra s \<Longrightarrow> GeneralEraInfo s' e = GeneralEraInfo s e"
    and "\<And>q e. e \<noteq> CurrentEra s \<Longrightarrow> ProviderEraStake s' (q, e) = ProviderEraStake s (q, e)"
    and "\<And>q e. e < CurrentEra s \<Longrightarrow> unclaimed_on s' q e \<le> unclaimed_on s q e"
  shows "past_kept s s'"
proof -
  have "era_kept s s' e" if e: "e < CurrentEra s" for e
  proof -
    have "e \<noteq> CurrentEra s" using e by simp
    then have "GeneralEraInfo s' e = GeneralEraInfo s e" "provider_stake s' p e = provider_stake s p e" for p
      using assms(3,4) by (simp_all add: provider_stake_def)
    then show ?thesis using assms(5) [OF e] claimable_same [OF assms(2)] by (simp add: era_kept_def)
  qed
  then show ?thesis by (simp add: past_kept_def assms(1,2))
qed

lemma past_kept_history:
  assumes "books_balance s"
    and G: "GeneralStakerInfo s' = upd_default StakerInfo_default (GeneralStakerInfo s) (a, p) i"
    and less: "\<And>e. e < CurrentEra s \<Longrightarrow> staked_at i e \<le> staked_at (staker_info_of s a p) e"
    and "CurrentEra s' = CurrentEra s" "RegisteredProviders s' = RegisteredProviders s"
    and "\<And>e. e \<noteq> CurrentEra s \<Longrightarrow> GeneralEraInfo s' e = GeneralEraInfo s e"
    and "\<And>q e. e \<noteq> CurrentEra s \<Longrightarrow> ProviderEraStake s' (q, e) = ProviderEraStake s (q, e)"
  shows "past_kept s s'"
proof (rule past_kept_unclaimed [OF assms(4-7)])
  fix q e
  assume "e < CurrentEra s"
  then have "unat (staked_at i e) \<le> unat (staked_at (staker_info_of s a p) e)"
    using less by (simp add: word_le_nat_alt)
  then show "unclaimed_on s' q e \<le> unclaimed_on s q e"
    using unclaimed_update [OF assms(1) G, of q e] by (simp split: if_splits)
qed

lemma past_kept_same:
  assumes "GeneralStakerInfo s' = GeneralStakerInfo s" "CurrentEra s' = CurrentEra s"
    and "RegisteredProviders s' = RegisteredProviders s"
    and "\<And>e. e \<noteq> CurrentEra s \<Longrightarrow> GeneralEraInfo s' e = GeneralEraInfo s e"
    and "\<And>q e. e \<noteq> CurrentEra s \<Longrightarrow> ProviderEraStake s' (q, e) = ProviderEraStake s (q, e)"
  shows "past_kept s s'"
  by (rule past_kept_unclaimed [OF assms(2-5)]) (simp_all add: provider_sums_same(3) [OF assms(1)])

section \<open>What has been paid\<close>

text \<open>The rewards paid are read off the events, which every claim deposits.\<close>

definition event_sum ::
    "('p \<Rightarrow> era_index \<Rightarrow> balance \<Rightarrow> nat) \<Rightarrow> ('a, 'p) staking_event list \<Rightarrow> nat" where
  "event_sum w evs = (\<Sum>ev\<leftarrow>evs. case ev of Reward a p e r \<Rightarrow> w p e r | _ \<Rightarrow> 0)"

definition paid_on :: "('a, 'p, 'c) staking \<Rightarrow> 'p \<Rightarrow> era_index \<Rightarrow> nat" where
  "paid_on s p e = event_sum (\<lambda>q d r. if (q, d) = (p, e) then unat r else 0) (Events s)"

definition payments_on :: "('a, 'p, 'c) staking \<Rightarrow> 'p \<Rightarrow> era_index \<Rightarrow> nat" where
  "payments_on s p e = event_sum (\<lambda>q d r. if (q, d) = (p, e) then 1 else 0) (Events s)"

definition paid_in :: "('a, 'p, 'c) staking \<Rightarrow> era_index \<Rightarrow> nat" where
  "paid_in s e = event_sum (\<lambda>q d r. if d = e then unat r else 0) (Events s)"

definition payments_in :: "('a, 'p, 'c) staking \<Rightarrow> era_index \<Rightarrow> nat" where
  "payments_in s e = event_sum (\<lambda>q d r. if d = e then 1 else 0) (Events s)"

lemma event_sum_simps [simp]:
  "event_sum w [] = 0"
  "event_sum w (ev # evs) = (case ev of Reward a p e r \<Rightarrow> w p e r | _ \<Rightarrow> 0) + event_sum w evs"
  "event_sum w (evs @ evs') = event_sum w evs + event_sum w evs'"
  by (simp_all add: event_sum_def)

lemmas payment_sums = paid_on_def payments_on_def paid_in_def payments_in_def

lemma no_payment:
  "payments_on s p e = 0 \<Longrightarrow> paid_on s p e = 0"
proof -
  have "event_sum (\<lambda>q d r. if (q, d) = (p, e) then 1 else 0) evs = 0 \<Longrightarrow>
      event_sum (\<lambda>q d r. if (q, d) = (p, e) then unat r else 0) evs = 0" for evs :: "('x, 'y) staking_event list" and p
    by (induction evs) (auto split: staking_event.splits if_splits)
  then show "payments_on s p e = 0 \<Longrightarrow> paid_on s p e = 0" by (simp add: payment_sums)
qed

text \<open>What is paid in an era is what is paid for its providers.\<close>

lemma event_sum_providers:
  fixes evs :: "('a, 'p) staking_event list"
  assumes "finite A" "\<And>p. p \<notin> A \<Longrightarrow> event_sum (\<lambda>q d r. if (q, d) = (p, e) then 1 else 0) evs = 0"
  shows "event_sum (\<lambda>q d r. if d = e then w r else 0) evs =
    (\<Sum>p\<in>A. event_sum (\<lambda>q d r. if (q, d) = (p, e) then w r else 0) evs)"
  using assms(2)
proof (induction evs)
  case (Cons ev evs)
  have IH: "event_sum (\<lambda>q d r. if d = e then w r else 0) evs =
    (\<Sum>p\<in>A. event_sum (\<lambda>q d r. if (q, d) = (p, e) then w r else 0) evs)"
    using Cons by simp
  show ?case
  proof (cases ev)
    case (Reward a q d r)
    have "d = e \<Longrightarrow> q \<in> A" using Cons.prems [of q] Reward by auto
    then have "(\<Sum>p\<in>A. if q = p \<and> d = e then w r else 0) = (if d = e then w r else 0)"
      using assms(1) by auto
    then show ?thesis using IH Reward by (simp add: sum.distrib)
  qed (use IH in auto)
qed simp

lemma payments_by_provider:
  assumes "finite A" "\<And>p. p \<notin> A \<Longrightarrow> payments_on s p e = 0"
  shows "paid_in s e = (\<Sum>p\<in>A. paid_on s p e)" "payments_in s e = (\<Sum>p\<in>A. payments_on s p e)"
  using event_sum_providers [OF assms(1), of e "Events s"] assms(2) by (simp_all add: payment_sums)

text \<open>A call that pays nothing.\<close>

definition quiet :: "('a, 'p, 'c) staking \<Rightarrow> ('a, 'p, 'c) staking \<Rightarrow> bool" where
  "quiet s s' \<longleftrightarrow> past_kept s s' \<and> (\<forall>w. event_sum w (Events s') = event_sum w (Events s))"

lemma stake_quiet:
  assumes "stake T origin p v s = (Inr (), s')" "shares_ok s"
  shows "quiet s s'"
  using assms(1)
proof (rule stake_okE)
  fix a w i new_locked new_total
  assume i: "StakerInfo_stake (staker_info_of s a p) (CurrentEra s) w = Inr i"
    and s': "s' = deposit_event (Stake a p w)
       ((update_staker_info a p i
         (update_ledger T a ((ledger s a)\<lparr>locked := new_locked\<rparr>)
          (mutate_era_info (CurrentEra s)
             (\<lambda>x. x\<lparr>ei_staked := saturating_add (ei_staked x) w,
                     ei_locked := saturating_add (ei_locked x) w\<rparr>) s)))
        \<lparr>ProviderEraStake := (ProviderEraStake s)((p, CurrentEra s) \<mapsto>
           (if latest_staked_value (staker_info_of s a p) = 0
            then (provider_stake s p (CurrentEra s))\<lparr>psi_number_of_stakers :=
               saturating_add (psi_number_of_stakers (provider_stake s p (CurrentEra s))) 1\<rparr>
            else provider_stake s p (CurrentEra s))\<lparr>psi_total := new_total\<rparr>)\<rparr>)"
  note B = books_balanceD [OF shares_okD(1) [OF assms(2)]]
  have "past_kept s s'"
    by (rule past_kept_history [OF shares_okD(1) [OF assms(2)], of _ a p i])
      (use StakerInfo_stake_ok(3) [OF B(3) i] in \<open>auto simp: s'\<close>)
  then show ?thesis by (simp add: quiet_def s')
qed

lemma unstake_quiet:
  assumes "unstake T origin p v s = (Inr (), s')" "shares_ok s"
  shows "quiet s s'"
  using assms(1)
proof (rule unstake_okE)
  fix a w i whole
  assume i: "StakerInfo_unstake (staker_info_of s a p) (CurrentEra s) w = Inr i"
    and s': "s' = deposit_event (Unstake a p w)
       ((update_staker_info a p i
         (mutate_era_info (CurrentEra s) (\<lambda>x. x\<lparr>ei_staked := saturating_sub (ei_staked x) w\<rparr>)
          (update_ledger T a
             ((ledger s a)\<lparr>unbonding := UnbondingInfo_add (unbonding (ledger s a))
                \<lparr>chunk_amount = w, unlock_era = CurrentEra s + UnbondingPeriod T\<rparr>\<rparr>) s)))
        \<lparr>ProviderEraStake := (ProviderEraStake s)((p, CurrentEra s) \<mapsto>
           (if whole
            then (provider_stake s p (CurrentEra s))\<lparr>psi_number_of_stakers :=
               saturating_sub (psi_number_of_stakers (provider_stake s p (CurrentEra s))) 1\<rparr>
            else provider_stake s p (CurrentEra s))\<lparr>psi_total :=
               saturating_sub (psi_total (provider_stake s p (CurrentEra s))) w\<rparr>)\<rparr>)"
  note B = books_balanceD [OF shares_okD(1) [OF assms(2)]]
  have "past_kept s s'"
    by (rule past_kept_history [OF shares_okD(1) [OF assms(2)], of _ a p i])
      (use StakerInfo_unstake_ok(3) [OF B(3) i] in \<open>auto simp: s'\<close>)
  then show ?thesis by (simp add: quiet_def s')
qed

lemma withdrawals_quiet:
  "withdraw_from_unregistered_staker T origin p s = (Inr (), s') \<Longrightarrow> shares_ok s \<Longrightarrow> quiet s s'"
  "withdraw_unstaked T origin s = (Inr (), s') \<Longrightarrow> quiet s s'"
proof -
  show "quiet s s'" if "withdraw_from_unregistered_staker T origin p s = (Inr (), s')" "shares_ok s"
    using that(1)
  proof (rule withdraw_from_unregistered_staker_okE)
    fix a info u w
    assume s': "s' = deposit_event (WithdrawFromUnregistered a p w)
       (mutate_era_info (CurrentEra s)
          (\<lambda>x. x\<lparr>ei_staked := saturating_sub (ei_staked x) w,
                  ei_locked := saturating_sub (ei_locked x) w\<rparr>)
          (update_staker_info a p StakerInfo_default
            (update_ledger T a ((ledger s a)\<lparr>locked := saturating_sub (locked (ledger s a)) w\<rparr>) s)))"
    have "past_kept s s'"
      by (rule past_kept_history [OF shares_okD(1) [OF that(2)], of _ a p StakerInfo_default])
        (auto simp: s')
    then show "quiet s s'" by (simp add: quiet_def s')
  qed
  show "quiet s s'" if "withdraw_unstaked T origin s = (Inr (), s')"
    using that by (rule withdraw_unstaked_okE) (auto simp: quiet_def intro!: past_kept_same)
qed

lemma past_kept_register:
  assumes "GeneralStakerInfo s' = GeneralStakerInfo s" "CurrentEra s' = CurrentEra s"
    and "GeneralEraInfo s' = GeneralEraInfo s" "ProviderEraStake s' = ProviderEraStake s"
    and "dom (RegisteredProviders s) \<subseteq> dom (RegisteredProviders s')"
    and "\<And>p e. e < CurrentEra s \<Longrightarrow> RegisteredProviders s p \<noteq> None \<Longrightarrow> claimable s' p e = claimable s p e"
  shows "past_kept s s'"
  using assms provider_sums_same(3) [OF assms(1)]
  by (simp add: past_kept_def era_kept_def provider_stake_def)

lemma register_quiet:
  "RegisteredProviders s p = None \<Longrightarrow> quiet s (enrol c a p s)"
  "unregister p s = (Inr (), s') \<Longrightarrow> quiet s s'"
  "withdraw_from_unregistered_operator T origin p s = (Inr (), s') \<Longrightarrow> quiet s s'"
proof -
  show "quiet s (enrol c a p s)" if "RegisteredProviders s p = None"
    unfolding quiet_def using that
    by (intro conjI past_kept_register) (auto simp: enrol_def claimable_def)
  show "quiet s s'" if "unregister p s = (Inr (), s')"
    using that by (rule unregister_okE)
      (auto simp: quiet_def claimable_def intro!: past_kept_register split: if_splits)
  show "quiet s s'" if "withdraw_from_unregistered_operator T origin p s = (Inr (), s')"
    using that by (rule withdraw_from_unregistered_operator_okE)
      (auto simp: quiet_def claimable_def intro!: past_kept_register split: if_splits)
qed

lemma new_era_quiet:
  assumes on: "on_initialize T now s = Some (w, s')" "era_ends T now s" "CurrentEra s < - 1"
  shows "quiet s s'"
proof -
  note f = on_initialize_new_era [OF on(1,2)]
  have later: "CurrentEra s < CurrentEra s + 1" by (rule next_era_later [OF on(3)])
  have "era_kept s s' e" if e: "e < CurrentEra s" for e
  proof -
    have ne: "e \<noteq> CurrentEra s" "e \<noteq> CurrentEra s + 1" using e less_trans [OF e later] by auto
    have "provider_stake s' p e = provider_stake s p e" for p
      using on_initialize_other_eras [OF on(1) ne(2)] by (simp add: provider_stake_def)
    then show ?thesis
      using ne f(9) provider_sums_same(3) [OF f(6)] claimable_same [OF f(5)] by (simp add: era_kept_def Let_def)
  qed
  then have "past_kept s s'" using later f(2,5) by (simp add: past_kept_def less_imp_le)
  then show ?thesis by (simp add: quiet_def f(8))
qed

lemma other_quiet:
  "quiet s (s\<lparr>Balances := c\<rparr>)" "quiet s (s\<lparr>ForceEra := f\<rparr>)" "quiet s (s\<lparr>BlockRewardAccumulator := acc\<rparr>)"
  unfolding quiet_def by (intro conjI past_kept_same; simp)+

section \<open>A payment\<close>

text \<open>
  A claim of a staker: the provider could be paid for the era, the share \<open>v\<close> was left to claim, and
  the payment is its part of what the stakers of the provider get.
\<close>

lemma claim_staker_payment:
  assumes "claim_staker T origin p s = (Inr (), s')" "shares_ok s"
  obtains a e v x r where "e < CurrentEra s" "claimable s p e" "GeneralEraInfo s e = Some x"
    "v \<noteq> 0" "unclaimed_on s p e = unclaimed_on s' p e + unat v"
    "unclaimed_on s p e \<le> unat (psi_total (provider_stake s p e))"
    "r = perbill_mul (Perbill T) (from_rational (Perbill T) v (psi_total (provider_stake s p e)))
       (snd (operator_stakers_split T (provider_stake s p e) x))"
    "Events s' = Events s @ [Reward a p e r]" "past_kept s s'" "CurrentEra s' = CurrentEra s"
  using assms(1)
proof (rule claim_staker_okE)
  fix a e v i info x r imb c
  assume claim: "StakerInfo_claim (staker_info_of s a p) = ((e, v), i)" and v: "0 < v"
    and info: "RegisteredProviders s p = Some info" "\<forall>u. pi_state info = Unregistered u \<longrightarrow> e < u"
    and e: "e < CurrentEra s" and x: "GeneralEraInfo s e = Some x"
    and r: "r = perbill_mul (Perbill T) (from_rational (Perbill T) v (psi_total (provider_stake s p e)))
       (snd (operator_stakers_split T (provider_stake s p e) x))"
    and s': "s' = deposit_event (Reward a p e r)
       (update_staker_info a p i (s\<lparr>Balances := resolve_creating (Currency T) c a imb\<rparr>))"
  note D = shares_okD [OF assms(2)]
  note B = books_balanceD [OF D(1)]
  have v': "v \<noteq> 0" using v by auto
  note cl = StakerInfo_claim_ok [OF B(3,4) claim e v']
  have G: "GeneralStakerInfo s' = upd_default StakerInfo_default (GeneralStakerInfo s) (a, p) i" by (simp add: s')
  have can: "claimable s p e" using info by (auto simp: claimable_def split: provider_state.splits)
  have "unclaimed_on s p e = unclaimed_on s' p e + unat v"
    using unclaimed_update [OF D(1) G, of p e] cl(4,5) by simp
  moreover have "unclaimed_on s p e \<le> unat (psi_total (provider_stake s p e))"
    using D(3) claimable_takes_part [OF can] e by (simp add: totals_ok_def less_imp_le)
  moreover have "past_kept s s'"
    by (rule past_kept_history [OF D(1) G]) (use cl(5) in \<open>auto simp: s'\<close>)
  ultimately show thesis using that [OF e can x v' _ _ r] by (simp add: s')
qed

text \<open>A claim of an operator: the era was not claimed for the provider before and is afterwards.\<close>

lemma claim_operator_payment:
  assumes "claim_operator T origin p e s = (Inr (), s')"
  obtains a x where "e < CurrentEra s" "claimable s p e" "GeneralEraInfo s e = Some x"
    "\<not> psi_reward_claimed (provider_stake s p e)" "psi_total (provider_stake s p e) \<noteq> 0"
    "psi_reward_claimed (provider_stake s' p e)" "unclaimed_on s' = unclaimed_on s"
    "Events s' = Events s @ [Reward a p e (fst (operator_stakers_split T (provider_stake s p e) x))]"
    "past_kept s s'" "CurrentEra s' = CurrentEra s"
  using assms
proof (rule claim_operator_okE)
  fix info x r imb c
  assume info: "RegisteredProviders s p = Some info" "\<forall>u. pi_state info = Unregistered u \<longrightarrow> e < u"
    and e: "e < CurrentEra s" and x: "GeneralEraInfo s e = Some x"
    and free: "\<not> psi_reward_claimed (provider_stake s p e)" and total: "0 < psi_total (provider_stake s p e)"
    and r: "r = fst (operator_stakers_split T (provider_stake s p e) x)"
    and s': "s' = deposit_event (Reward (pi_operator info) p e r)
       (s\<lparr>Balances := resolve_creating (Currency T) c (pi_operator info) imb,
          ProviderEraStake := (ProviderEraStake s)((p, e) \<mapsto>
            (provider_stake s p e)\<lparr>psi_reward_claimed := True\<rparr>)\<rparr>)"
  have can: "claimable s p e" using info by (auto simp: claimable_def split: provider_state.splits)
  have ps: "provider_stake s' q d = (if (q, d) = (p, e)
      then (provider_stake s p e)\<lparr>psi_reward_claimed := True\<rparr> else provider_stake s q d)" for q d
    by (simp add: s' provider_stake_def)
  have un: "unclaimed_on s' = unclaimed_on s" by (rule provider_sums_same) (simp add: s')
  have reg: "claimable s' = claimable s" by (rule claimable_same) (simp add: s')
  have "past_kept s s'" unfolding past_kept_def era_kept_def ps un reg by (simp add: s')
  moreover have "psi_reward_claimed (provider_stake s' p e)" unfolding ps by simp
  ultimately show thesis
    using that [OF e can x free] total un r word_gt_0 by (simp add: s')
qed

section \<open>The payments for a provider\<close>

text \<open>
  The books of the payments for provider \<open>p\<close> and era \<open>e\<close>: the claimed shares of the stakers' part,
  half a unit of rounding for each payment, and the operator's part once it is claimed.
\<close>

definition payout_le :: "nat \<Rightarrow> nat \<Rightarrow> nat \<Rightarrow> nat \<Rightarrow> bool \<Rightarrow> nat \<Rightarrow> nat \<Rightarrow> bool" where
  "payout_le all unclaimed paid payments claimed operator stakers \<longleftrightarrow>
     2 * all * paid \<le> 2 * (all - unclaimed) * stakers + all * payments
       + (if claimed then 2 * all * operator else 0)"

lemma payout_le_mono:
  assumes "payout_le t u k n c opr st" "u' \<le> u" "c \<longrightarrow> c'"
  shows "payout_le t u' k n c' opr st"
proof -
  have "2 * (t - u) * st \<le> 2 * (t - u') * st" using assms(2) by (intro mult_le_mono1 mult_le_mono2) simp
  moreover have "(if c then 2 * t * opr else 0) \<le> (if c' then 2 * t * opr else 0)" using assms(3) by simp
  ultimately show ?thesis using assms(1) unfolding payout_le_def by linarith
qed

lemma payout_le_staker:
  assumes "payout_le t (u + v) k n c opr st" "u + v \<le> t" "2 * t * r \<le> 2 * v * st + t"
  shows "payout_le t u (k + r) (n + 1) c opr st"
proof -
  have "2 * (t - u) * st = 2 * (t - (u + v)) * st + 2 * v * st"
    using assms(2) by (simp flip: distrib_left distrib_right)
  then show ?thesis using assms(1,3) unfolding payout_le_def distrib_left by linarith
qed

lemma payout_le_operator:
  "payout_le t u k n False opr st \<Longrightarrow> payout_le t u (k + opr) (Suc n) True opr st"
  unfolding payout_le_def mult_Suc_right distrib_left by simp

lemma payout_le_total:
  assumes "payout_le t u k n c opr st" "t \<noteq> 0"
  shows "2 * k \<le> 2 * (opr + st) + n"
proof -
  have "2 * (t - u) * st \<le> 2 * t * st" by (intro mult_le_mono1 mult_le_mono2) simp
  then have "t * (2 * k) \<le> t * (2 * (opr + st) + n)"
    using assms(1) by (auto simp: payout_le_def algebra_simps split: if_splits)
  then show ?thesis using assms(2) by simp
qed

definition payout_bound ::
    "('o, 'a, 'p, 'c, 'i, 'b, 'e) staking_config \<Rightarrow> ('a, 'p, 'c) staking \<Rightarrow> 'p \<Rightarrow> era_index \<Rightarrow> era_info \<Rightarrow> bool" where
  "payout_bound T s p e x \<longleftrightarrow>
     payout_le (unat (psi_total (provider_stake s p e))) (unclaimed_on s p e) (paid_on s p e) (payments_on s p e)
       (psi_reward_claimed (provider_stake s p e))
       (unat (fst (operator_stakers_split T (provider_stake s p e) x)))
       (unat (snd (operator_stakers_split T (provider_stake s p e) x)))"

definition payouts_ok ::
    "('o, 'a, 'p, 'c, 'i, 'b, 'e) staking_config \<Rightarrow> ('a, 'p, 'c) staking \<Rightarrow> bool" where
  "payouts_ok T s \<longleftrightarrow> (\<forall>p e. payments_on s p e \<noteq> 0 \<longrightarrow>
     e < CurrentEra s \<and> claimable s p e \<and> psi_total (provider_stake s p e) \<noteq> 0 \<and>
     (\<exists>x. GeneralEraInfo s e = Some x \<and> payout_bound T s p e x))"

lemma operator_stakers_split_total:
  "psi_total ps' = psi_total ps \<Longrightarrow> operator_stakers_split T ps' x = operator_stakers_split T ps x"
  by (simp add: operator_stakers_split_def)

lemma payout_bound_kept:
  assumes "payout_bound T s p e x" "era_kept s s' e"
    and "paid_on s' p e = paid_on s p e" "payments_on s' p e = payments_on s p e"
  shows "payout_bound T s' p e x"
proof -
  have kept: "psi_total (provider_stake s' p e) = psi_total (provider_stake s p e)"
    "psi_reward_claimed (provider_stake s p e) \<longrightarrow> psi_reward_claimed (provider_stake s' p e)"
    "unclaimed_on s' p e \<le> unclaimed_on s p e"
    using assms(2) by (auto simp: era_kept_def)
  show ?thesis
    using payout_le_mono [OF assms(1) [unfolded payout_bound_def] kept(3,2)]
    unfolding payout_bound_def assms(3,4) operator_stakers_split_total [OF kept(1)] kept(1) .
qed

lemma payouts_quiet:
  assumes "quiet s s'" "payouts_ok T s"
  shows "payouts_ok T s'"
  unfolding payouts_ok_def
proof (intro allI impI)
  fix p e
  have same: "paid_on s' p e = paid_on s p e" "payments_on s' p e = payments_on s p e" for p e
    using assms(1) by (simp_all add: quiet_def payment_sums)
  assume "payments_on s' p e \<noteq> 0"
  then obtain x where s: "e < CurrentEra s" "claimable s p e" "psi_total (provider_stake s p e) \<noteq> 0"
    "GeneralEraInfo s e = Some x" "payout_bound T s p e x"
    using assms(2) by (auto simp: payouts_ok_def same)
  have past: "past_kept s s'" using assms(1) by (simp add: quiet_def)
  then have kept: "era_kept s s' e" using s(1) by (simp add: past_kept_def)
  have "RegisteredProviders s p \<noteq> None" using s(2) by (rule claimable_registered)
  with s kept past less_le_trans [OF s(1)] payout_bound_kept [OF s(5) kept same]
  show "e < CurrentEra s' \<and> claimable s' p e \<and> psi_total (provider_stake s' p e) \<noteq> 0 \<and>
     (\<exists>x. GeneralEraInfo s' e = Some x \<and> payout_bound T s' p e x)"
    by (auto simp: past_kept_def era_kept_def)
qed

text \<open>A payment for \<open>(p, e)\<close> leaves the books of the others alone; its own have to be checked.\<close>

lemma payouts_payment:
  assumes inv: "payouts_ok T s" and past: "past_kept s s'" and C: "CurrentEra s' = CurrentEra s"
    and ev: "Events s' = Events s @ [Reward a p e r]"
    and e: "e < CurrentEra s" "claimable s p e" "GeneralEraInfo s e = Some x"
    and total: "psi_total (provider_stake s p e) \<noteq> 0"
    and bound: "payout_bound T s p e x \<Longrightarrow> payout_bound T s' p e x"
  shows "payouts_ok T s'"
  unfolding payouts_ok_def
proof (intro allI impI)
  fix q d
  assume paid: "payments_on s' q d \<noteq> 0"
  have kept: "era_kept s s' d" if "d < CurrentEra s" for d using past that by (simp add: past_kept_def)
  have start: "payout_bound T s p e x"
  proof (cases "payments_on s p e = 0")
    case True
    then show ?thesis by (simp add: payout_bound_def payout_le_def no_payment)
  next
    case False
    then show ?thesis using inv e(3) unfolding payouts_ok_def by fastforce
  qed
  show "d < CurrentEra s' \<and> claimable s' q d \<and> psi_total (provider_stake s' q d) \<noteq> 0 \<and>
     (\<exists>x. GeneralEraInfo s' d = Some x \<and> payout_bound T s' q d x)"
  proof (cases "(q, d) = (p, e)")
    case True
    have "RegisteredProviders s p \<noteq> None" using e(2) by (rule claimable_registered)
    with True e total bound [OF start] kept [OF e(1)] C show ?thesis by (auto simp: era_kept_def)
  next
    case False
    then have same: "paid_on s' q d = paid_on s q d" "payments_on s' q d = payments_on s q d"
      by (auto simp: payment_sums ev)
    with paid obtain y where s: "d < CurrentEra s" "claimable s q d" "psi_total (provider_stake s q d) \<noteq> 0"
      "GeneralEraInfo s d = Some y" "payout_bound T s q d y"
      using inv by (auto simp: payouts_ok_def)
    have "RegisteredProviders s q \<noteq> None" using s(2) by (rule claimable_registered)
    with s kept [OF s(1)] payout_bound_kept [OF s(5) kept [OF s(1)] same] C
    show ?thesis by (auto simp: era_kept_def)
  qed
qed

lemma claim_staker_payouts:
  assumes "claim_staker T origin p s = (Inr (), s')" "shares_ok s" "payouts_ok T s"
    and rounds: "perbill_rounds (Perbill T)"
  shows "payouts_ok T s'"
  using assms(1,2)
proof (rule claim_staker_payment)
  fix a e v x r
  let ?ps = "provider_stake s p e"
  assume e: "e < CurrentEra s" "claimable s p e" "GeneralEraInfo s e = Some x"
    and v: "v \<noteq> 0" "unclaimed_on s p e = unclaimed_on s' p e + unat v"
      "unclaimed_on s p e \<le> unat (psi_total ?ps)"
    and r: "r = perbill_mul (Perbill T) (from_rational (Perbill T) v (psi_total ?ps))
       (snd (operator_stakers_split T ?ps x))"
    and s': "Events s' = Events s @ [Reward a p e r]" "past_kept s s'" "CurrentEra s' = CurrentEra s"
  have total: "psi_total ?ps \<noteq> 0" using v by (auto simp: word_nat)
  have kept: "era_kept s s' e" using s'(2) e(1) by (simp add: past_kept_def)
  have tot': "psi_total (provider_stake s' p e) = psi_total ?ps"
    and mark: "psi_reward_claimed ?ps \<longrightarrow> psi_reward_claimed (provider_stake s' p e)"
    using kept by (auto simp: era_kept_def)
  have paid: "paid_on s' p e = paid_on s p e + unat r" "payments_on s' p e = payments_on s p e + 1"
    by (simp_all add: payment_sums s'(1))
  show ?thesis
  proof (rule payouts_payment [OF assms(3) s'(2,3,1) e total])
    assume "payout_bound T s p e x"
    note payout_le_staker [OF this [unfolded payout_bound_def v(2)] v(3) [unfolded v(2)]
        perbill_share [OF rounds total, of v "snd (operator_stakers_split T ?ps x)", folded r]]
    then show "payout_bound T s' p e x"
      unfolding payout_bound_def operator_stakers_split_total [OF tot'] tot' paid
      by (rule payout_le_mono [OF _ order_refl mark])
  qed
qed

lemma claim_operator_payouts:
  assumes "claim_operator T origin p e s = (Inr (), s')" "payouts_ok T s"
  shows "payouts_ok T s'"
  using assms(1)
proof (rule claim_operator_payment)
  fix a x
  let ?ps = "provider_stake s p e"
  assume e: "e < CurrentEra s" "claimable s p e" "GeneralEraInfo s e = Some x"
    and free: "\<not> psi_reward_claimed ?ps" and total: "psi_total ?ps \<noteq> 0"
    and mark: "psi_reward_claimed (provider_stake s' p e)" and un: "unclaimed_on s' = unclaimed_on s"
    and s': "Events s' = Events s @ [Reward a p e (fst (operator_stakers_split T ?ps x))]"
      "past_kept s s'" "CurrentEra s' = CurrentEra s"
  have tot': "psi_total (provider_stake s' p e) = psi_total ?ps"
    using s'(2) e(1) by (simp add: past_kept_def era_kept_def)
  have paid: "paid_on s' p e = paid_on s p e + unat (fst (operator_stakers_split T ?ps x))"
    "payments_on s' p e = payments_on s p e + 1"
    by (simp_all add: payment_sums s'(1))
  show ?thesis
  proof (rule payouts_payment [OF assms(2) s'(2,3,1) e total])
    assume "payout_bound T s p e x"
    then show "payout_bound T s' p e x"
      using free mark
      by (simp add: payout_bound_def operator_stakers_split_total [OF tot'] tot' paid un payout_le_operator)
  qed
qed

lemmas quiet_calls = stake_quiet unstake_quiet withdrawals_quiet register_quiet new_era_quiet other_quiet

lemma staking_step_payouts:
  assumes step: "staking_step T s s'" and rounds: "perbill_rounds (Perbill T)"
    and inv: "shares_ok s" "payouts_ok T s"
  shows "payouts_ok T s'"
  by (rule staking_step_rel [where P = "\<lambda>s. shares_ok s \<and> payouts_ok T s" and Q = "payouts_ok T", OF step])
    (use inv in \<open>auto intro: payouts_quiet quiet_calls other_shares register_shares(1)
      claim_staker_payouts [OF _ _ _ rounds] claim_operator_payouts\<close>)

text \<open>So for one provider the payments stay within what it earned, up to half a unit for each.\<close>

lemma provider_payments:
  assumes "payouts_ok T s" "payments_on s p e \<noteq> 0"
  obtains x where "GeneralEraInfo s e = Some x" "e < CurrentEra s" "claimable s p e"
    "psi_total (provider_stake s p e) \<noteq> 0"
    "2 * paid_on s p e \<le> 2 * (unat (fst (operator_stakers_split T (provider_stake s p e) x)) +
       unat (snd (operator_stakers_split T (provider_stake s p e) x))) + payments_on s p e"
proof -
  obtain x where x: "GeneralEraInfo s e = Some x" "payout_bound T s p e x" "e < CurrentEra s"
    "claimable s p e" "psi_total (provider_stake s p e) \<noteq> 0"
    using assms unfolding payouts_ok_def by blast
  then have "unat (psi_total (provider_stake s p e)) \<noteq> 0" by (simp add: unat_eq_0)
  then show thesis by (rule that [OF x(1,3,4,5) payout_le_total [OF x(2) [unfolded payout_bound_def]]])
qed

section \<open>The payments for an era\<close>

text \<open>The totals of the providers that can be paid for a past era together are part of its total.\<close>

definition shares_fit :: "('a, 'p, 'c) staking \<Rightarrow> era_index \<Rightarrow> bool" where
  "shares_fit s e \<longleftrightarrow> (\<forall>x. GeneralEraInfo s e = Some x \<longrightarrow>
     (\<Sum>p | claimable s p e. unat (psi_total (provider_stake s p e))) \<le> unat (ei_staked x))"

definition past_fits :: "('a, 'p, 'c) staking \<Rightarrow> bool" where
  "past_fits s \<longleftrightarrow> (\<forall>e. e < CurrentEra s \<longrightarrow> shares_fit s e)"

lemma finite_claimable:
  assumes "registry_ok s"
  shows "finite {p. claimable s p e}"
proof (rule finite_subset)
  show "{p. claimable s p e} \<subseteq> dom (RegisteredProviders s)" using claimable_registered by auto
  show "finite (dom (RegisteredProviders s))" using assms by (simp add: registry_ok_def)
qed

text \<open>For the current era this is what the totals say.\<close>

lemma current_fits:
  assumes "era_sums s" "shares_ok s"
  shows "shares_fit s (CurrentEra s)"
proof -
  note D = shares_okD [OF assms(2)]
  obtain x where x: "GeneralEraInfo s (CurrentEra s) = Some x" "unat (ei_staked x) = total_staked s"
    using assms(1) by (auto simp: era_sums_def)
  have act: "{p. claimable s p (CurrentEra s)} = {p. is_active_provider p s}"
    using claimable_current [OF D(2)] by auto
  have "(\<Sum>p | is_active_provider p s. unat (psi_total (provider_stake s p (CurrentEra s)))) =
      (\<Sum>p | is_active_provider p s. staked_on s p)"
    using D(3) by (intro sum.cong) (simp_all add: totals_ok_def)
  also have "\<dots> \<le> total_staked s"
    by (rule active_stakes_le [OF books_balanceD(2) [OF D(1)] finite_claimable [OF D(2), of "CurrentEra s", unfolded act]])
  finally show ?thesis using x by (simp add: shares_fit_def act)
qed

text \<open>A kept era keeps fitting: the providers entered since have no share of it.\<close>

lemma era_kept_fits:
  assumes "era_kept s s' e" "shares_fit s e" "registry_ok s" "registry_ok s'"
  shows "shares_fit s' e"
proof -
  let ?t = "\<lambda>s p. unat (psi_total (provider_stake s p e))"
  have total: "?t s' p = ?t s p" for p using assms(1) by (simp add: era_kept_def)
  have new: "?t s p = 0" if "claimable s' p e" "\<not> claimable s p e" for p
  proof -
    have "RegisteredProviders s p = None" using assms(1) that by (auto simp: era_kept_def)
    then show ?thesis using assms(3) by (simp add: registry_ok_def provider_stake_def ProviderStakeInfo_default_def)
  qed
  have "(\<Sum>p | claimable s' p e. ?t s' p) = (\<Sum>p | claimable s' p e. ?t s p)" by (simp add: total)
  also have "\<dots> = (\<Sum>p | claimable s' p e \<and> claimable s p e. ?t s p)"
    using finite_claimable [OF assms(4), of e] new by (intro sum.mono_neutral_right) auto
  also have "\<dots> \<le> (\<Sum>p | claimable s p e. ?t s p)"
    using finite_claimable [OF assms(3), of e] by (intro sum_mono2) auto
  finally show ?thesis using assms(1,2) by (auto simp: shares_fit_def era_kept_def)
qed

lemma past_kept_fits:
  assumes "past_kept s s'" "CurrentEra s' = CurrentEra s" "past_fits s" "shares_ok s" "shares_ok s'"
  shows "past_fits s'"
  using assms era_kept_fits [OF _ _ shares_okD(2) [OF assms(4)] shares_okD(2) [OF assms(5)]]
  by (simp add: past_fits_def past_kept_def)

lemma new_era_fits:
  assumes on: "on_initialize T now s = Some (w, s')" "era_ends T now s" "CurrentEra s < - 1"
    and inv: "past_fits s" "era_sums s" "shares_ok s" "shares_ok s'"
  shows "past_fits s'"
proof -
  note f = on_initialize_new_era [OF on(1,2)]
  have past: "past_kept s s'" using new_era_quiet [OF on] by (simp add: quiet_def)
  have "shares_fit s' e" if "e < CurrentEra s'" for e
  proof (cases "e = CurrentEra s")
    case True
    have "CurrentEra s \<noteq> CurrentEra s + 1" by simp
    then have ps: "provider_stake s' p (CurrentEra s) = provider_stake s p (CurrentEra s)" for p
      using on_initialize_other_eras [OF on(1), of "CurrentEra s" p] by (simp add: provider_stake_def)
    show ?thesis
      using current_fits [OF inv(2,3)] inv(2) f(9) claimable_same [OF f(5)]
      by (auto simp: True shares_fit_def ps era_sums_def Let_def)
  next
    case False
    then have "e < CurrentEra s" using that saturating_succ_le_iff(2) [OF on(3), of e] f(2)
      by (metis linorder_neqE not_le)
    then show ?thesis
      using past inv(1) era_kept_fits [OF _ _ shares_okD(2) [OF inv(3)] shares_okD(2) [OF inv(4)]]
      by (simp add: past_fits_def past_kept_def)
  qed
  then show ?thesis by (simp add: past_fits_def)
qed

text \<open>Every step keeps the past, and all but a new era stay in the same era.\<close>

definition era_goes_on :: "('a, 'p, 'c) staking \<Rightarrow> ('a, 'p, 'c) staking \<Rightarrow> bool" where
  "era_goes_on s s' \<longleftrightarrow> past_kept s s' \<and> CurrentEra s' = CurrentEra s"

lemma calls_go_on:
  "stake T origin p v s = (Inr (), s') \<Longrightarrow> shares_ok s \<Longrightarrow> era_goes_on s s'"
  "unstake T origin p v s = (Inr (), s') \<Longrightarrow> shares_ok s \<Longrightarrow> era_goes_on s s'"
  "withdraw_from_unregistered_staker T origin p s = (Inr (), s') \<Longrightarrow> shares_ok s \<Longrightarrow> era_goes_on s s'"
  "withdraw_unstaked T origin s = (Inr (), s') \<Longrightarrow> era_goes_on s s'"
  "withdraw_from_unregistered_operator T origin p s = (Inr (), s') \<Longrightarrow> era_goes_on s s'"
  "unregister p s = (Inr (), s') \<Longrightarrow> era_goes_on s s'"
  using stake_quiet unstake_quiet withdrawals_quiet register_quiet(2,3) era_stakes_change(1,2) era_stakes_same
  unfolding quiet_def era_goes_on_def by metis+

lemma claims_go_on:
  "claim_staker T origin p s = (Inr (), s') \<Longrightarrow> shares_ok s \<Longrightarrow> era_goes_on s s'"
  "claim_operator T origin p e s = (Inr (), s') \<Longrightarrow> era_goes_on s s'"
  unfolding era_goes_on_def by (metis claim_staker_payment, metis claim_operator_payment)

lemma others_go_on:
  "RegisteredProviders s p = None \<Longrightarrow> era_goes_on s (enrol c a p s)"
  "era_goes_on s (s\<lparr>Balances := c\<rparr>)" "era_goes_on s (s\<lparr>ForceEra := f\<rparr>)"
  "era_goes_on s (s\<lparr>BlockRewardAccumulator := acc\<rparr>)"
  using register_quiet(1) other_quiet [of s] by (simp_all add: quiet_def era_goes_on_def) (simp_all add: enrol_def)

lemma goes_on_fits:
  "era_goes_on s s' \<Longrightarrow> past_fits s \<Longrightarrow> shares_ok s \<Longrightarrow> shares_ok s' \<Longrightarrow> past_fits s'"
  using past_kept_fits by (auto simp: era_goes_on_def)

lemma funded_step_fits:
  assumes step: "funded_step T s s'" and laws: "staking_laws T"
    and inv: "shares_ok s" "era_sums s" "past_fits s"
  shows "past_fits s'"
proof -
  let ?P = "\<lambda>s. shares_ok s \<and> era_sums s \<and> past_fits s" and ?Q = "\<lambda>s. shares_ok s \<longrightarrow> past_fits s"
  have step: "staking_step T s s'" using step by (simp add: funded_step_def)
  have "?Q s'"
    by (rule staking_step_rel [where P = ?P and Q = ?Q, OF step])
      (use inv in \<open>auto intro: goes_on_fits calls_go_on claims_go_on others_go_on other_shares
        register_shares(1) other_era_sums new_era_fits\<close>)
  then show ?thesis using staking_step_shares [OF step _ _ inv(1)] laws by (simp add: staking_laws_def)
qed

text \<open>Every step keeps the past.\<close>

lemma staking_step_past:
  assumes step: "staking_step T s s'" and inv: "shares_ok s"
  shows "past_kept s s'"
  by (rule staking_step_rel [where P = "\<lambda>t. shares_ok t \<and> past_kept s t" and Q = "past_kept s", OF step])
    (use inv in \<open>auto intro: past_kept_trans past_kept_refl calls_go_on [unfolded era_goes_on_def, THEN conjunct1]
      claims_go_on [unfolded era_goes_on_def, THEN conjunct1] others_go_on [unfolded era_goes_on_def, THEN conjunct1]
      new_era_quiet [unfolded quiet_def, THEN conjunct1] other_shares register_shares(1)\<close>)

text \<open>
  Each payment rounds by half a unit at most, and so do the two parts of each provider that is paid.
\<close>

lemma provider_payments_share:
  assumes inv: "payouts_ok T s" and rounds: "perbill_rounds (Perbill T)"
    and x: "GeneralEraInfo s e = Some x" "ei_staked x \<noteq> 0" and paid: "payments_on s p e \<noteq> 0"
  shows "unat (ei_staked x) * (2 * paid_on s p e) \<le>
    2 * unat (psi_total (provider_stake s p e)) *
      (unat (ri_operators (ei_rewards x)) + unat (ri_stakers (ei_rewards x))) +
    3 * unat (ei_staked x) * payments_on s p e"
proof -
  let ?S = "unat (ei_staked x)" and ?P = "unat (psi_total (provider_stake s p e))"
  let ?split = "operator_stakers_split T (provider_stake s p e) x"
  have "2 * paid_on s p e \<le> 2 * (unat (fst ?split) + unat (snd ?split)) + payments_on s p e"
    using inv paid by (rule provider_payments) (use x(1) in simp)
  then have "?S * (2 * paid_on s p e) \<le> ?S * (2 * (unat (fst ?split) + unat (snd ?split)) + payments_on s p e)"
    by (rule mult_le_mono2)
  moreover have "2 * ?S * unat (fst ?split) \<le> 2 * ?P * unat (ri_operators (ei_rewards x)) + ?S"
    "2 * ?S * unat (snd ?split) \<le> 2 * ?P * unat (ri_stakers (ei_rewards x)) + ?S"
    using perbill_share [OF rounds x(2)] by (simp_all add: operator_stakers_split_def Let_def)
  moreover have "?S \<le> ?S * payments_on s p e" using paid by simp
  ultimately show ?thesis by (simp only: algebra_simps)
qed

lemma era_payments:
  assumes inv: "payouts_ok T s" "past_fits s" "registry_ok s" and rounds: "perbill_rounds (Perbill T)"
    and x: "GeneralEraInfo s e = Some x"
  shows "2 * paid_in s e \<le> 2 * (unat (ri_operators (ei_rewards x)) + unat (ri_stakers (ei_rewards x)))
    + 3 * payments_in s e"
proof -
  let ?S = "unat (ei_staked x)" and ?P = "\<lambda>p. unat (psi_total (provider_stake s p e))"
  let ?R = "unat (ri_operators (ei_rewards x)) + unat (ri_stakers (ei_rewards x))"
  let ?A = "{p. payments_on s p e \<noteq> 0}"
  have sub: "?A \<subseteq> {p. claimable s p e}" using inv(1) by (auto simp: payouts_ok_def)
  have fin: "finite ?A" using finite_subset [OF sub finite_claimable [OF inv(3)]] .
  have sums: "paid_in s e = (\<Sum>p\<in>?A. paid_on s p e)" "payments_in s e = (\<Sum>p\<in>?A. payments_on s p e)"
    by (rule payments_by_provider [OF fin]; simp)+
  show ?thesis
  proof (cases "?A = {}")
    case True
    then show ?thesis unfolding sums by simp
  next
    case False
    then obtain q where q: "payments_on s q e \<noteq> 0" by blast
    then have e: "e < CurrentEra s" and pos: "?P q \<noteq> 0" using inv(1) by (auto simp: payouts_ok_def unat_eq_0)
    have "(\<Sum>p\<in>?A. ?P p) \<le> (\<Sum>p | claimable s p e. ?P p)"
      by (rule sum_mono2 [OF finite_claimable [OF inv(3)] sub]) simp
    also have "\<dots> \<le> ?S" using inv(2) e x by (simp add: past_fits_def shares_fit_def)
    finally have fit: "(\<Sum>p\<in>?A. ?P p) \<le> ?S" .
    have "?P q \<le> ?S" using member_le_sum [of q ?A ?P] fin fit q by simp
    then have S: "ei_staked x \<noteq> 0" using pos by (auto simp: unat_eq_0)
    have "?S * (2 * paid_in s e) = (\<Sum>p\<in>?A. ?S * (2 * paid_on s p e))" by (simp add: sums sum_distrib_left)
    also have "\<dots> \<le> (\<Sum>p\<in>?A. 2 * ?P p * ?R + 3 * ?S * payments_on s p e)"
      by (rule sum_mono, rule provider_payments_share [OF inv(1) rounds x S]) simp
    also have "\<dots> = (\<Sum>p\<in>?A. ?P p) * (2 * ?R) + 3 * ?S * payments_in s e"
      by (simp add: sums sum.distrib sum_distrib_left sum_distrib_right algebra_simps)
    also have "\<dots> \<le> ?S * (2 * ?R) + 3 * ?S * payments_in s e" using fit by (intro add_right_mono mult_le_mono1)
    also have "\<dots> = ?S * (2 * ?R + 3 * payments_in s e)" by (simp add: algebra_simps)
    finally show ?thesis using pos \<open>?P q \<le> ?S\<close> by simp
  qed
qed

section \<open>Runs\<close>

definition payments_fit ::
    "('o, 'a, 'p, 'c, 'i, 'b, 'e) staking_config \<Rightarrow> ('a, 'p, 'c) staking \<Rightarrow> bool" where
  "payments_fit T s \<longleftrightarrow> shares_ok s \<and> era_sums s \<and> past_fits s \<and> payouts_ok T s"

lemma funded_step_payments:
  assumes "funded_step T s s'" "staking_laws T" "perbill_rounds (Perbill T)" "payments_fit T s"
  shows "payments_fit T s'"
proof -
  have step: "staking_step T s s'" using assms(1) by (simp add: funded_step_def)
  have laws: "0 < MinimumStakingAmount T" "iter_laws (iter_providers T)"
    using assms(2) by (simp_all add: staking_laws_def)
  have inv: "shares_ok s" "era_sums s" "past_fits s" "payouts_ok T s"
    using assms(4) by (simp_all add: payments_fit_def)
  show ?thesis
    unfolding payments_fit_def
    using staking_step_shares [OF step laws inv(1)] funded_step_era_sums [OF assms(1) laws(1) inv(2)]
      funded_step_fits [OF assms(1,2) inv(1-3)] staking_step_payouts [OF step assms(3) inv(1,4)]
    by simp
qed

interpretation payments: invariant_system "funded_step T"
  "\<lambda>s. staking_laws T \<and> perbill_rounds (Perbill T) \<longrightarrow> payments_fit T s" for T
  by unfold_locales (blast intro: funded_step_payments)

lemma first_block_payments:
  assumes on: "on_initialize T now (genesis c) = Some (w, s)" and laws: "staking_laws T"
  shows "payments_fit T s"
proof -
  have ends: "era_ends T now (genesis c)" and era: "CurrentEra (genesis c) < - 1"
    by (simp_all add: era_ends_def genesis_def word_gt_0)
  have "shares_ok s"
    using new_era_shares [OF on ends era genesis_shares] laws by (simp add: staking_laws_def)
  moreover have "past_fits s"
    using on_initialize_new_era(5) [OF on ends]
    by (simp add: past_fits_def shares_fit_def claimable_def genesis_def)
  moreover have "payouts_ok T s"
    by (rule payouts_quiet [OF new_era_quiet [OF on ends era]])
      (simp add: payouts_ok_def payment_sums genesis_def)
  ultimately show ?thesis using first_block_sums [OF on] by (simp add: payments_fit_def)
qed

interpretation past: invariant_system "staking_step T"
  "\<lambda>s. staking_laws T \<longrightarrow> shares_ok s \<and> past_kept s0 s" for T s0
  by unfold_locales (meson past_kept_trans staking_laws_def staking_step_past staking_step_shares)

end
