(* ===== verification/Staking_Properties.thy ===== *)
theory Staking_Properties
  imports Sample
begin

text \<open>
  The properties of the staking pallet, each with an instance on the sample run: the books balance,
  the totals are right, nothing is paid twice, and every call does exactly what it is for.
\<close>

section \<open>Reachable states\<close>

definition staking_reachable ::
    "('o, 'a, 'p, 'c, 'i, 'b, 'e) staking_config \<Rightarrow> ('a, 'p, 'c) staking \<Rightarrow> bool" where
  "staking_reachable T s \<longleftrightarrow> (\<exists>c. (staking_step T)\<^sup>*\<^sup>* (genesis c) s)"

lemma reachable_books:
  assumes "staking_reachable T s" "0 < MinimumStakingAmount T"
  shows "books_balance s"
proof -
  obtain c where "(staking_step T)\<^sup>*\<^sup>* (genesis c) s"
    using assms(1) unfolding staking_reachable_def ..
  then show ?thesis using staking_books.run_invar genesis_books assms(2) by metis
qed

lemma reachable_shares:
  assumes "staking_reachable T s" "staking_laws T"
  shows "shares_ok s"
proof -
  obtain c where "(staking_step T)\<^sup>*\<^sup>* (genesis c) s"
    using assms(1) unfolding staking_reachable_def ..
  then show ?thesis using assms(2) genesis_shares by (rule staking_run_shares)
qed

lemma sample_reachable:
  "staking_reachable sample_staking sample_staked" "staking_reachable sample_staking sample_next"
  using sample_runs unfolding staking_reachable_def by blast+

lemma staking_laws_min: "staking_laws T \<Longrightarrow> 0 < MinimumStakingAmount T"
  by (simp add: staking_laws_def)

section \<open>The books and the totals\<close>

text \<open>
  C1. In every state the staking pallet can reach, the locked balance of every account is exactly
  what it has staked on all providers together plus what is waiting to be unbonded. No call loses
  or creates a unit of the books.
\<close>

theorem books_always:
  assumes "staking_reachable T s" "0 < MinimumStakingAmount T"
  shows "unat (locked (ledger s a)) = staked_by s a + chunk_total (unbonding (ledger s a))"
  using reachable_books [OF assms] by (rule books_balanceD)

theorem books_always_witness:
  "staking_reachable sample_staking sample_next \<and> unat (locked (ledger sample_next 2)) = 30 \<and>
   unat (locked (ledger sample_next 2)) =
     staked_by sample_next 2 + chunk_total (unbonding (ledger sample_next 2))"
  using books_always [OF sample_reachable(2) sample_staking_laws(2), of 2] sample_reachable(2)
  by (simp add: sample_next_eq ledger_def)

text \<open>
  C2. In every reachable state, the total kept for an active provider in the current era is the sum of
  what its stakers have staked on it, and its counter of stakers is the number of accounts with
  something staked on it.
\<close>

theorem totals_always:
  assumes "staking_reachable T s" "staking_laws T" "is_active_provider p s"
  shows "unat (psi_total (provider_stake s p (CurrentEra s))) = staked_on s p \<and>
    unat (psi_number_of_stakers (provider_stake s p (CurrentEra s))) = stakers_on s p"
  using shares_okD(3) [OF reachable_shares [OF assms(1,2)]] assms(3) by (simp add: totals_ok_def)

theorem totals_always_witness:
  "is_active_provider True sample_next \<and>
   unat (psi_total (provider_stake sample_next True (CurrentEra sample_next))) = 80 \<and>
   unat (psi_total (provider_stake sample_next True (CurrentEra sample_next))) = staked_on sample_next True"
  using totals_always [OF sample_reachable(2) sample_staking_laws(1), of True]
  by (simp add: sample_next_eq is_active_provider_def provider_stake_def)

section \<open>Rewards are paid once\<close>


lemma sample_claim:
  "claim_staker sample_staking (Some 2) True sample_next =
     (Inr (), snd (claim_staker sample_staking (Some 2) True sample_next))"
  "Events (snd (claim_staker sample_staking (Some 2) True sample_next)) =
     Events sample_next @ [Reward 2 True 1 7]"
  by (simp_all add: claim_staker_def sample_next_eq staking_eval)


lemma claim_staker_paid_upto:
  assumes "books_balance s" "claim_staker T origin p s = (Inr (), s')"
  obtains a e r where "paid_upto a p e s'" "Events s' = Events s @ [Reward a p e r]"
    "\<forall>d. claimed_upto (staker_info_of s a p) d \<longrightarrow> d < e"
  using assms(2)
proof (rule claim_staker_okE)
  fix a e v i reward imb c
  assume claim: "StakerInfo_claim (staker_info_of s a p) = ((e, v), i)" and v: "0 < v"
    and e: "e < CurrentEra s"
    and s': "s' = deposit_event (Reward a p e reward)
       (update_staker_info a p i (s\<lparr>Balances := resolve_creating (Currency T) c a imb\<rparr>))"
  note B = books_balanceD [OF assms(1)]
  have v': "v \<noteq> 0" using v by auto
  have "staker_info_of s' a p = i"
    using staker_info_of_upd_default [of s' s a p i a p] by (simp add: s')
  then have "paid_upto a p e s'"
    using claim_staker_books [OF assms(2,1)] e StakerInfo_claim_ok(3) [OF B(3,4) claim e v']
    by (simp add: paid_upto_def s')
  then show thesis
    by (rule that) (use claimed_upto_claim [OF _ claim v'] in \<open>simp_all add: s'\<close>)
qed

text \<open>
  C7. No era is paid twice to a staker, whatever happens in between: if account \<open>a\<close> was paid for
  era \<open>e\<close> of provider \<open>p\<close>, then every later successful claim of \<open>a\<close> for \<open>p\<close> is for a later era.
\<close>

theorem staker_paid_once:
  assumes "staking_reachable T s" "0 < MinimumStakingAmount T"
    and "claim_staker T o1 p s = (Inr (), s1)" "last (Events s1) = Reward a p e r1"
    and "(staking_step T)\<^sup>*\<^sup>* s1 t"
    and "claim_staker T o2 p t = (Inr (), t1)" "last (Events t1) = Reward a p e2 r2"
  shows "e < e2"
proof -
  obtain a1 e1 x where 1: "paid_upto a1 p e1 s1" "Events s1 = Events s @ [Reward a1 p e1 x]"
    by (rule claim_staker_paid_upto [OF reachable_books [OF assms(1,2)] assms(3)])
  then have "paid_upto a p e s1" using assms(4) by simp
  then have t: "paid_upto a p e t"
    using staker_paid.run_invar [OF assms(5), of a p e] assms(2) by simp
  then have "books_balance t" by (simp add: paid_upto_def)
  then obtain a2 e3 y where "paid_upto a2 p e3 t1" "Events t1 = Events t @ [Reward a2 p e3 y]"
      "\<forall>d. claimed_upto (staker_info_of t a2 p) d \<longrightarrow> d < e3"
    by (rule claim_staker_paid_upto [OF _ assms(6)])
  with t assms(7) show ?thesis by (simp add: paid_upto_def)
qed

definition sample_later :: "(nat, bool, purse) staking" where
  "sample_later = sample_block 7 (snd (claim_staker sample_staking (Some 2) True sample_next))"

lemma sample_claim_again:
  "claim_staker sample_staking (Some 2) True sample_later =
     (Inr (), snd (claim_staker sample_staking (Some 2) True sample_later))"
  "last (Events (snd (claim_staker sample_staking (Some 2) True sample_later))) = Reward 2 True 2 0"
  by (simp_all add: sample_later_def sample_block_def claim_staker_def sample_next_eq staking_eval)

lemma sample_later_run:
  "(staking_step sample_staking)\<^sup>*\<^sup>* (snd (claim_staker sample_staking (Some 2) True sample_next)) sample_later"
  unfolding sample_later_def
  by (rule sample_block_run) (simp_all add: claim_staker_def sample_next_eq staking_eval)

theorem staker_paid_once_witness:
  "last (Events (snd (claim_staker sample_staking (Some 2) True sample_next))) = Reward 2 True 1 7 \<and>
   last (Events (snd (claim_staker sample_staking (Some 2) True sample_later))) = Reward 2 True 2 0 \<and>
   (1::era_index) < 2"
  using staker_paid_once [OF sample_reachable(2) sample_staking_laws(2) sample_claim(1) _ sample_later_run
      sample_claim_again] sample_claim(2) sample_claim_again(2) by simp

text \<open>
  C8. No era is paid twice to the operator of a provider, whatever happens in between: after a
  successful \<^verbatim>\<open>claim_operator\<close> every further one for the same provider and era is refused, by
  whomever it is sent.
\<close>

theorem operator_paid_once:
  assumes "claim_operator T o1 p e s = (Inr (), s1)" "(staking_step T)\<^sup>*\<^sup>* s1 t"
  shows "fst (claim_operator T o2 p e t) \<noteq> Inr ()"
proof
  assume again: "fst (claim_operator T o2 p e t) = Inr ()"
  have "operator_paid p e s1"
    using assms(1) by (rule claim_operator_okE) (simp add: operator_paid_def provider_stake_def)
  then have "operator_paid p e t" by (rule operator_once.run_invar [OF assms(2)])
  moreover have "claim_operator T o2 p e t = (Inr (), snd (claim_operator T o2 p e t))"
    using again by (metis surjective_pairing)
  then have "\<not> psi_reward_claimed (provider_stake t p e)" by (rule claim_operator_okE)
  ultimately show False by (simp add: operator_paid_def)
qed

lemma sample_claim_operator:
  "claim_operator sample_staking (Some 2) True 1 sample_next =
     (Inr (), snd (claim_operator sample_staking (Some 2) True 1 sample_next))"
  by (simp add: claim_operator_def sample_next_eq staking_eval)

theorem operator_paid_once_witness:
  "fst (claim_operator sample_staking (Some 5) True 1
     (snd (claim_operator sample_staking (Some 2) True 1 sample_next))) \<noteq> Inr ()"
  using operator_paid_once [OF sample_claim_operator rtranclp.rtrancl_refl] .

section \<open>What the calls do\<close>

text \<open>
  C17. A successful \<^verbatim>\<open>stake\<close> stakes the smaller of the requested value and what the account has
  available: the locked balance, the stake on the provider from the current era on and the provider's
  total all grow by exactly that amount, past eras keep their stake, and no other account's ledger
  changes.
\<close>

theorem stake_effect:
  assumes "staking_reachable T s" "0 < MinimumStakingAmount T" "stake T origin p v s = (Inr (), s')"
    and signed: "ensure_signed (System T) origin = Some a"
    and amount: "w = min v (available_staking_balance T a (ledger s a) s)"
  shows "0 < w \<and>
    unat (locked (ledger s' a)) = unat (locked (ledger s a)) + unat w \<and>
    unat (latest_staked_value (staker_info_of s' a p)) =
      unat (latest_staked_value (staker_info_of s a p)) + unat w \<and>
    (\<forall>e < CurrentEra s. staked_at (staker_info_of s' a p) e = staked_at (staker_info_of s a p) e) \<and>
    unat (psi_total (provider_stake s' p (CurrentEra s))) =
      unat (psi_total (provider_stake s p (CurrentEra s))) + unat w \<and>
    (\<forall>b. b \<noteq> a \<longrightarrow> ledger s' b = ledger s b)"
  using assms(3)
proof (rule stake_okE)
  fix a0 w0 i new_locked new_total
  assume a0: "ensure_signed (System T) origin = Some a0"
    and w0: "w0 = min v (available_staking_balance T a0 (ledger s a0) s)" "0 < w0"
    and i0: "StakerInfo_stake (staker_info_of s a0 p) (CurrentEra s) w0 = Inr i"
    and nl0: "unat new_locked = unat (locked (ledger s a0)) + unat w0"
    and nt0: "unat new_total = unat (psi_total (provider_stake s p (CurrentEra s))) + unat w0"
    and s0: "s' = deposit_event (Stake a0 p w0)
       ((update_staker_info a0 p i
         (update_ledger T a0 ((ledger s a0)\<lparr>locked := new_locked\<rparr>)
          (mutate_era_info (CurrentEra s)
             (\<lambda>x. x\<lparr>ei_staked := saturating_add (ei_staked x) w0,
                     ei_locked := saturating_add (ei_locked x) w0\<rparr>) s)))
        \<lparr>ProviderEraStake := (ProviderEraStake s)((p, CurrentEra s) \<mapsto>
           (if latest_staked_value (staker_info_of s a0 p) = 0
            then (provider_stake s p (CurrentEra s))\<lparr>psi_number_of_stakers :=
               saturating_add (psi_number_of_stakers (provider_stake s p (CurrentEra s))) 1\<rparr>
            else provider_stake s p (CurrentEra s))\<lparr>psi_total := new_total\<rparr>)\<rparr>)"
  have "a0 = a" using a0 signed by simp
  moreover have "w0 = w" using w0(1) amount \<open>a0 = a\<close> by simp
  ultimately have w: "0 < w" and i: "StakerInfo_stake (staker_info_of s a p) (CurrentEra s) w = Inr i"
    and nl: "unat new_locked = unat (locked (ledger s a)) + unat w"
    and nt: "unat new_total = unat (psi_total (provider_stake s p (CurrentEra s))) + unat w"
    and s': "Ledger s' = upd_default AccountLedger_default (Ledger s) a ((ledger s a)\<lparr>locked := new_locked\<rparr>)"
      "GeneralStakerInfo s' = upd_default StakerInfo_default (GeneralStakerInfo s) (a, p) i"
    using w0(2) i0 nl0 nt0 by (simp_all add: s0)
  note B = books_balanceD [OF reachable_books [OF assms(1,2)]]
  have I: "staker_info_of s' a p = i" using staker_info_of_upd_default [OF s'(2)] by simp
  have "unat (latest_staked_value i) = unat (latest_staked_value (staker_info_of s a p)) + unat w"
    using staker_info.latest_stake [OF B(3) i] staked_fits [OF reachable_books [OF assms(1,2)] nl] by simp
  moreover have "staked_at i e = staked_at (staker_info_of s a p) e" if "e < CurrentEra s" for e
    using StakerInfo_stake_ok(3) [OF B(3) i, of e] that by (simp add: not_le [symmetric])
  moreover have "psi_total (provider_stake s' p (CurrentEra s)) = new_total"
    by (simp add: provider_stake_def s0)
  ultimately show ?thesis using w nl nt by (simp add: ledger_upd_default [OF s'(1)] I)
qed

lemma sample_stake:
  "stake sample_staking (Some 2) True 30 sample_staked =
     (Inr (), snd (stake sample_staking (Some 2) True 30 sample_staked))"
  by (simp add: stake_def sample_staked_eq staking_eval)

theorem stake_effect_witness:
  "unat (locked (ledger (snd (stake sample_staking (Some 2) True 30 sample_staked)) 2)) =
     unat (locked (ledger sample_staked 2)) + 30"
proof -
  have signed: "ensure_signed (System sample_staking) (Some 2) = Some 2"
    and amount: "min 30 (available_staking_balance sample_staking 2 (ledger sample_staked 2) sample_staked) = 30"
    by (simp_all add: sample_staked_eq staking_eval)
  show ?thesis
    using stake_effect [OF sample_reachable(1) sample_staking_laws(2) sample_stake signed amount [symmetric]]
    by simp
qed

lemma unstake_parts:
  assumes "unstake T origin p v s = (Inr (), s')" and signed: "ensure_signed (System T) origin = Some a"
    and amount: "w = (if saturating_sub (latest_staked_value (staker_info_of s a p)) v < MinimumStakingAmount T
      then latest_staked_value (staker_info_of s a p) else v)"
  obtains i where "0 < w" "is_active_provider p s"
    "StakerInfo_unstake (staker_info_of s a p) (CurrentEra s) w = Inr i"
    "GeneralStakerInfo s' = upd_default StakerInfo_default (GeneralStakerInfo s) (a, p) i"
    "Ledger s' = upd_default AccountLedger_default (Ledger s) a
       ((ledger s a)\<lparr>unbonding := UnbondingInfo_add (unbonding (ledger s a))
          \<lparr>chunk_amount = w, unlock_era = CurrentEra s + UnbondingPeriod T\<rparr>\<rparr>)"
    "psi_total (provider_stake s' p (CurrentEra s)) = saturating_sub (psi_total (provider_stake s p (CurrentEra s))) w"
  using assms(1)
proof (rule unstake_okE)
  fix a0 w0 i whole
  assume a0: "ensure_signed (System T) origin = Some a0" and act: "is_active_provider p s" and pos: "0 < w0"
    and whole: "whole \<longleftrightarrow>
      saturating_sub (latest_staked_value (staker_info_of s a0 p)) v < MinimumStakingAmount T"
    and w0: "w0 = (if whole then latest_staked_value (staker_info_of s a0 p) else v)"
    and i: "StakerInfo_unstake (staker_info_of s a0 p) (CurrentEra s) w0 = Inr i"
    and s': "s' = deposit_event (Unstake a0 p w0)
       ((update_staker_info a0 p i
         (mutate_era_info (CurrentEra s) (\<lambda>x. x\<lparr>ei_staked := saturating_sub (ei_staked x) w0\<rparr>)
          (update_ledger T a0
             ((ledger s a0)\<lparr>unbonding := UnbondingInfo_add (unbonding (ledger s a0))
                \<lparr>chunk_amount = w0, unlock_era = CurrentEra s + UnbondingPeriod T\<rparr>\<rparr>) s)))
        \<lparr>ProviderEraStake := (ProviderEraStake s)((p, CurrentEra s) \<mapsto>
           (if whole
            then (provider_stake s p (CurrentEra s))\<lparr>psi_number_of_stakers :=
               saturating_sub (psi_number_of_stakers (provider_stake s p (CurrentEra s))) 1\<rparr>
            else provider_stake s p (CurrentEra s))\<lparr>psi_total :=
               saturating_sub (psi_total (provider_stake s p (CurrentEra s))) w0\<rparr>)\<rparr>)"
  have "a0 = a" using a0 signed by simp
  moreover have "w0 = w" using w0 whole amount \<open>a0 = a\<close> by simp
  moreover have "psi_total (provider_stake s' p (CurrentEra s)) =
      saturating_sub (psi_total (provider_stake s p (CurrentEra s))) w0"
    by (simp add: s' provider_stake_def)
  ultimately show thesis using act pos i by (intro that) (simp_all add: s')
qed

text \<open>
  C16. A successful \<^verbatim>\<open>unstake\<close> takes an amount that is at most what is staked off the stake from the current
  era on and off the provider's total, leaves the stake of past eras alone, and puts the amount into
  the queue of the account, where it is due exactly from the era \<^verbatim>\<open>current_era + UnbondingPeriod\<close> on. The
  locked balance does not change.
\<close>

theorem unstake_effect:
  assumes "staking_reachable T s" "staking_laws T" "unstake T origin p v s = (Inr (), s')"
    and signed: "ensure_signed (System T) origin = Some a"
    and amount: "w = (if saturating_sub (latest_staked_value (staker_info_of s a p)) v < MinimumStakingAmount T
      then latest_staked_value (staker_info_of s a p) else v)"
  shows "0 < w \<and> w \<le> latest_staked_value (staker_info_of s a p) \<and>
    locked (ledger s' a) = locked (ledger s a) \<and>
    unat (latest_staked_value (staker_info_of s' a p)) + unat w =
      unat (latest_staked_value (staker_info_of s a p)) \<and>
    (\<forall>e < CurrentEra s. staked_at (staker_info_of s' a p) e = staked_at (staker_info_of s a p) e) \<and>
    unat (psi_total (provider_stake s' p (CurrentEra s))) + unat w =
      unat (psi_total (provider_stake s p (CurrentEra s))) \<and>
    (\<forall>e. due (unbonding (ledger s' a)) e = due (unbonding (ledger s a)) e +
       (if CurrentEra s + UnbondingPeriod T \<le> e then unat w else 0))"
  using assms(3) signed amount
proof (rule unstake_parts)
  fix i
  let ?c = "\<lparr>chunk_amount = w, unlock_era = CurrentEra s + UnbondingPeriod T\<rparr>"
  assume w: "0 < w" and act: "is_active_provider p s"
    and i: "StakerInfo_unstake (staker_info_of s a p) (CurrentEra s) w = Inr i"
    and G: "GeneralStakerInfo s' = upd_default StakerInfo_default (GeneralStakerInfo s) (a, p) i"
    and L: "Ledger s' = upd_default AccountLedger_default (Ledger s) a
       ((ledger s a)\<lparr>unbonding := UnbondingInfo_add (unbonding (ledger s a)) ?c\<rparr>)"
    and total: "psi_total (provider_stake s' p (CurrentEra s)) =
      saturating_sub (psi_total (provider_stake s p (CurrentEra s))) w"
  note shares = reachable_shares [OF assms(1,2)]
  note B = books_balanceD [OF shares_okD(1) [OF shares]]
  have le: "unat w \<le> unat (latest_staked_value (staker_info_of s a p))"
    using unstake_amount_le [OF staking_laws_min [OF assms(2)] refl amount] .
  have "chunk_total (unbonding (ledger s a)) + unat (chunk_amount ?c) \<le> unat (locked (ledger s a))"
    using le B(6) [of a] B(7) [of a p] by simp
  also have "\<dots> < 2 ^ 128" using unsigned_less [of "locked (ledger s a)", where 'a = nat] by simp
  finally have fits: "chunk_total (unbonding (ledger s a)) + unat (chunk_amount ?c) < 2 ^ 128" .
  have I: "staker_info_of s' a p = i" using staker_info_of_upd_default [OF G] by simp
  show ?thesis
    using w le stake_le_total [OF shares act, of a] staker_info.latest_unstake [OF B(3) i]
      StakerInfo_unstake_ok(3) [OF B(3) i] unbonding_info.due_add [OF B(5) fits]
    by (simp add: ledger_upd_default [OF L] I total unat_saturating_sub word_le_nat_alt word_less_nat_alt)
qed

lemma sample_unstake:
  "unstake sample_staking (Some 2) True 10 sample_staked =
     (Inr (), snd (unstake sample_staking (Some 2) True 10 sample_staked))"
  by (simp add: unstake_def sample_staked_eq staking_eval)

theorem unstake_effect_witness:
  "due (unbonding (ledger (snd (unstake sample_staking (Some 2) True 10 sample_staked)) 2)) 3 =
     due (unbonding (ledger sample_staked 2)) 3 + 10"
proof -
  have signed: "ensure_signed (System sample_staking) (Some 2) = Some 2"
    and amount: "(10::balance) =
      (if saturating_sub (latest_staked_value (staker_info_of sample_staked 2 True)) 10 <
          MinimumStakingAmount sample_staking
       then latest_staked_value (staker_info_of sample_staked 2 True) else 10)"
    and era: "CurrentEra sample_staked + UnbondingPeriod sample_staking = 3"
    by (simp_all add: sample_staked_eq staking_eval)
  show ?thesis
    using unstake_effect [OF sample_reachable(1) sample_staking_laws(1) sample_unstake signed amount] era
    by simp
qed

text \<open>
  C15. \<^verbatim>\<open>withdraw_unstaked\<close> withdraws exactly what is due in the current era: with nothing due it is refused
  and changes nothing; otherwise it succeeds, the locked balance shrinks by the amount due, nothing
  of it stays due, and the stakes of the account are untouched.
\<close>

theorem withdraw_unstaked_exact:
  assumes "staking_reachable T s" "0 < MinimumStakingAmount T"
    and "ensure_signed (System T) origin = Some a"
  shows "if due (unbonding (ledger s a)) (CurrentEra s) = 0
    then withdraw_unstaked T origin s = (Inl (Module NothingToWithdraw), s)
    else \<exists>s'. withdraw_unstaked T origin s = (Inr (), s') \<and>
      unat (locked (ledger s' a)) + due (unbonding (ledger s a)) (CurrentEra s) =
        unat (locked (ledger s a)) \<and>
      due (unbonding (ledger s' a)) (CurrentEra s) = 0 \<and> staked_by s' a = staked_by s a"
proof -
  note B = books_balanceD [OF reachable_books [OF assms(1,2)]]
  obtain valid future where
    part: "UnbondingInfo_partition (unbonding (ledger s a)) (CurrentEra s) = (valid, future)"
    by (metis surj_pair)
  have fits: "chunk_total (unbonding (ledger s a)) < 2 ^ 128"
    using B(6) [of a] unsigned_less [of "locked (ledger s a)", where 'a = nat] by simp
  note sum = unbonding_info.sum_split [OF part fits]
  have le: "due (unbonding (ledger s a)) (CurrentEra s) \<le> unat (locked (ledger s a))"
    using unbonding_info.due_le_total [of "unbonding (ledger s a)" "CurrentEra s"] B(6) [of a] by simp
  show ?thesis
  proof (cases "due (unbonding (ledger s a)) (CurrentEra s) = 0")
    case True
    then have "UnbondingInfo_sum valid = 0" using sum(1) by (simp add: word_unat_eq_iff)
    with True show ?thesis by (simp add: withdraw_unstaked_def assms(3) part Let_def)
  next
    case False
    then have nz: "UnbondingInfo_sum valid \<noteq> 0" using sum(1) by (simp add: word_unat_eq_iff)
    let ?l = "\<lparr>locked = saturating_sub (locked (ledger s a)) (UnbondingInfo_sum valid), unbonding = future\<rparr>"
    obtain s' where s': "withdraw_unstaked T origin s = (Inr (), s')"
      and L: "Ledger s' = upd_default AccountLedger_default (Ledger s) a ?l"
      and G: "GeneralStakerInfo s' = GeneralStakerInfo s"
      using nz by (simp add: withdraw_unstaked_def assms(3) part Let_def)
    have "due future (CurrentEra s) = 0" using unbonding_info.due_split [OF part] by simp
    with s' False le show ?thesis
      by (simp add: ledger_upd_default [OF L] unat_saturating_sub sum(1) staked_by_def
          stake_sum_same [OF G])
  qed
qed

definition sample_unbonded :: "(nat, bool, purse) staking" where
  "sample_unbonded = sample_block 7 (sample_block 4 (snd (unstake sample_staking (Some 2) True 10 sample_staked)))"

lemma sample_unbonded_reachable: "staking_reachable sample_staking sample_unbonded"
proof -
  have "(staking_step sample_staking)\<^sup>*\<^sup>* (genesis sample_purse) sample_unbonded"
    unfolding sample_unbonded_def
    by (intro sample_block_run call_run sample_runs)
      (simp_all add: sample_block_def unstake_def sample_staked_eq staking_eval)
  then show ?thesis unfolding staking_reachable_def by blast
qed

theorem withdraw_unstaked_exact_witness:
  "\<exists>s'. withdraw_unstaked sample_staking (Some 2) sample_unbonded = (Inr (), s') \<and>
     unat (locked (ledger s' 2)) + 10 = unat (locked (ledger sample_unbonded 2)) \<and>
     due (unbonding (ledger s' 2)) (CurrentEra sample_unbonded) = 0"
proof -
  have "due (unbonding (ledger sample_unbonded 2)) (CurrentEra sample_unbonded) = 10"
    by (simp add: due_def sample_unbonded_def sample_block_def unstake_def sample_staked_eq staking_eval)
  then show ?thesis
    using withdraw_unstaked_exact [OF sample_unbonded_reachable sample_staking_laws(2), of "Some 2" 2]
    by (simp add: sample_defs) blast
qed

end
