(* ===== verification/Staking_Liveness.thy ===== *)
theory Staking_Liveness
  imports Staking_Payouts Staking_Properties
begin

text \<open>
  What a staker can get done. A history without an empty entry at its head and without two empty
  entries in a row is live: its owner can claim every era that is due, one call for each, and, once
  the provider has left and the unbonding period is over, withdraw the whole stake. Staking and
  claiming keep a history live; unstaking does unless it takes back everything in the era in which
  it was staked anew after a break.
\<close>

section \<open>Live histories\<close>

definition live_entries :: "era_stake list \<Rightarrow> bool" where
  "live_entries xs \<longleftrightarrow> successively (\<lambda>x y. es_staked x \<noteq> 0 \<or> es_staked y \<noteq> 0) xs \<and>
     (xs \<noteq> [] \<longrightarrow> es_staked (hd xs) \<noteq> 0)"

definition live :: "staker_info \<Rightarrow> bool" where
  "live h \<longleftrightarrow> live_entries (stakes h)"

lemma live_entries_Nil [simp]: "live_entries []"
  by (simp add: live_entries_def)

lemma live_entries_snoc:
  "live_entries (xs @ [y]) \<longleftrightarrow>
     (if xs = [] then es_staked y \<noteq> 0 else live_entries xs \<and> (es_staked (last xs) \<noteq> 0 \<or> es_staked y \<noteq> 0))"
  by (auto simp: live_entries_def successively_append_iff hd_append)

lemma live_entries_tail:
  assumes "live_entries (x # rest)"
  shows "live_entries (remove_unstaked_head rest)"
  using assms by (cases rest rule: remdups_adj.cases) (auto simp: live_entries_def remove_unstaked_head_def)

lemma live_entries_head:
  "live_entries (x # rest) \<Longrightarrow> es_staked y = es_staked x \<Longrightarrow> live_entries (y # rest)"
  by (cases rest) (auto simp: live_entries_def)

lemma live_entries_kept: "live_entries xs \<Longrightarrow> remove_unstaked_head xs = xs"
  by (cases xs) (auto simp: live_entries_def remove_unstaked_head_def)

lemma claim_live:
  assumes "live h" "StakerInfo_claim h = ((e, v), h')"
  shows "live h'"
proof (cases "stakes h")
  case Nil
  with assms show ?thesis by (simp add: StakerInfo_claim_Nil)
next
  case (Cons x rest)
  with assms(1) have x: "live_entries (x # rest)" by (simp add: live_def)
  show ?thesis
    using assms(2) StakerInfo_claim_Cons [OF Cons] live_entries_tail [OF x] live_entries_head [OF x]
    by (auto simp: live_def live_entries_kept split: if_splits)
qed

text \<open>The entries before the one that \<^verbatim>\<open>stake\<close> and \<^verbatim>\<open>unstake\<close> write for era \<open>c\<close>.\<close>

definition entries_before :: "era_stake list \<Rightarrow> era_index \<Rightarrow> era_stake list" where
  "entries_before xs c = (if xs \<noteq> [] \<and> es_era (last xs) = c then butlast xs else xs)"

lemma entries_before_live: "live_entries xs \<Longrightarrow> live_entries (entries_before xs c)"
  by (cases xs rule: rev_cases) (auto simp: entries_before_def live_entries_snoc split: if_splits)

lemma put_stake_live:
  assumes "live_entries xs"
    and "v \<noteq> 0 \<or> entries_before xs c = [] \<or> es_staked (last (entries_before xs c)) \<noteq> 0"
  shows "live_entries (remove_unstaked_head (put_stake xs c v))"
proof -
  have put: "put_stake xs c v = entries_before xs c @ [EraStake_new v c]"
    by (simp add: put_stake_def entries_before_def)
  show ?thesis
  proof (cases "entries_before xs c = [] \<and> v = 0")
    case True
    then show ?thesis unfolding put by (simp add: remove_unstaked_head_def EraStake_new_def)
  next
    case False
    then have "live_entries (put_stake xs c v)"
      using entries_before_live [OF assms(1), of c] assms(2) unfolding put
      by (auto simp: live_entries_snoc EraStake_new_def)
    then show ?thesis by (simp add: live_entries_kept)
  qed
qed

lemma stake_live:
  assumes "live h" "history_ok h" "StakerInfo_stake h c v = Inr h'"
    and "saturating_add (latest_staked_value h) v \<noteq> 0"
  shows "live h'"
proof -
  have "stakes h' = put_stake (stakes h) c (saturating_add (latest_staked_value h) v)"
    using assms(3) StakerInfo_stake_settled [OF assms(2) StakerInfo_Inr_settled(1) [OF assms(2,3)]] by auto
  moreover have "put_stake (stakes h) c u = entries_before (stakes h) c @ [EraStake_new u c]" for u
    by (simp add: put_stake_def entries_before_def)
  ultimately show ?thesis
    using assms(1,4) entries_before_live [of "stakes h" c]
    by (simp add: live_def live_entries_snoc EraStake_new_def)
qed

lemma unstake_live:
  assumes "live h" "StakerInfo_unstake h c v = Inr h'"
    and "v < latest_staked_value h \<or> entries_before (stakes h) c = [] \<or>
      es_staked (last (entries_before (stakes h) c)) \<noteq> 0"
  shows "live h'"
proof (cases "stakes h = []")
  case False
  have "saturating_sub (latest_staked_value h) v \<noteq> 0" if "v < latest_staked_value h"
    using that by (auto simp: word_nat)
  with put_stake_live [OF assms(1) [unfolded live_def]] assms(2,3) False show ?thesis
    by (auto simp: live_def StakerInfo_unstake_eq split: if_splits)
qed (use assms in \<open>simp add: StakerInfo_unstake_eq\<close>)

section \<open>Past eras are recorded\<close>

definition eras_known :: "('a, 'p, 'c) staking \<Rightarrow> bool" where
  "eras_known s \<longleftrightarrow> (\<forall>e. e < CurrentEra s \<longrightarrow> GeneralEraInfo s e \<noteq> None)"

lemma goes_on_eras: "era_goes_on s s' \<Longrightarrow> eras_known s \<Longrightarrow> eras_known s'"
  by (auto simp: era_goes_on_def eras_known_def past_kept_def era_kept_def)

lemma new_era_eras:
  assumes on: "on_initialize T now s = Some (w, s')" "era_ends T now s" "CurrentEra s < - 1"
    and inv: "eras_known s"
  shows "eras_known s'"
  unfolding eras_known_def
proof (intro allI impI)
  fix e
  assume "e < CurrentEra s'"
  then have "e = CurrentEra s \<or> e < CurrentEra s"
    using on_initialize_new_era(2) [OF on(1,2)] saturating_succ_le_iff(2) [OF on(3), of e]
    by (metis linorder_neqE not_le)
  with inv show "GeneralEraInfo s' e \<noteq> None"
    using on_initialize_new_era(9) [OF on(1,2)] by (auto simp: eras_known_def Let_def)
qed

lemma staking_step_eras:
  assumes step: "staking_step T s s'" and inv: "shares_ok s" "eras_known s"
  shows "eras_known s'"
  by (rule staking_step_rel [where P = "\<lambda>s. shares_ok s \<and> eras_known s" and Q = eras_known, OF step])
    (use inv in \<open>auto intro: goes_on_eras calls_go_on claims_go_on others_go_on new_era_eras other_shares
      register_shares(1)\<close>)

interpretation known_eras: invariant_system "staking_step T"
  "\<lambda>s. staking_laws T \<longrightarrow> shares_ok s \<and> eras_known s" for T
  by unfold_locales (meson staking_laws_def staking_step_eras staking_step_shares)

lemma reachable_eras:
  assumes "staking_reachable T s" "staking_laws T"
  shows "eras_known s"
proof -
  obtain c where run: "(staking_step T)\<^sup>*\<^sup>* (genesis c) s"
    using assms(1) unfolding staking_reachable_def ..
  show ?thesis
    using known_eras.run_invar [OF run] assms(2) by (simp add: genesis_shares) (simp add: eras_known_def genesis_def)
qed

section \<open>Claiming what is due\<close>

definition due :: "('a, 'p, 'c) staking \<Rightarrow> 'a \<Rightarrow> 'p \<Rightarrow> era_index set" where
  "due s a p = {e. e < CurrentEra s \<and> claimable s p e \<and> staked_at (staker_info_of s a p) e \<noteq> 0}"

text \<open>Every call is made on the state the one before it left, whether that succeeded or not.\<close>

primrec claim_times ::
    "('o, 'a, 'p, 'c, 'i, 'b, 'e) staking_config \<Rightarrow> 'o \<Rightarrow> 'p \<Rightarrow> nat \<Rightarrow> ('a, 'p, 'c) staking \<Rightarrow> ('a, 'p, 'c) staking" where
  "claim_times T origin p 0 s = s"
| "claim_times T origin p (Suc n) s = claim_times T origin p n (snd (claim_staker T origin p s))"

lemma claim_times_run:
  "staking_reachable T s \<Longrightarrow> staking_reachable T (claim_times T origin p n s)"
proof (induction n arbitrary: s)
  case (Suc n)
  have "staking_step T s (snd (claim_staker T origin p s))"
    by (rule claim_staker_step [OF surjective_pairing])
  then have "staking_reachable T (snd (claim_staker T origin p s))"
    using Suc.prems unfolding staking_reachable_def by (blast intro: rtranclp.rtrancl_into_rtrancl)
  then show ?case using Suc.IH by simp
qed simp

lemma claimable_mono: "claimable s p e \<Longrightarrow> d \<le> e \<Longrightarrow> claimable s p d"
  by (auto simp: claimable_def split: option.splits provider_state.splits)

text \<open>The oldest entry of a live history is the oldest era that is due.\<close>

lemma due_head:
  assumes "live (staker_info_of s a p)" "d \<in> due s a p"
  obtains e v i where "StakerInfo_claim (staker_info_of s a p) = ((e, v), i)" "v \<noteq> 0"
    "e < CurrentEra s" "claimable s p e"
proof (cases "stakes (staker_info_of s a p)")
  case Nil
  with assms(2) show thesis by (simp add: due_def staked_at_def)
next
  case (Cons x rest)
  have "es_era x \<le> d" using assms(2) Cons by (auto simp: due_def staked_at_def split: if_splits)
  then have "es_era x < CurrentEra s" "claimable s p (es_era x)"
    using assms(2) by (auto simp: due_def intro: le_less_trans claimable_mono)
  moreover have "es_staked x \<noteq> 0" using assms(1) Cons by (simp add: live_def live_entries_def)
  ultimately show thesis using that StakerInfo_claim_Cons [OF Cons] by blast
qed

text \<open>Progress: while something is due, a claim succeeds, unless the currency refuses the payment.\<close>

lemma claim_progress:
  assumes inv: "shares_ok s" "eras_known s" and a: "ensure_signed (System T) origin = Some a"
    and live: "live (staker_info_of s a p)" and due: "due s a p \<noteq> {}"
    and paid: "\<And>err. fst (claim_staker T origin p s) \<noteq> Inl (External err)"
  obtains s' e where "claim_staker T origin p s = (Inr (), s')" "e \<in> due s a p"
    "due s' a p = due s a p - {e}" "live (staker_info_of s' a p)"
proof -
  obtain d where d: "d \<in> due s a p" using due by blast
  obtain e v i where claim: "StakerInfo_claim (staker_info_of s a p) = ((e, v), i)" and v: "v \<noteq> 0"
    and e: "e < CurrentEra s" "claimable s p e"
    using live d by (rule due_head)
  obtain info where info: "RegisteredProviders s p = Some info" using claimable_registered [OF e(2)] by auto
  have reg: "\<not> (case pi_state info of Registered \<Rightarrow> False | Unregistered u \<Rightarrow> \<not> e < u)"
    using e(2) info by (auto simp: claimable_def split: provider_state.splits)
  obtain x where x: "GeneralEraInfo s e = Some x" using inv(2) e(1) by (auto simp: eras_known_def)
  obtain r c where pay: "withdraw (Currency T) (Balances s) (pallet_account T)
      (perbill_mul (Perbill T) (from_rational (Perbill T) v (psi_total (provider_stake s p e)))
         (snd (operator_stakers_split T (provider_stake s p e) x))) TRANSFER AllowDeath = (r, c)"
    by (metis surj_pair)
  have "0 < v" using v by (simp add: word_gt_0)
  note guards = a claim info x pay e(1) reg this
  obtain s' where ok: "claim_staker T origin p s = (Inr (), s')"
    using paid by (cases r) (auto simp: claim_staker_def guards Let_def)
  have s': "staker_info_of s' a p = i" "CurrentEra s' = CurrentEra s" "RegisteredProviders s' = RegisteredProviders s"
    using ok by (rule claim_staker_okE, use a claim in \<open>simp add: staker_info_of_upd_default\<close>)+
  note B = books_balanceD [OF shares_okD(1) [OF inv(1)]]
  note cl = StakerInfo_claim_ok [OF B(3,4) claim e(1) v]
  have "e \<in> due s a p" using e cl(4) v by (simp add: due_def)
  moreover have "due s' a p = due s a p - {e}"
    using cl(5,6) by (auto simp: due_def s' claimable_same [OF s'(3)] order_le_less)
  ultimately show thesis using that ok claim_live [OF live claim] s'(1) by simp
qed

text \<open>Claiming as often as there are eras due claims all of them.\<close>

lemma claim_all:
  assumes "staking_reachable T s" "staking_laws T" "ensure_signed (System T) origin = Some a"
    and "live (staker_info_of s a p)" "card (due s a p) = n"
    and "\<And>k err. k < n \<Longrightarrow> fst (claim_staker T origin p (claim_times T origin p k s)) \<noteq> Inl (External err)"
  shows "due (claim_times T origin p n s) a p = {} \<and> live (staker_info_of (claim_times T origin p n s) a p) \<and>
    (\<forall>k < n. fst (claim_staker T origin p (claim_times T origin p k s)) = Inr ())"
  using assms
proof (induction n arbitrary: s)
  case 0
  then show ?case by (simp add: card_eq_0_iff)
next
  case (Suc n)
  note inv = reachable_shares [OF Suc.prems(1,2)] reachable_eras [OF Suc.prems(1,2)]
  have "due s a p \<noteq> {}" using Suc.prems(5) by auto
  then obtain s' e where ok: "claim_staker T origin p s = (Inr (), s')" and e: "e \<in> due s a p"
    "due s' a p = due s a p - {e}" and live: "live (staker_info_of s' a p)"
    using claim_progress [OF inv Suc.prems(3,4)] Suc.prems(6) [of 0] by (metis claim_times.simps(1) zero_less_Suc)
  have s': "claim_times T origin p (Suc k) s = claim_times T origin p k s'" for k using ok by simp
  have "card (due s' a p) = n" using e Suc.prems(5) by simp
  then have IH: "due (claim_times T origin p n s') a p = {} \<and> live (staker_info_of (claim_times T origin p n s') a p) \<and>
      (\<forall>k < n. fst (claim_staker T origin p (claim_times T origin p k s')) = Inr ())"
    using claim_times_run [OF Suc.prems(1), of origin p 1] Suc.prems(2,3) live Suc.prems(6) [of "Suc k" for k]
    by (intro Suc.IH) (simp_all add: ok)
  show ?case using IH ok by (auto simp: s' less_Suc_eq_0_disj simp del: claim_times.simps(2))
qed

section \<open>Leaving\<close>

text \<open>With nothing due, the history of a provider that has left starts at its last era or later.\<close>

lemma nothing_due:
  assumes inv: "shares_ok s" and live: "live (staker_info_of s a p)" and due: "due s a p = {}"
    and info: "RegisteredProviders s p = Some info" "pi_state info = Unregistered u"
    and staked: "latest_staked_value (staker_info_of s a p) \<noteq> 0"
  shows "u \<le> fst (fst (StakerInfo_claim (staker_info_of s a p)))"
proof (rule ccontr)
  let ?h = "staker_info_of s a p"
  obtain e v i where claim: "StakerInfo_claim ?h = ((e, v), i)" by (metis surj_pair)
  assume "\<not> u \<le> fst (fst (StakerInfo_claim ?h))"
  then have e: "e < u" by (simp add: claim not_le)
  have "u \<le> CurrentEra s" using shares_okD(2) [OF inv] info unfolding registry_ok_def by blast
  then have now: "e < CurrentEra s" using e by simp
  obtain x rest where st: "stakes ?h = x # rest"
    using staked by (cases "stakes ?h") (auto simp: latest_staked_value_eq)
  then have v: "v \<noteq> 0" using claim StakerInfo_claim_Cons [OF st] live by (auto simp: live_def live_entries_def)
  note B = books_balanceD [OF shares_okD(1) [OF inv]]
  have "e \<in> due s a p"
    using StakerInfo_claim_ok(4) [OF B(3,4) claim now v] v e now info by (simp add: due_def claimable_def)
  with due show False by simp
qed

text \<open>What claims leave alone, whether they succeed or not.\<close>

lemma claim_keeps:
  assumes "books_balance s"
  shows "Ledger (snd (claim_staker T origin q s)) = Ledger s"
    "CurrentEra (snd (claim_staker T origin q s)) = CurrentEra s"
    "RegisteredProviders (snd (claim_staker T origin q s)) = RegisteredProviders s"
    "latest_staked_value (staker_info_of (snd (claim_staker T origin q s)) a p) =
       latest_staked_value (staker_info_of s a p)"
proof -
  obtain r s' where c: "claim_staker T origin q s = (r, s')" by (metis surj_pair)
  note B = books_balanceD [OF assms]
  have "Ledger s' = Ledger s \<and> CurrentEra s' = CurrentEra s \<and> RegisteredProviders s' = RegisteredProviders s \<and>
    latest_staked_value (staker_info_of s' a p) = latest_staked_value (staker_info_of s a p)"
  proof (cases r)
    case (Inl err)
    with c refused_only_balances(1) [of T origin q s err s'] show ?thesis by (auto simp: staker_info_of_def)
  next
    case (Inr u)
    with c have "claim_staker T origin q s = (Inr (), s')" by simp
    then show ?thesis
    proof (rule claim_staker_okE)
      fix b e v i reward imb cc
      assume claim: "StakerInfo_claim (staker_info_of s b q) = ((e, v), i)" and v: "0 < v" and e: "e < CurrentEra s"
        and s': "s' = deposit_event (Reward b q e reward)
         (update_staker_info b q i (s\<lparr>Balances := resolve_creating (Currency T) cc b imb\<rparr>))"
      have "v \<noteq> 0" using v by auto
      then have "latest_staked_value i = latest_staked_value (staker_info_of s b q)"
        by (rule staker_info.latest_claim [OF B(3,4) claim e])
      then show ?thesis
        using staker_info_of_upd_default [of s' s b q i a p] by (simp add: s')
    qed
  qed
  with c show "Ledger (snd (claim_staker T origin q s)) = Ledger s"
    "CurrentEra (snd (claim_staker T origin q s)) = CurrentEra s"
    "RegisteredProviders (snd (claim_staker T origin q s)) = RegisteredProviders s"
    "latest_staked_value (staker_info_of (snd (claim_staker T origin q s)) a p) =
       latest_staked_value (staker_info_of s a p)"
    by simp_all
qed

lemma claim_times_keeps:
  assumes "staking_reachable T s" "staking_laws T"
  shows "Ledger (claim_times T origin q n s) = Ledger s \<and> CurrentEra (claim_times T origin q n s) = CurrentEra s \<and>
    RegisteredProviders (claim_times T origin q n s) = RegisteredProviders s \<and>
    latest_staked_value (staker_info_of (claim_times T origin q n s) a p) = latest_staked_value (staker_info_of s a p)"
  using assms(1)
proof (induction n arbitrary: s)
  case (Suc n)
  have "staking_reachable T (snd (claim_staker T origin q s))"
    using claim_times_run [OF Suc.prems, of origin q 1] by simp
  moreover have books: "books_balance s" by (rule reachable_books [OF Suc.prems staking_laws_min [OF assms(2)]])
  ultimately show ?case
    using Suc.IH claim_keeps(1-3) [OF books, of T origin q] claim_keeps(4) [OF books, of T origin q a p] by simp
qed simp

end
