(* ===== verification/Staking_Outcomes.thy ===== *)
theory Staking_Outcomes
  imports Staking_Liveness
begin

text \<open>
  The properties of the staking pallet about refusals and about the ends of things: which errors
  cannot occur, what a refused call leaves, how an era ends, how stakers and operators get their
  money back from a provider that has left, and two ways in which the code can get stuck.
\<close>

section \<open>Eras\<close>



section \<open>Refusals\<close>

text \<open>
  C24. In a reachable state neither \<^verbatim>\<open>stake\<close> nor \<^verbatim>\<open>unstake\<close> ever fails with \<^verbatim>\<open>UnexpectedStakeInfoEra\<close>: a
  history never holds an entry for a future era.
\<close>

theorem no_unexpected_era:
  assumes "staking_reachable T s" "0 < MinimumStakingAmount T"
  shows "fst (stake T origin p v s) \<noteq> Inl (Module UnexpectedStakeInfoEra) \<and>
    fst (unstake T origin p v s) \<noteq> Inl (Module UnexpectedStakeInfoEra)"
proof -
  note B = books_balanceD [OF reachable_books [OF assms]]
  have "\<exists>i. StakerInfo_stake (staker_info_of s a p) (CurrentEra s) w = Inr i" for a w
    by (rule staker_info.stake_defined [OF B(3,4)])
  then have st: "StakerInfo_stake (staker_info_of s a p) (CurrentEra s) w \<noteq> Inl x" for a w x by (metis sum.distinct(1))
  have "\<exists>i. StakerInfo_unstake (staker_info_of s a p) (CurrentEra s) w = Inr i" for a w
    by (rule staker_info.unstake_defined [OF B(3,4)])
  then have un: "StakerInfo_unstake (staker_info_of s a p) (CurrentEra s) w \<noteq> Inl x" for a w x by (metis sum.distinct(1))
  have "fst (stake T origin p v s) \<noteq> Inl (Module UnexpectedStakeInfoEra)"
    using st by (auto simp: stake_def Let_def split: option.splits sum.splits if_splits)
  moreover have "fst (unstake T origin p v s) \<noteq> Inl (Module UnexpectedStakeInfoEra)"
    using un by (auto simp: unstake_def Let_def split: option.splits sum.splits if_splits)
  ultimately show ?thesis ..
qed

theorem no_unexpected_era_witness:
  "staking_reachable sample_staking sample_next \<and>
   fst (stake sample_staking (Some 2) True 5 sample_next) \<noteq> Inl (Module UnexpectedStakeInfoEra)"
  using no_unexpected_era [OF sample_reachable(2) sample_staking_laws(2)] sample_reachable(2) by blast

text \<open>
  A refused extrinsic leaves no trace in the storage of the pallet: staking, unstaking and the
  withdrawals return the state they were called in, and a refused claim differs from it at most in
  what the currency did when it was asked for the reward.
\<close>

theorem refused_extrinsics:
  "(stake T origin p v s = (Inl err, s') \<longrightarrow> s' = s) \<and>
   (unstake T origin p v s = (Inl err, s') \<longrightarrow> s' = s) \<and>
   (withdraw_unstaked T origin s = (Inl err, s') \<longrightarrow> s' = s) \<and>
   (withdraw_from_unregistered_staker T origin p s = (Inl err, s') \<longrightarrow> s' = s) \<and>
   (withdraw_from_unregistered_operator T origin p s = (Inl err, s') \<longrightarrow> s' = s) \<and>
   (claim_staker T origin p s = (Inl err, s') \<longrightarrow> (\<exists>c. s' = s\<lparr>Balances := c\<rparr>)) \<and>
   (claim_operator T origin p e s = (Inl err, s') \<longrightarrow> (\<exists>c. s' = s\<lparr>Balances := c\<rparr>))"
  by (intro conjI impI; (erule refused_unchanged refused_only_balances))

section \<open>Leaving a provider\<close>

text \<open>
  A staker gets its stake back from a provider that has left: once the unbonding period after the
  provider's last era is over and the eras before it are claimed, the withdrawal succeeds, frees
  exactly the stake, removes the history, and cannot be repeated.
\<close>

theorem withdraw_staker_effect:
  assumes "staking_reachable T s" "0 < MinimumStakingAmount T"
    and a: "ensure_signed (System T) origin = Some a"
    and info: "RegisteredProviders s p = Some info" "pi_state info = Unregistered u"
    and era: "u + UnbondingPeriod T < CurrentEra s"
    and staked: "latest_staked_value (staker_info_of s a p) \<noteq> 0"
    and claimed: "u \<le> fst (fst (StakerInfo_claim (staker_info_of s a p)))"
  shows "\<exists>s'. withdraw_from_unregistered_staker T origin p s = (Inr (), s') \<and>
    unat (locked (ledger s' a)) + unat (latest_staked_value (staker_info_of s a p)) =
      unat (locked (ledger s a)) \<and>
    staker_info_of s' a p = StakerInfo_default \<and>
    fst (withdraw_from_unregistered_staker T origin p s') = Inl (Module NotStakedProvider)"
proof -
  note B = books_balanceD [OF reachable_books [OF assms(1,2)]]
  let ?v = "latest_staked_value (staker_info_of s a p)"
  let ?l = "(ledger s a)\<lparr>locked := saturating_sub (locked (ledger s a)) ?v\<rparr>"
  have v: "0 < ?v" using staked by (simp add: word_gt_0)
  obtain s' where s': "withdraw_from_unregistered_staker T origin p s = (Inr (), s')"
      "Ledger s' = upd_default AccountLedger_default (Ledger s) a ?l"
      "GeneralStakerInfo s' = upd_default StakerInfo_default (GeneralStakerInfo s) (a, p) StakerInfo_default"
      "RegisteredProviders s' = RegisteredProviders s" "CurrentEra s' = CurrentEra s"
    using a info era v claimed by (simp add: withdraw_from_unregistered_staker_def Let_def)
  have I: "staker_info_of s' a p = StakerInfo_default"
    using staker_info_of_upd_default [OF s'(3)] by simp
  have "unat ?v \<le> unat (locked (ledger s a))" using B(6) [of a] B(7) [of a p] by simp
  moreover have "fst (withdraw_from_unregistered_staker T origin p s') = Inl (Module NotStakedProvider)"
    using a info era by (simp add: withdraw_from_unregistered_staker_def Let_def s' I)
  ultimately show ?thesis
    using s'(1) I by (simp add: ledger_upd_default [OF s'(2)] unat_saturating_sub)
qed

text \<open>The sample run goes on: account 2 claims, the provider leaves in era 2, and era 5 begins.\<close>

definition sample_left :: "(nat, bool, purse) staking" where
  "sample_left = sample_block 13 (sample_block 10 (sample_block 7
     (snd (unregister True (snd (claim_staker sample_staking (Some 2) True sample_next)) ::
       (nat, bool, purse, unit) staking_outcome))))"

lemmas sample_left_eval = sample_left_def sample_block_def unregister_def claim_staker_def
  sample_next_eq staking_eval

lemma sample_left_reachable: "staking_reachable sample_staking sample_left"
proof -
  have "(staking_step sample_staking)\<^sup>*\<^sup>* (genesis sample_purse) sample_left"
    unfolding sample_left_def
    by (intro sample_block_run unregister_run call_run sample_runs)
      (simp_all add: sample_block_def unregister_def claim_staker_def sample_next_eq staking_eval)
  then show ?thesis unfolding staking_reachable_def by blast
qed

text \<open>
  C13. A staker can claim everything that is due. As long as its history is live, it needs exactly as
  many calls as there are past eras in which it had a stake on the provider: each of them succeeds
  unless the currency refuses the payment, and afterwards nothing is due.
\<close>

theorem staker_can_claim_all:
  assumes "staking_reachable T s" "staking_laws T" "ensure_signed (System T) origin = Some a"
    and "live (staker_info_of s a p)"
    and "\<forall>k < card (due s a p). \<forall>err. fst (claim_staker T origin p (claim_times T origin p k s)) \<noteq> Inl (External err)"
  shows "(\<forall>k < card (due s a p). fst (claim_staker T origin p (claim_times T origin p k s)) = Inr ()) \<and>
    due (claim_times T origin p (card (due s a p)) s) a p = {}"
  using claim_all [OF assms(1-4) refl] assms(5) by blast

text \<open>
  C25. A staker gets out of a provider that has left with everything: after the claims that are due it
  withdraws the whole stake, however much was still to be claimed when the unbonding period ended,
  and its locked balance is smaller by exactly the stake.
\<close>

theorem staker_gets_out:
  assumes "staking_reachable T s" "staking_laws T" "ensure_signed (System T) origin = Some a"
    and "live (staker_info_of s a p)"
    and "\<forall>k < card (due s a p). \<forall>err. fst (claim_staker T origin p (claim_times T origin p k s)) \<noteq> Inl (External err)"
    and info: "RegisteredProviders s p = Some info" "pi_state info = Unregistered u"
    and era: "u + UnbondingPeriod T < CurrentEra s"
    and staked: "latest_staked_value (staker_info_of s a p) \<noteq> 0"
  shows "\<exists>s'. withdraw_from_unregistered_staker T origin p (claim_times T origin p (card (due s a p)) s) = (Inr (), s') \<and>
    unat (locked (ledger s' a)) + unat (latest_staked_value (staker_info_of s a p)) = unat (locked (ledger s a)) \<and>
    staker_info_of s' a p = StakerInfo_default"
proof -
  let ?t = "claim_times T origin p (card (due s a p)) s"
  have reach: "staking_reachable T ?t" by (rule claim_times_run [OF assms(1)])
  have all: "due ?t a p = {}" "live (staker_info_of ?t a p)"
    using claim_all [OF assms(1-4) refl] assms(5) by blast+
  have keeps: "Ledger ?t = Ledger s" "CurrentEra ?t = CurrentEra s" "RegisteredProviders ?t = RegisteredProviders s"
    "latest_staked_value (staker_info_of ?t a p) = latest_staked_value (staker_info_of s a p)"
    using claim_times_keeps [OF assms(1,2), of origin p _ a p] by simp_all
  have "u \<le> fst (fst (StakerInfo_claim (staker_info_of ?t a p)))"
    by (rule nothing_due [OF reachable_shares [OF reach assms(2)] all(2,1)])
      (use info staked keeps in simp_all)
  then have "\<exists>s'. withdraw_from_unregistered_staker T origin p ?t = (Inr (), s') \<and>
      unat (locked (ledger s' a)) + unat (latest_staked_value (staker_info_of ?t a p)) = unat (locked (ledger ?t a)) \<and>
      staker_info_of s' a p = StakerInfo_default"
    using withdraw_staker_effect [OF reach staking_laws_min [OF assms(2)] assms(3), of p info u] info era staked keeps
    by auto
  then show ?thesis by (simp add: keeps ledger_def)
qed

text \<open>Account 5 of the sample run has not claimed era 1 when the provider leaves.\<close>

lemma sample_left_facts:
  "ensure_signed (System sample_staking) (Some 5) = Some 5" "live (staker_info_of sample_left 5 True)"
  "due sample_left 5 True = {1}"
  "fst (claim_staker sample_staking (Some 5) True sample_left) = Inr ()"
proof -
  show "ensure_signed (System sample_staking) (Some 5) = Some 5" "live (staker_info_of sample_left 5 True)"
    "fst (claim_staker sample_staking (Some 5) True sample_left) = Inr ()"
    by (simp_all add: live_def live_entries_def sample_left_eval)
  have "claimable sample_left True e \<longleftrightarrow> e < 2" "CurrentEra sample_left = 5"
    "staked_at (staker_info_of sample_left 5 True) e = (if 1 \<le> e then 50 else 0)" for e
    by (simp_all add: claimable_def staked_at_def sample_left_eval)
  then show "due sample_left 5 True = {1}" by (auto simp: due_def word_nat)
qed

theorem staker_can_claim_all_witness:
  "fst (claim_staker sample_staking (Some 5) True sample_left) = Inr () \<and>
   due (claim_times sample_staking (Some 5) True 1 sample_left) 5 True = {}"
  using staker_can_claim_all [OF sample_left_reachable sample_staking_laws(1) sample_left_facts(1,2)] sample_left_facts
  by simp

theorem staker_gets_out_witness:
  "\<exists>s'. withdraw_from_unregistered_staker sample_staking (Some 5) True
       (snd (claim_staker sample_staking (Some 5) True sample_left)) = (Inr (), s') \<and>
     unat (locked (ledger s' 5)) + 50 = unat (locked (ledger sample_left 5)) \<and>
     staker_info_of s' 5 True = StakerInfo_default"
proof -
  let ?info = "\<lparr>pi_operator = 5::nat, pi_state = Unregistered 2, pi_unreserved = False\<rparr>"
  have facts: "RegisteredProviders sample_left True = Some ?info" "pi_state ?info = Unregistered 2"
    "2 + UnbondingPeriod sample_staking < CurrentEra sample_left"
    "latest_staked_value (staker_info_of sample_left 5 True) \<noteq> 0"
    and "unat (latest_staked_value (staker_info_of sample_left 5 True)) = 50"
    by (simp_all add: sample_left_eval)
  then show ?thesis
    using staker_gets_out [OF sample_left_reachable sample_staking_laws(1) sample_left_facts(1,2) _ facts]
      sample_left_facts(3,4) by simp
qed

text \<open>
  C26. The deposit of an operator is returned at most once, whatever happens in between.
\<close>

theorem operator_deposit_once:
  assumes "withdraw_from_unregistered_operator T o1 p s = (Inr (), s1)" "(staking_step T)\<^sup>*\<^sup>* s1 t"
  shows "fst (withdraw_from_unregistered_operator T o2 p t) \<noteq> Inr ()"
proof
  assume again: "fst (withdraw_from_unregistered_operator T o2 p t) = Inr ()"
  have "deposit_returned p s1"
    using assms(1) by (rule withdraw_from_unregistered_operator_okE) (simp add: deposit_returned_def)
  then have "deposit_returned p t" by (rule deposit_once.run_invar [OF assms(2)])
  moreover have "withdraw_from_unregistered_operator T o2 p t =
      (Inr (), snd (withdraw_from_unregistered_operator T o2 p t))"
    using again by (metis surjective_pairing)
  then have "\<not> deposit_returned p t"
    by (rule withdraw_from_unregistered_operator_okE) (simp add: deposit_returned_def)
  ultimately show False by simp
qed

theorem operator_deposit_once_witness:
  "fst (withdraw_from_unregistered_operator sample_staking (Some 5) True sample_left) = Inr () \<and>
   fst (withdraw_from_unregistered_operator sample_staking (Some 5) True
     (snd (withdraw_from_unregistered_operator sample_staking (Some 5) True sample_left))) \<noteq> Inr ()"
proof -
  have "fst (withdraw_from_unregistered_operator sample_staking (Some 5) True sample_left) = Inr ()"
    by (simp add: withdraw_from_unregistered_operator_def sample_left_eval)
  then show ?thesis
    using operator_deposit_once [of sample_staking "Some 5" True sample_left, OF _ rtranclp.rtrancl_refl]
    by (metis surjective_pairing)
qed

section \<open>Two ways to get stuck\<close>

text \<open>
  A history whose oldest entry has nothing staked, for a provider that has left after the era of
  that entry: \<^verbatim>\<open>claim\<close> returns the empty entry, so nothing can be claimed, and as long as something
  remains to be claimed nothing can be withdrawn.
\<close>

definition stuck :: "'a \<Rightarrow> 'p \<Rightarrow> staker_info \<Rightarrow> ('a, 'p, 'c) staking \<Rightarrow> bool" where
  "stuck a p h s \<longleftrightarrow> staker_info_of s a p = h \<and>
     (\<exists>x rest info u. stakes h = x # rest \<and> es_staked x = 0 \<and> 0 < es_era x \<and> es_era x < u \<and>
        RegisteredProviders s p = Some info \<and> pi_state info = Unregistered u)"

lemma stuck_refused:
  assumes "stuck a p h s" "ensure_signed (System T) origin = Some a"
  shows "fst (claim_staker T origin p s) = Inl (Module NotStakedProvider)"
    "fst (withdraw_from_unregistered_staker T origin p s) \<noteq> Inr ()"
proof -
  show "fst (claim_staker T origin p s) = Inl (Module NotStakedProvider)"
    using assms by (auto simp: stuck_def claim_staker_def StakerInfo_claim_Cons)
  show "fst (withdraw_from_unregistered_staker T origin p s) \<noteq> Inr ()"
  proof
    assume "fst (withdraw_from_unregistered_staker T origin p s) = Inr ()"
    then have "withdraw_from_unregistered_staker T origin p s =
        (Inr (), snd (withdraw_from_unregistered_staker T origin p s))"
      by (metis surjective_pairing)
    then show False
      by (rule withdraw_from_unregistered_staker_okE)
        (use assms in \<open>auto simp: stuck_def StakerInfo_claim_Cons dest: leD\<close>)
  qed
qed

lemma stuck_change:
  assumes "stuck a p h s" "GeneralStakerInfo s' = upd_default StakerInfo_default (GeneralStakerInfo s) (b, q) i"
    and "(b, q) \<noteq> (a, p)" "RegisteredProviders s' = RegisteredProviders s"
  shows "stuck a p h s'"
  using assms(1,3,4) staker_info_of_upd_default [OF assms(2), of a p] by (auto simp: stuck_def)

lemma stuck_registry:
  assumes "stuck a p h s" "GeneralStakerInfo s' = GeneralStakerInfo s"
    and "\<And>info u. RegisteredProviders s p = Some info \<Longrightarrow> pi_state info = Unregistered u \<Longrightarrow>
      \<exists>info'. RegisteredProviders s' p = Some info' \<and> pi_state info' = Unregistered u"
  shows "stuck a p h s'"
  using assms(1,3) unfolding stuck_def staker_info_of_def assms(2) by metis

lemma stuck_inactive: "stuck a p h s \<Longrightarrow> \<not> is_active_provider p s"
  by (auto simp: stuck_def is_active_provider_def)

lemma stuck_signed_calls:
  assumes "stuck a p h s"
  shows "stake T origin q v s = (Inr (), s') \<Longrightarrow> stuck a p h s'"
    and "unstake T origin q v s = (Inr (), s') \<Longrightarrow> stuck a p h s'"
    and "claim_staker T origin q s = (Inr (), s') \<Longrightarrow> stuck a p h s'"
    and "withdraw_from_unregistered_staker T origin q s = (Inr (), s') \<Longrightarrow> stuck a p h s'"
proof -
  note inactive = stuck_inactive [OF assms]
  have other: "(b, q) \<noteq> (a, p)" if "is_active_provider q s" for b
    using that inactive by auto
  show "stuck a p h s'" if ok: "stake T origin q v s = (Inr (), s')"
    using ok by (rule stake_historyE) (rule stuck_change [OF assms _ other stake_registry [OF ok]])
  show "stuck a p h s'" if ok: "unstake T origin q v s = (Inr (), s')"
    using ok by (rule unstake_historyE) (rule stuck_change [OF assms _ other successful_registry(2) [OF ok]])
  show "stuck a p h s'" if ok: "claim_staker T origin q s = (Inr (), s')"
    using ok
  proof (rule claim_staker_okE)
    fix b e i c imb reward
    assume b: "ensure_signed (System T) origin = Some b"
      and s': "s' = deposit_event (Reward b q e reward)
         (update_staker_info b q i (s\<lparr>Balances := resolve_creating (Currency T) c b imb\<rparr>))"
    have "(b, q) \<noteq> (a, p)" using stuck_refused(1) [OF assms, of T origin] b ok by auto
    then show ?thesis by (rule stuck_change [OF assms, rotated]) (simp_all add: s')
  qed
  show "stuck a p h s'" if ok: "withdraw_from_unregistered_staker T origin q s = (Inr (), s')"
    using ok
  proof (rule withdraw_from_unregistered_staker_okE)
    fix b w
    assume b: "ensure_signed (System T) origin = Some b"
      and s': "s' = deposit_event (WithdrawFromUnregistered b q w)
         (mutate_era_info (CurrentEra s)
            (\<lambda>x. x\<lparr>ei_staked := saturating_sub (ei_staked x) w,
                    ei_locked := saturating_sub (ei_locked x) w\<rparr>)
            (update_staker_info b q StakerInfo_default
              (update_ledger T b ((ledger s b)\<lparr>locked := saturating_sub (locked (ledger s b)) w\<rparr>) s)))"
    have "(b, q) \<noteq> (a, p)" using stuck_refused(2) [OF assms, of T origin] b ok by auto
    then show ?thesis by (rule stuck_change [OF assms, rotated]) (simp_all add: s')
  qed
qed

lemma stuck_other_calls:
  "stuck a p h s \<Longrightarrow> stuck a p h (s\<lparr>Balances := c\<rparr>)"
  "stuck a p h s \<Longrightarrow> stuck a p h (s\<lparr>ForceEra := f\<rparr>)"
  "stuck a p h s \<Longrightarrow> stuck a p h (s\<lparr>BlockRewardAccumulator := acc\<rparr>)"
  "withdraw_unstaked T origin s = (Inr (), s') \<Longrightarrow> stuck a p h s \<Longrightarrow> stuck a p h s'"
  "claim_operator T origin q e s = (Inr (), s') \<Longrightarrow> stuck a p h s \<Longrightarrow> stuck a p h s'"
  "on_initialize T now s = Some (w, s') \<Longrightarrow> era_ends T now s \<Longrightarrow> CurrentEra s < - 1 \<Longrightarrow>
     stuck a p h s \<Longrightarrow> stuck a p h s'"
  by (auto simp: on_initialize_new_era(5,6) elim!: withdraw_unstaked_okE claim_operator_okE
      elim: stuck_registry)

lemma stuck_registry_calls:
  "withdraw_from_unregistered_operator T origin q s = (Inr (), s') \<Longrightarrow> stuck a p h s \<Longrightarrow> stuck a p h s'"
  "RegisteredProviders s q = None \<Longrightarrow> stuck a p h s \<Longrightarrow> stuck a p h (enrol c b q s)"
  "unregister q s = (Inr (), s') \<Longrightarrow> stuck a p h s \<Longrightarrow> stuck a p h s'"
proof -
  show "stuck a p h s'"
    if ok: "withdraw_from_unregistered_operator T origin q s = (Inr (), s')" and inv: "stuck a p h s"
    by (rule stuck_registry [OF inv]) (use ok in \<open>auto elim!: withdraw_from_unregistered_operator_okE\<close>)
  show "stuck a p h (enrol c b q s)" if new: "RegisteredProviders s q = None" and inv: "stuck a p h s"
    by (rule stuck_registry [OF inv]) (use new in \<open>auto simp: enrol_def\<close>)
  show "stuck a p h s'" if ok: "unregister q s = (Inr (), s')" and inv: "stuck a p h s"
    by (rule stuck_registry [OF inv]) (use ok in \<open>auto elim!: unregister_okE\<close>)
qed

interpretation stuck_forever: invariant_system "staking_step T" "stuck a p h" for T a p h
proof
  fix s t
  assume step: "staking_step T s t" and inv: "stuck a p h s"
  show "stuck a p h t"
    by (rule staking_step_rel [where P = "stuck a p h" and Q = "stuck a p h", OF step inv])
      (assumption | rule stuck_other_calls stuck_registry_calls; assumption | erule stuck_signed_calls [rotated]; assumption)+
qed

text \<open>
  C31. Funds can be locked for good. If the oldest entry of a history has nothing staked and the
  provider left in a later era, then in every later state the history is the same, no claim of the
  staker succeeds, no withdrawal succeeds, and the stake stays locked.
\<close>

theorem funds_stuck:
  assumes "staking_reachable T s" "0 < MinimumStakingAmount T"
    and origin: "ensure_signed (System T) origin = Some a"
    and head: "stakes (staker_info_of s a p) = x # rest" "es_staked x = 0" "0 < es_era x" "es_era x < u"
    and left: "RegisteredProviders s p = Some info" "pi_state info = Unregistered u"
    and run: "(staking_step T)\<^sup>*\<^sup>* s t"
  shows "staker_info_of t a p = staker_info_of s a p \<and>
    fst (claim_staker T origin p t) \<noteq> Inr () \<and>
    fst (withdraw_from_unregistered_staker T origin p t) \<noteq> Inr () \<and>
    unat (latest_staked_value (staker_info_of s a p)) \<le> unat (locked (ledger t a))"
proof -
  have "stuck a p (staker_info_of s a p) s" unfolding stuck_def using head left by blast
  then have stuck: "stuck a p (staker_info_of s a p) t" by (rule stuck_forever.run_invar [OF run])
  have "books_balance t"
    using staking_books.run_invar [OF run] reachable_books [OF assms(1,2)] assms(2) by simp
  note B = books_balanceD [OF this]
  have same: "staker_info_of t a p = staker_info_of s a p" using stuck by (simp add: stuck_def)
  then have "unat (latest_staked_value (staker_info_of s a p)) \<le> unat (locked (ledger t a))"
    using B(6) [of a] B(7) [of a p] by simp
  with same stuck_refused [OF stuck origin] show ?thesis by simp
qed

text \<open>
  The calls that lead there: account 2 unstakes everything in era 2, stakes again and unstakes again
  in era 3, claims era 1, and stakes in era 4. Its history then is \<open>[<0, 3>, <30, 4>]\<close>. The provider
  leaves in era 5.
\<close>

definition sample_stuck :: "(nat, bool, purse) staking" where
  "sample_stuck =
     snd (unregister True (sample_block 13
      (snd (stake sample_staking (Some 2) True 30 (sample_block 10
      (snd (claim_staker sample_staking (Some 2) True
      (snd (unstake sample_staking (Some 2) True 30
      (snd (stake sample_staking (Some 2) True 30 (sample_block 7
      (snd (unstake sample_staking (Some 2) True 30 (sample_block 4 sample_staked)))))))))))))) ::
        (nat, bool, purse, unit) staking_outcome)"

lemmas sample_stuck_eval = sample_block_def unregister_def claim_staker_def stake_def unstake_def
  sample_staked_eq staking_eval

lemma sample_stuck_state:
  "stakes (staker_info_of sample_stuck 2 True) = [\<lparr>es_staked = 0, es_era = 3\<rparr>, \<lparr>es_staked = 30, es_era = 4\<rparr>]"
  "RegisteredProviders sample_stuck True =
     Some \<lparr>pi_operator = 5, pi_state = Unregistered 5, pi_unreserved = False\<rparr>"
  by (simp_all add: sample_stuck_def sample_stuck_eval)

lemma sample_stuck_reachable: "staking_reachable sample_staking sample_stuck"
proof -
  have "(staking_step sample_staking)\<^sup>*\<^sup>* (genesis sample_purse) sample_stuck"
    unfolding sample_stuck_def
    by (intro unregister_run sample_block_run call_run sample_runs) (simp_all add: sample_stuck_eval)
  then show ?thesis unfolding staking_reachable_def by blast
qed

theorem funds_stuck_witness:
  "staking_reachable sample_staking sample_stuck \<and>
   fst (withdraw_from_unregistered_staker sample_staking (Some 2) True
     (sample_block 25 (sample_block 22 (sample_block 19 (sample_block 16 sample_stuck))))) \<noteq> Inr ()"
proof -
  have origin: "ensure_signed (System sample_staking) (Some 2) = Some 2"
    by (simp add: sample_defs)
  have "(staking_step sample_staking)\<^sup>*\<^sup>* sample_stuck
      (sample_block 25 (sample_block 22 (sample_block 19 (sample_block 16 sample_stuck))))"
    by (intro sample_block_run rtranclp.rtrancl_refl) (simp_all add: sample_stuck_def sample_stuck_eval)
  from funds_stuck [OF sample_stuck_reachable sample_staking_laws(2) origin sample_stuck_state(1) _ _ _
      sample_stuck_state(2) _ this, of 5]
  show ?thesis using sample_stuck_reachable by simp
qed

text \<open>
  C32. A registration can fail half way: \<^verbatim>\<open>register\<close> reserves the deposit and enters the provider before
  it stakes, so when the stake is refused the provider stays entered under the operator and the
  currency is left as the reservation made it. In every later state, whatever steps of the pallet and
  of the currency lead there, the provider is still entered under that operator and every
  registration of it is refused.
\<close>

theorem register_leaves_entry:
  assumes "register T a p d s = (Inl err, s')"
    and "reserve (Currency T) (Balances s) a (RegisterDeposit T) = (Inr x, c)"
    and "RegisteredProviders s p = None" "RegisterDeposit T + MinimumStakingAmount T \<le> d"
  shows "RegisteredProviders s' p = Some (ProviderInfo_new a) \<and> Balances s' = c \<and>
    (\<forall>t. (staking_step T)\<^sup>*\<^sup>* s' t \<longrightarrow>
      (\<exists>info. RegisteredProviders t p = Some info \<and> pi_operator info = a) \<and>
      (\<forall>b d'. register T b p d' t = (Inl (Module AlreadyRegisteredProvider), t)))"
  using assms(1)
proof (cases rule: register_cases)
  case (enrolled y c')
  then have s': "s' = enrol c' a p s" "c' = c" using refused_unchanged(3) assms(2) by auto
  have entry: "RegisteredProviders s' p = Some (ProviderInfo_new a)" "Balances s' = c"
    by (simp_all add: s' enrol_def)
  then have "entered_under a p s'" by (simp add: entered_under_def ProviderInfo_new_def)
  from entries_stay.run_invar [OF _ this]
  have later: "entered_under a p t" if "(staking_step T)\<^sup>*\<^sup>* s' t" for t using that .
  have "\<exists>info. RegisteredProviders t p = Some info \<and> pi_operator info = a"
    if "(staking_step T)\<^sup>*\<^sup>* s' t" for t
    using later [OF that] by (simp add: entered_under_def split: option.splits)
  with entry register_entered [OF later] show ?thesis by blast
qed (use assms(2,3,4) in auto)

theorem register_leaves_entry_witness:
  "let s = snd (register sample_staking 5 True 150 (genesis (\<lambda>_. 105)));
       t = snd (force_new_era sample_staking None s) in
   RegisteredProviders s True = Some (ProviderInfo_new 5) \<and> ForceEra t = ForceNew \<and>
   register sample_staking 5 True 150 t = (Inl (Module AlreadyRegisteredProvider), t)"
proof -
  let ?s = "genesis (\<lambda>_::nat. 105::balance) :: (nat, bool, purse) staking"
  let ?s1 = "snd (register sample_staking 5 True 150 ?s)"
  have "register sample_staking 5 True 150 ?s = (Inl (Module InsufficientValue), ?s1)"
    "reserve (Currency sample_staking) (Balances ?s) 5 (RegisterDeposit sample_staking) =
      (Inr (), (\<lambda>_. 105)(5 := 5))"
    "RegisteredProviders ?s True = None"
    "RegisterDeposit sample_staking + MinimumStakingAmount sample_staking \<le> 150"
    by (simp_all add: register_def stake_def staking_eval)
  note left = register_leaves_entry [OF this]
  have "(staking_step sample_staking)\<^sup>*\<^sup>* ?s1 (snd (force_new_era sample_staking None ?s1))"
    by (intro r_into_rtranclp force_new_era_step [OF surjective_pairing])
  moreover have "ForceEra (snd (force_new_era sample_staking None ?s1)) = ForceNew"
    by (simp add: force_new_era_def sample_staking_def sample_system_def)
  ultimately show ?thesis using left by (simp add: Let_def)
qed

end
