(* ===== verification/Era_Properties.thy ===== *)
theory Era_Properties
  imports Staking_Payouts Staking_Outcomes
begin

text \<open>
  The properties of the eras: the totals of the current era are the sums they claim to be, a past
  era never changes, and no era pays out more than it collected.
\<close>

section \<open>The totals of the current era\<close>

text \<open>
  C3. From the first block on, the entry of the current era holds exactly the sum of all stakes and the
  sum of all locked balances, after whatever calls, as long as everything locked together fits into
  128 bits: the saturating additions of the code then never saturate.
\<close>

theorem era_totals_always:
  assumes "on_initialize T now (genesis c) = Some (w, s0)" "(funded_step T)\<^sup>*\<^sup>* s0 s"
    and "0 < MinimumStakingAmount T"
  shows "\<exists>x. GeneralEraInfo s (CurrentEra s) = Some x \<and>
    unat (ei_staked x) = total_staked s \<and> unat (ei_locked x) = total_locked s"
  using era_totals.run_invar [OF assms(2)] first_block_sums [OF assms(1)] assms(3)
  by (simp add: era_sums_def)

lemma sample_start_block:
  "\<exists>w. on_initialize sample_staking 1 (genesis sample_purse) = Some (w, sample_start)"
  unfolding sample_start_def sample_block_def by (simp add: on_initialize_def Let_def split_beta sample_staking_def)

lemma sample_funded_run: "(funded_step sample_staking)\<^sup>*\<^sup>* sample_start sample_staked"
proof -
  have "total_locked sample_registered < 2 ^ 128"
    by (simp add: total_locked_def msum_def sample_registered_def sample_start_def sample_block_def
        staking_call_defs staking_eval)
  then have "funded_step sample_staking sample_start sample_registered"
    unfolding funded_step_def sample_registered_def by (intro conjI register_step [OF surjective_pairing])
  moreover have "total_locked sample_staked < 2 ^ 128"
    by (simp add: total_locked_def msum_def sample_staked_eq)
  then have "funded_step sample_staking sample_registered sample_staked"
    unfolding funded_step_def sample_staked_def by (intro conjI stake_step [OF surjective_pairing])
  ultimately show ?thesis by (rule converse_rtranclp_into_rtranclp [OF _ r_into_rtranclp])
qed

theorem era_totals_always_witness:
  "total_staked sample_staked = 80 \<and> total_locked sample_staked = 80"
proof -
  obtain w where "on_initialize sample_staking 1 (genesis sample_purse) = Some (w, sample_start)"
    using sample_start_block by blast
  from era_totals_always [OF this sample_funded_run sample_staking_laws(2)]
  show ?thesis by (simp add: sample_staked_eq)
qed

section \<open>The past\<close>

text \<open>
  C10. An era that has ended is fixed: its rewards and its total, and the totals its providers are paid
  by, are the same in every later state, and what its stakers have left to claim only shrinks.
\<close>

theorem past_is_fixed:
  assumes "staking_reachable T s" "staking_laws T" "(staking_step T)\<^sup>*\<^sup>* s s'" "e < CurrentEra s"
  shows "GeneralEraInfo s' e = GeneralEraInfo s e \<and>
    psi_total (provider_stake s' p e) = psi_total (provider_stake s p e) \<and>
    unclaimed_on s' p e \<le> unclaimed_on s p e"
  using past.run_invar [OF assms(3), of s] reachable_shares [OF assms(1,2)] past_kept_refl assms(2,4)
  by (auto simp: past_kept_def era_kept_def)

section \<open>What is paid for an era\<close>

text \<open>
  C4. No era pays out more than it collected. Over a whole run from the first block, whatever stakers
  and operators of all providers claim for an era adds up to at most the rewards recorded for the
  era, plus one and a half units of rounding for each payment: a share is rounded down to parts per
  billion and a product to the nearest unit, and the shares of all providers and stakers together
  never exceed the whole.
\<close>

theorem era_never_overpaid:
  assumes "on_initialize T now (genesis c) = Some (w, s0)" "(funded_step T)\<^sup>*\<^sup>* s0 s"
    and "staking_laws T" "perbill_rounds (Perbill T)" "GeneralEraInfo s e = Some x"
  shows "2 * paid_in s e \<le> 2 * (unat (ri_operators (ei_rewards x)) + unat (ri_stakers (ei_rewards x)))
    + 3 * payments_in s e"
proof -
  have inv: "payments_fit T s"
    using payments.run_invar [OF assms(2)] first_block_payments [OF assms(1,3)] assms(3,4) by blast
  show ?thesis
    by (rule era_payments [OF _ _ _ assms(4,5)]) (use inv in \<open>simp_all add: payments_fit_def shares_ok_def\<close>)
qed

text \<open>A run with payments: both stakers and the operator claim era 1.\<close>

definition sample_claim1 :: "(nat, bool, purse) staking" where
  "sample_claim1 = snd (claim_staker sample_staking (Some 2) True sample_next)"

definition sample_claim2 :: "(nat, bool, purse) staking" where
  "sample_claim2 = snd (claim_staker sample_staking (Some 5) True sample_claim1)"

definition sample_paid :: "(nat, bool, purse) staking" where
  "sample_paid = snd (claim_operator sample_staking (Some 5) True 1 sample_claim2)"

lemmas sample_claims = sample_claim1_def sample_claim2_def sample_paid_def

lemma sample_claims_eq:
  "Ledger sample_claim1 = Ledger sample_next" "Ledger sample_claim2 = Ledger sample_next"
  "Ledger sample_paid = Ledger sample_next"
  "Events sample_paid = Events sample_next @ [Reward 2 True 1 7, Reward 5 True 1 12, Reward 5 True 1 80]"
  "GeneralEraInfo sample_paid = GeneralEraInfo sample_next"
  by (simp_all add: sample_claims sample_next_eq staking_call_defs staking_eval)

theorem past_is_fixed_witness:
  "CurrentEra sample_next = 2 \<and> GeneralEraInfo sample_claim1 1 = GeneralEraInfo sample_next 1 \<and>
   psi_total (provider_stake sample_claim1 True 1) = 80 \<and>
   unclaimed_on sample_claim1 True 1 \<le> unclaimed_on sample_next True 1"
proof -
  have "staking_step sample_staking sample_next sample_claim1"
    unfolding sample_claims by (rule claim_staker_step [OF surjective_pairing])
  moreover have "CurrentEra sample_next = 2" "psi_total (provider_stake sample_next True 1) = 80"
    by (simp_all add: sample_next_eq provider_stake_def)
  ultimately show ?thesis
    using past_is_fixed [OF sample_reachable(2) sample_staking_laws(1) r_into_rtranclp, of sample_claim1 1 True] by simp
qed

lemma funded_into:
  "(funded_step T)\<^sup>*\<^sup>* r s \<Longrightarrow> staking_step T s s' \<Longrightarrow> total_locked s' < 2 ^ 128 \<Longrightarrow> (funded_step T)\<^sup>*\<^sup>* r s'"
  by (metis funded_step_def rtranclp.rtrancl_into_rtrancl)

lemma sample_paid_run: "(funded_step sample_staking)\<^sup>*\<^sup>* sample_start sample_paid"
proof -
  have locked: "total_locked s < 2 ^ 128" if "Ledger s = Ledger sample_next" for s :: "(nat, bool, purse) staking"
    using that by (simp add: total_locked_def msum_def sample_next_eq)
  have rewarded: "Ledger sample_rewarded = Ledger sample_next" "CurrentEra sample_rewarded < - 1"
    by (simp_all add: sample_rewarded_def rewards_def Let_def sample_next_eq sample_staked_eq word_less_nat_alt unat_max_word)
  have claims: "staking_step sample_staking sample_next sample_claim1"
    "staking_step sample_staking sample_claim1 sample_claim2" "staking_step sample_staking sample_claim2 sample_paid"
    unfolding sample_claims
    by (rule claim_staker_step [OF surjective_pairing] claim_operator_step [OF surjective_pairing])+
  have "(funded_step sample_staking)\<^sup>*\<^sup>* sample_start sample_rewarded"
    by (rule funded_into [OF sample_funded_run _ locked [OF rewarded(1)]]) (unfold sample_rewarded_def, rule rewards_step)
  moreover have "\<exists>w. on_initialize sample_staking 4 sample_rewarded = Some (w, sample_next)"
    unfolding sample_next_def sample_block_def by (simp add: on_initialize_def Let_def split_beta sample_staking_def)
  then have "staking_step sample_staking sample_rewarded sample_next"
    using initialize_step rewarded(2) by blast
  ultimately have "(funded_step sample_staking)\<^sup>*\<^sup>* sample_start sample_next"
    by (rule funded_into) (rule locked [OF refl])
  then have "(funded_step sample_staking)\<^sup>*\<^sup>* sample_start sample_claim1"
    by (rule funded_into [OF _ claims(1)])
      (rule locked, simp add: sample_claims_eq)
  then have "(funded_step sample_staking)\<^sup>*\<^sup>* sample_start sample_claim2"
    by (rule funded_into [OF _ claims(2)])
      (rule locked, simp add: sample_claims_eq)
  then show ?thesis
    by (rule funded_into [OF _ claims(3)])
      (rule locked, simp add: sample_claims_eq)
qed

lemma sample_perbill_rounds: "perbill_rounds sample_perbill"
proof -
  have mul: "unat (perbill_mul sample_perbill b x) = unat x * min b 1000000000 div 1000000000" for b x
  proof -
    have "unat x * min b 1000000000 div 1000000000 \<le> unat x * 1000000000 div 1000000000"
      by (intro div_le_mono mult_le_mono2) simp
    then have "unat x * min b 1000000000 div 1000000000 < 2 ^ 128"
      using unsigned_less [of x, where 'a = nat] by simp
    then show ?thesis by (simp add: sample_perbill_def unat_of_nat)
  qed
  show ?thesis
    unfolding perbill_rounds_def
  proof (intro exI [of _ "\<lambda>b. min b 1000000000"] conjI allI impI)
    fix p q :: balance
    show "min (from_rational sample_perbill p q) 1000000000 * unat q \<le> unat p * 10 ^ 9"
    proof (cases "unat q \<le> unat p")
      case False
      have "min (unat p * 1000000000 div unat q) 1000000000 * unat q \<le> unat p * 1000000000 div unat q * unat q"
        by (rule mult_le_mono1) simp
      also have "\<dots> \<le> unat p * 1000000000" by simp
      finally show ?thesis using False by (simp add: sample_perbill_def)
    qed (simp add: sample_perbill_def)
  next
    fix b and x :: balance
    show "2 * 10 ^ 9 * unat (perbill_mul sample_perbill b x) \<le> 2 * min b 1000000000 * unat x + 10 ^ 9"
      using times_div_less_eq_dividend [of 1000000000 "unat x * min b 1000000000"]
      unfolding mul by (simp add: ac_simps)
  qed
qed

theorem era_never_overpaid_witness:
  "2 * paid_in sample_paid 1 \<le> 2 * (80 + 20) + 3 * payments_in sample_paid 1 \<and> paid_in sample_paid 1 = 99"
proof -
  obtain w where "on_initialize sample_staking 1 (genesis sample_purse) = Some (w, sample_start)"
    using sample_start_block by blast
  from era_never_overpaid [OF this sample_paid_run sample_staking_laws(1), of 1
      "\<lparr>ei_rewards = \<lparr>ri_operators = 80, ri_stakers = 20\<rparr>, ei_staked = 80, ei_locked = 80\<rparr>"]
  show ?thesis
    by (simp add: sample_staking_def sample_perbill_rounds sample_claims_eq sample_next_eq payment_sums)
qed

end
