(* ===== verification/Weights.thy ===== *)
theory Weights
  imports Frame
begin

text \<open>
  The weights the extrinsics are charged for, \<^verbatim>\<open>weights.rs\<close> of the staking pallet and of the dApi
  pallet: the trait \<^verbatim>\<open>WeightInfo\<close> of each as a record, and its two implementations. The prices of the
  database are the framework's: \<^verbatim>\<open>T::DbWeight\<close> in \<^verbatim>\<open>SubstrateWeight<T>\<close> and \<^verbatim>\<open>RocksDbWeight\<close> in the
  implementation for \<^verbatim>\<open>()\<close>.
\<close>

section \<open>The staking pallet\<close>

record staking_weight_info =
  w_withdraw_from_unregistered_staker :: weight
  w_withdraw_from_unregistered_operator :: weight
  w_stake :: weight
  w_unstake :: weight
  w_withdraw_unstaked :: weight
  w_claim_staker :: weight
  w_claim_operator :: weight
  w_force_new_era :: weight

definition staking_SubstrateWeight :: "db_weight \<Rightarrow> staking_weight_info" where
  "staking_SubstrateWeight db =
     \<lparr>w_withdraw_from_unregistered_staker = saturating_add (saturating_add 72275000 (db_reads db 7)) (db_writes db 5),
      w_withdraw_from_unregistered_operator = saturating_add (saturating_add 45196000 (db_reads db 3)) (db_writes db 2),
      w_stake = saturating_add (saturating_add 101191000 (db_reads db 7)) (db_writes db 5),
      w_unstake = saturating_add (saturating_add 98554000 (db_reads db 7)) (db_writes db 5),
      w_withdraw_unstaked = saturating_add (saturating_add 77307000 (db_reads db 4)) (db_writes db 3),
      w_claim_staker = saturating_add (saturating_add 47505000 (db_reads db 5)) (db_writes db 1),
      w_claim_operator = saturating_add (saturating_add 40409000 (db_reads db 4)) (db_writes db 1),
      w_force_new_era = saturating_add 2125000 (db_writes db 1)\<rparr>"

definition staking_unit_weight :: "db_weight \<Rightarrow> staking_weight_info" where
  "staking_unit_weight rocks =
     \<lparr>w_withdraw_from_unregistered_staker = saturating_add (saturating_add 72275000 (db_reads rocks 7)) (db_writes rocks 5),
      w_withdraw_from_unregistered_operator = saturating_add (saturating_add 45196000 (db_reads rocks 3)) (db_writes rocks 2),
      w_stake = saturating_add (saturating_add 101191000 (db_reads rocks 7)) (db_writes rocks 5),
      w_unstake = saturating_add (saturating_add 98554000 (db_reads rocks 7)) (db_writes rocks 5),
      w_withdraw_unstaked = saturating_add (saturating_add 77307000 (db_reads rocks 4)) (db_writes rocks 3),
      w_claim_staker = saturating_add (saturating_add 47505000 (db_reads rocks 5)) (db_writes rocks 1),
      w_claim_operator = saturating_add (saturating_add 40409000 (db_reads rocks 4)) (db_writes rocks 1),
      w_force_new_era = saturating_add 2125000 (db_writes rocks 1)\<rparr>"

section \<open>The dApi pallet\<close>

record dapi_weight_info =
  w_register_project :: weight
  w_deposit_project :: weight
  w_register_provider :: weight
  w_unregister_provider :: weight
  w_add_chain_id :: weight
  w_remove_chain_id :: weight
  w_add_regulator :: weight
  w_remove_regulator :: weight

definition dapi_SubstrateWeight :: "db_weight \<Rightarrow> dapi_weight_info" where
  "dapi_SubstrateWeight db =
     \<lparr>w_register_project = saturating_add (saturating_add 35000000 (db_reads db 5)) (db_writes db 4),
      w_deposit_project = saturating_add (saturating_add 28000000 (db_reads db 4)) (db_writes db 4),
      w_register_provider = saturating_add (saturating_add 45000000 (db_reads db 10)) (db_writes db 8),
      w_unregister_provider = saturating_add (saturating_add 15000000 (db_reads db 3)) (db_writes db 2),
      w_add_chain_id = saturating_add (saturating_add 9000000 (db_reads db 1)) (db_writes db 1),
      w_remove_chain_id = saturating_add (saturating_add 9000000 (db_reads db 1)) (db_writes db 1),
      w_add_regulator = saturating_add (saturating_add 9000000 (db_reads db 1)) (db_writes db 1),
      w_remove_regulator = saturating_add (saturating_add 10000000 (db_reads db 1)) (db_writes db 1)\<rparr>"

definition dapi_unit_weight :: "db_weight \<Rightarrow> dapi_weight_info" where
  "dapi_unit_weight rocks =
     \<lparr>w_register_project = saturating_add (saturating_add 35000000 (db_reads rocks 5)) (db_writes rocks 4),
      w_deposit_project = saturating_add (saturating_add 28000000 (db_reads rocks 4)) (db_writes rocks 4),
      w_register_provider = saturating_add (saturating_add 45000000 (db_reads rocks 10)) (db_writes rocks 8),
      w_unregister_provider = saturating_add (saturating_add 15000000 (db_reads rocks 3)) (db_writes rocks 2),
      w_add_chain_id = saturating_add (saturating_add 9000000 (db_reads rocks 1)) (db_writes rocks 1),
      w_remove_chain_id = saturating_add (saturating_add 9000000 (db_reads rocks 1)) (db_writes rocks 1),
      w_add_regulator = saturating_add (saturating_add 9000000 (db_reads rocks 1)) (db_writes rocks 1),
      w_remove_regulator = saturating_add (saturating_add 10000000 (db_reads rocks 1)) (db_writes rocks 1)\<rparr>"

section \<open>The prices of the database\<close>

text \<open>
  \<^verbatim>\<open>RuntimeDbWeight\<close> is documented to charge a fixed price for every read and for every write, as long
  as the sum fits into a weight.
\<close>

definition db_linear :: "db_weight \<Rightarrow> nat \<Rightarrow> nat \<Rightarrow> bool" where
  "db_linear db r w \<longleftrightarrow>
     (\<forall>n. r * unat n < 2 ^ 64 \<longrightarrow> unat (db_reads db n) = r * unat n) \<and>
     (\<forall>n. w * unat n < 2 ^ 64 \<longrightarrow> unat (db_writes db n) = w * unat n) \<and>
     (\<forall>n m. r * unat n + w * unat m < 2 ^ 64 \<longrightarrow>
        unat (db_reads_writes db n m) = r * unat n + w * unat m)"

lemma db_linearD:
  assumes "db_linear db r w"
  shows "r * unat n < 2 ^ 64 \<Longrightarrow> unat (db_reads db n) = r * unat n"
    "w * unat n < 2 ^ 64 \<Longrightarrow> unat (db_writes db n) = w * unat n"
    "r * unat n + w * unat m < 2 ^ 64 \<Longrightarrow> unat (db_reads_writes db n m) = r * unat n + w * unat m"
  using assms by (simp_all add: db_linear_def)

text \<open>The shape of all the weights: a fixed part, so many reads, so many writes.\<close>

lemma weight_exact:
  assumes "db_linear db r w" "unat base + r * unat n + w * unat m < 2 ^ 64"
  shows "unat (saturating_add (saturating_add base (db_reads db n)) (db_writes db m)) =
    unat base + r * unat n + w * unat m"
  using assms(2) by (simp add: db_linearD [OF assms(1)] unat_saturating_add)

lemma write_weight_exact:
  assumes "db_linear db r w" "unat base + w * unat m < 2 ^ 64"
  shows "unat (saturating_add base (db_writes db m)) = unat base + w * unat m"
  using assms(2) by (simp add: db_linearD [OF assms(1)] unat_saturating_add)

end
