(* ===== verification/Staking_Bounds.thy ===== *)
theory Staking_Bounds
  imports Staking_Ledger
begin

text \<open>
  The sizes of the storage of the staking pallet. Its vectors have no bound in their type; the calls
  compare lengths, cast to 32 bits, with constants of the configuration. The invariant says that
  these checks are enough: every history, every queue and every counter of a reachable state stays
  within its bound, a stake is never dust, and no chunk of a queue is empty.
\<close>

section \<open>The entries\<close>

definition info_bounded ::
    "('o, 'a, 'p, 'c, 'i, 'b, 'e) staking_config \<Rightarrow> staker_info \<Rightarrow> bool" where
  "info_bounded T i \<longleftrightarrow> length (stakes i) < unat (MaxEraStakeValues T) \<and>
     (latest_staked_value i = 0 \<or> MinimumStakingAmount T \<le> latest_staked_value i)"

definition queue_bounded ::
    "('o, 'a, 'p, 'c, 'i, 'b, 'e) staking_config \<Rightarrow> unbonding_info \<Rightarrow> bool" where
  "queue_bounded T u \<longleftrightarrow> length (unlocking_chunks u) \<le> unat (MaxUnlockingChunks T) \<and>
     (\<forall>c\<in>set (unlocking_chunks u). 0 < chunk_amount c)"

definition storage_bounded ::
    "('o, 'a, 'p, 'c, 'i, 'b, 'e) staking_config \<Rightarrow> ('a, 'p, 'c) staking \<Rightarrow> bool" where
  "storage_bounded T s \<longleftrightarrow>
     (\<forall>a p. info_bounded T (staker_info_of s a p)) \<and>
     (\<forall>a. queue_bounded T (unbonding (ledger s a))) \<and>
     (\<forall>p e. psi_number_of_stakers (provider_stake s p e) \<le> MaxNumberOfStakersPerProvider T)"

text \<open>
  What the configuration has to allow: a history with no entry, and a queue whose length, one over
  the bound, does not wrap around in the comparison.
\<close>

definition bounds_allow :: "('o, 'a, 'p, 'c, 'i, 'b, 'e) staking_config \<Rightarrow> bool" where
  "bounds_allow T \<longleftrightarrow> 0 < MinimumStakingAmount T \<and> 0 < MaxEraStakeValues T \<and>
     MaxUnlockingChunks T < - 1"

lemma storage_boundedD:
  assumes "storage_bounded T s"
  shows "info_bounded T (staker_info_of s a p)" "queue_bounded T (unbonding (ledger s a))"
    "psi_number_of_stakers (provider_stake s p e) \<le> MaxNumberOfStakersPerProvider T"
  using assms by (simp_all add: storage_bounded_def)

lemma length_put_stake: "length (put_stake xs c v) \<le> Suc (length xs)"
  by (auto simp: put_stake_def)

lemma length_remove_unstaked_head: "length (remove_unstaked_head xs) \<le> length xs"
  by (auto simp: remove_unstaked_head_def split: list.splits)

lemma length_StakerInfo_stake:
  assumes "StakerInfo_stake h c v = Inr h'"
  shows "length (stakes h') \<le> Suc (length (stakes h))"
  using assms length_put_stake [of "stakes h"] by (auto simp: StakerInfo_stake_eq split: if_splits)

lemma length_StakerInfo_unstake:
  assumes "StakerInfo_unstake h c v = Inr h'"
  shows "length (stakes h') \<le> Suc (length (stakes h))"
  using assms order_trans [OF length_remove_unstaked_head length_put_stake [of "stakes h"]]
  by (auto simp: StakerInfo_unstake_eq split: if_splits)

lemma length_StakerInfo_claim:
  assumes "StakerInfo_claim h = (ev, h')"
  shows "length (stakes h') \<le> length (stakes h)"
proof (cases "stakes h")
  case Nil
  with assms show ?thesis by (simp add: StakerInfo_claim_Nil)
next
  case (Cons x rest)
  have "length (remove_unstaked_head xs) \<le> Suc (length rest)" if "length xs \<le> Suc (length rest)" for xs
    using length_remove_unstaked_head that by (rule order_trans)
  with assms Cons show ?thesis by (auto simp: StakerInfo_claim_Cons split: if_splits)
qed

text \<open>The checks are made on the new history and the new queue, one entry longer at most.\<close>

lemma checked_length:
  fixes bound :: u32
  assumes "length xs < unat bound" "length ys \<le> Suc (length xs)" "len_u32 ys < bound"
  shows "length ys < unat bound"
proof -
  have "length ys < 2 ^ 32" using assms(1,2) unsigned_less [of bound, where 'a = nat] by simp
  with assms(3) show ?thesis by (simp add: word_less_nat_alt len_u32_exact)
qed

lemma checked_length_le:
  fixes bound :: u32
  assumes "length xs \<le> unat bound" "bound < - 1" "length ys \<le> Suc (length xs)" "len_u32 ys \<le> bound"
  shows "length ys \<le> unat bound"
proof -
  have "unat bound < 2 ^ 32 - 1" using assms(2) by (simp add: word_less_nat_alt unat_max_word)
  then have "length ys < 2 ^ 32" using assms(1,3) by simp
  with assms(4) show ?thesis by (simp add: word_le_nat_alt len_u32_exact)
qed

lemma insert_chunk_positive:
  assumes "\<forall>d\<in>set ds. 0 < chunk_amount d" "0 < chunk_amount c"
    and "(\<Sum>d\<leftarrow>ds. unat (chunk_amount d)) + unat (chunk_amount c) < 2 ^ 128"
  shows "\<forall>d\<in>set (insert_chunk c ds). 0 < chunk_amount d"
  using assms
proof (induction ds)
  case (Cons d ds)
  have "unat (chunk_amount d + chunk_amount c) = unat (chunk_amount d) + unat (chunk_amount c)"
    using Cons.prems(3) by (intro plus_no_wrap) simp
  then have "0 < chunk_amount d + chunk_amount c"
    using Cons.prems(2) by (simp add: word_less_nat_alt)
  moreover have "\<forall>d\<in>set (insert_chunk c ds). 0 < chunk_amount d"
    by (rule Cons.IH) (use Cons.prems in simp_all)
  ultimately show ?case using Cons.prems(1,2) by (simp add: UnlockingChunk_add_amount_def)
qed simp

lemma queue_bounded_add:
  assumes "queue_bounded T u" "chunks_ok u" "0 < chunk_amount c" "MaxUnlockingChunks T < - 1"
    and "chunk_total u + unat (chunk_amount c) < 2 ^ 128"
    and "UnbondingInfo_len (UnbondingInfo_add u c) \<le> MaxUnlockingChunks T"
  shows "queue_bounded T (UnbondingInfo_add u c)"
proof -
  have add: "unlocking_chunks (UnbondingInfo_add u c) = insert_chunk c (unlocking_chunks u)"
    using assms(2) by (simp add: UnbondingInfo_add_insert)
  have "length (insert_chunk c (unlocking_chunks u)) \<le> unat (MaxUnlockingChunks T)"
    by (rule checked_length_le [of "unlocking_chunks u"])
      (use assms(1,4,6) length_insert_chunk in
        \<open>simp_all add: queue_bounded_def UnbondingInfo_len_def add\<close>)
  with insert_chunk_positive [of "unlocking_chunks u" c] assms(1,3,5) show ?thesis
    by (simp add: queue_bounded_def chunk_total_def add)
qed

lemma queue_bounded_partition:
  assumes "queue_bounded T u" "UnbondingInfo_partition u e = (valid, future)"
  shows "queue_bounded T future"
  using assms
  by (auto simp: queue_bounded_def UnbondingInfo_partition_def partition_filter_conv comp_def
      intro: order_trans [OF length_filter_le])

lemma bounded_default:
  assumes "bounds_allow T"
  shows "info_bounded T StakerInfo_default" "queue_bounded T (unbonding AccountLedger_default)"
  using assms
  by (simp_all add: bounds_allow_def info_bounded_def queue_bounded_def StakerInfo_default_def
      AccountLedger_default_def UnbondingInfo_default_def word_less_nat_alt latest_staked_value_def)

section \<open>Every call keeps the bounds\<close>

lemma bounded_same:
  assumes "storage_bounded T s" "GeneralStakerInfo s' = GeneralStakerInfo s" "Ledger s' = Ledger s"
    "ProviderEraStake s' = ProviderEraStake s"
  shows "storage_bounded T s'"
  using assms
  by (simp add: storage_bounded_def staker_info_of_def ledger_def provider_stake_def)

text \<open>A call changes one history, one ledger and one entry of a provider, or fewer of them.\<close>

lemma bounded_change:
  assumes inv: "storage_bounded T s"
    and G: "GeneralStakerInfo s' = upd_default StakerInfo_default (GeneralStakerInfo s) (a, p) i \<or>
      GeneralStakerInfo s' = GeneralStakerInfo s"
    and L: "Ledger s' = upd_default AccountLedger_default (Ledger s) a l \<or> Ledger s' = Ledger s"
    and E: "ProviderEraStake s' = (ProviderEraStake s)((p, e) \<mapsto> x) \<or>
      ProviderEraStake s' = ProviderEraStake s"
    and ok: "info_bounded T i" "queue_bounded T (unbonding l)"
      "psi_number_of_stakers x \<le> MaxNumberOfStakersPerProvider T"
  shows "storage_bounded T s'"
proof -
  note D = storage_boundedD [OF inv]
  have "info_bounded T (staker_info_of s' b q)" for b q
    using G D(1) [of b q] ok(1) staker_info_of_upd_default [of s' s a p i b q]
    by (auto simp: staker_info_of_def)
  moreover have "queue_bounded T (unbonding (ledger s' b))" for b
    using L D(2) [of b] ok(2) ledger_upd_default [of s' s a l] 
    by (auto simp: ledger_def case_upd_default)
  moreover have "psi_number_of_stakers (provider_stake s' q f) \<le> MaxNumberOfStakersPerProvider T" for q f
    using E D(3) [of q f] ok(3) by (auto simp: provider_stake_def)
  ultimately show ?thesis by (simp add: storage_bounded_def)
qed

lemma stake_bounded:
  assumes "stake T origin p v s = (Inr (), s')" "storage_bounded T s"
  shows "storage_bounded T s'"
  using assms(1)
proof (rule stake_okE)
  fix a w i new_locked new_total
  let ?x = "provider_stake s p (CurrentEra s)"
  let ?y = "(if latest_staked_value (staker_info_of s a p) = 0
            then ?x\<lparr>psi_number_of_stakers := saturating_add (psi_number_of_stakers ?x) 1\<rparr>
            else ?x)\<lparr>psi_total := new_total\<rparr>"
  assume room: "latest_staked_value (staker_info_of s a p) \<noteq> 0 \<or>
       psi_number_of_stakers ?x < MaxNumberOfStakersPerProvider T"
    and i: "StakerInfo_stake (staker_info_of s a p) (CurrentEra s) w = Inr i"
      "StakerInfo_len i < MaxEraStakeValues T" "MinimumStakingAmount T \<le> latest_staked_value i"
    and s': "s' = deposit_event (Stake a p w)
       ((update_staker_info a p i
         (update_ledger T a ((ledger s a)\<lparr>locked := new_locked\<rparr>)
          (mutate_era_info (CurrentEra s)
             (\<lambda>x. x\<lparr>ei_staked := saturating_add (ei_staked x) w,
                     ei_locked := saturating_add (ei_locked x) w\<rparr>) s)))
        \<lparr>ProviderEraStake := (ProviderEraStake s)((p, CurrentEra s) \<mapsto> ?y)\<rparr>)"
  note D = storage_boundedD [OF assms(2)]
  have "info_bounded T i"
    using D(1) [of a p] length_StakerInfo_stake [OF i(1)] i(2,3)
      checked_length [of "stakes (staker_info_of s a p)" "MaxEraStakeValues T" "stakes i"]
    by (simp add: info_bounded_def StakerInfo_len_def)
  moreover have "psi_number_of_stakers ?y \<le> MaxNumberOfStakersPerProvider T"
    using room D(3) [of p "CurrentEra s"] by (auto simp: word_nat)
  ultimately show ?thesis
    using D(2) [of a]
    by (intro bounded_change [OF assms(2), of _ a p i "(ledger s a)\<lparr>locked := new_locked\<rparr>" "CurrentEra s" ?y])
      (simp_all add: s')
qed

lemma unstake_bounded:
  assumes "unstake T origin p v s = (Inr (), s')" "storage_bounded T s" "books_balance s" "bounds_allow T"
  shows "storage_bounded T s'"
  using assms(1)
proof (rule unstake_okE)
  fix a w i whole
  let ?c = "\<lparr>chunk_amount = w, unlock_era = CurrentEra s + UnbondingPeriod T\<rparr>"
  let ?l = "(ledger s a)\<lparr>unbonding := UnbondingInfo_add (unbonding (ledger s a)) ?c\<rparr>"
  let ?x = "provider_stake s p (CurrentEra s)"
  let ?y = "(if whole
            then ?x\<lparr>psi_number_of_stakers := saturating_sub (psi_number_of_stakers ?x) 1\<rparr>
            else ?x)\<lparr>psi_total := saturating_sub (psi_total ?x) w\<rparr>"
  let ?staked = "latest_staked_value (staker_info_of s a p)"
  assume whole: "whole \<longleftrightarrow> saturating_sub ?staked v < MinimumStakingAmount T"
    and w: "0 < w" "w = (if whole then ?staked else v)"
    and i: "StakerInfo_unstake (staker_info_of s a p) (CurrentEra s) w = Inr i"
      "StakerInfo_len i < MaxEraStakeValues T"
    and len: "UnbondingInfo_len (UnbondingInfo_add (unbonding (ledger s a)) ?c) \<le> MaxUnlockingChunks T"
    and s': "s' = deposit_event (Unstake a p w)
       ((update_staker_info a p i
         (mutate_era_info (CurrentEra s) (\<lambda>x. x\<lparr>ei_staked := saturating_sub (ei_staked x) w\<rparr>)
          (update_ledger T a ?l s)))
        \<lparr>ProviderEraStake := (ProviderEraStake s)((p, CurrentEra s) \<mapsto> ?y)\<rparr>)"
  note D = storage_boundedD [OF assms(2)] and B = books_balanceD [OF assms(3)]
  have min: "0 < MinimumStakingAmount T" and max: "MaxUnlockingChunks T < - 1"
    using assms(4) by (simp_all add: bounds_allow_def)
  have "latest_staked_value i = 0 \<or> MinimumStakingAmount T \<le> latest_staked_value i"
    using staker_info.latest_unstake [OF B(3) i(1)] whole w(2) by (auto simp: not_less)
  then have "info_bounded T i"
    using D(1) [of a p] length_StakerInfo_unstake [OF i(1)] i(2)
      checked_length [of "stakes (staker_info_of s a p)" "MaxEraStakeValues T" "stakes i"]
    by (simp add: info_bounded_def StakerInfo_len_def)
  moreover have "queue_bounded T (unbonding ?l)"
    using queue_bounded_add [OF D(2) B(5) _ max _ len] w(1) unstake_fits [OF assms(3) min whole w(2)]
    by simp
  moreover have "psi_number_of_stakers ?y \<le> MaxNumberOfStakersPerProvider T"
    using D(3) [of p "CurrentEra s"] by (auto simp: word_nat)
  ultimately show ?thesis
    by (intro bounded_change [OF assms(2), of _ a p i ?l "CurrentEra s" ?y]) (simp_all add: s')
qed

lemma claim_staker_bounded:
  assumes "claim_staker T origin p s = (Inr (), s')" "storage_bounded T s" "books_balance s"
  shows "storage_bounded T s'"
  using assms(1)
proof (rule claim_staker_okE)
  fix a e v i info era_info reward imb c
  assume claim: "StakerInfo_claim (staker_info_of s a p) = ((e, v), i)" "0 < v" "e < CurrentEra s"
    and s': "s' = deposit_event (Reward a p e reward)
       (update_staker_info a p i (s\<lparr>Balances := resolve_creating (Currency T) c a imb\<rparr>))"
  note D = storage_boundedD [OF assms(2)] and B = books_balanceD [OF assms(3)]
  have "v \<noteq> 0" using claim(2) by auto
  then have "info_bounded T i"
    using D(1) [of a p] length_StakerInfo_claim [OF claim(1)]
      staker_info.latest_claim [OF B(3,4) claim(1,3)]
    by (simp add: info_bounded_def)
  then show ?thesis
    using D(2,3) by (intro bounded_change [OF assms(2), of _ a p i "ledger s a" e "provider_stake s p e"])
      (simp_all add: s')
qed

lemma claim_operator_bounded:
  assumes "claim_operator T origin p e s = (Inr (), s')" "storage_bounded T s"
  shows "storage_bounded T s'"
  using assms(1)
proof (rule claim_operator_okE)
  fix a info era_info reward imb c
  let ?y = "(provider_stake s p e)\<lparr>psi_reward_claimed := True\<rparr>"
  assume s': "s' = deposit_event (Reward (pi_operator info) p e reward)
       (s\<lparr>Balances := resolve_creating (Currency T) c (pi_operator info) imb,
          ProviderEraStake := (ProviderEraStake s)((p, e) \<mapsto> ?y)\<rparr>)"
  note D = storage_boundedD [OF assms(2)]
  show ?thesis
    using D by (intro bounded_change [OF assms(2), of _ a p "staker_info_of s a p" "ledger s a" e ?y])
      (simp_all add: s')
qed

lemma withdraw_unstaked_bounded:
  assumes "withdraw_unstaked T origin s = (Inr (), s')" "storage_bounded T s"
  shows "storage_bounded T s'"
  using assms(1)
proof (rule withdraw_unstaked_okE)
  fix a valid future w
  let ?l = "\<lparr>locked = saturating_sub (locked (ledger s a)) w, unbonding = future\<rparr>"
  assume part: "UnbondingInfo_partition (unbonding (ledger s a)) (CurrentEra s) = (valid, future)"
    and s': "s' = deposit_event (Withdrawn a w)
       (mutate_era_info (CurrentEra s) (\<lambda>x. x\<lparr>ei_locked := saturating_sub (ei_locked x) w\<rparr>)
         (update_ledger T a ?l s))"
  note D = storage_boundedD [OF assms(2)]
  show ?thesis
    using D(1,3) queue_bounded_partition [OF D(2) part]
    by (intro bounded_change [OF assms(2), of _ a p "staker_info_of s a p" ?l e "provider_stake s p e" for p e])
      (simp_all add: s')
qed

lemma withdraw_staker_bounded:
  assumes "withdraw_from_unregistered_staker T origin p s = (Inr (), s')" "storage_bounded T s" "bounds_allow T"
  shows "storage_bounded T s'"
  using assms(1)
proof (rule withdraw_from_unregistered_staker_okE)
  fix a info u w
  let ?l = "(ledger s a)\<lparr>locked := saturating_sub (locked (ledger s a)) w\<rparr>"
  assume s': "s' = deposit_event (WithdrawFromUnregistered a p w)
       (mutate_era_info (CurrentEra s)
          (\<lambda>x. x\<lparr>ei_staked := saturating_sub (ei_staked x) w, ei_locked := saturating_sub (ei_locked x) w\<rparr>)
          (update_staker_info a p StakerInfo_default (update_ledger T a ?l s)))"
  note D = storage_boundedD [OF assms(2)]
  show ?thesis
    using D(2,3) bounded_default(1) [OF assms(3)]
    by (intro bounded_change [OF assms(2), of _ a p StakerInfo_default ?l e "provider_stake s p e" for e])
      (simp_all add: s')
qed

lemma rotate_loop_numbers:
  assumes "rotate_loop w c n ps consumed s = (weight, s')"
    and "\<And>p e. psi_number_of_stakers (provider_stake s p e) \<le> b"
  shows "psi_number_of_stakers (provider_stake s' p e) \<le> b"
  using assms
proof (induction w c n ps consumed s rule: rotate_loop.induct)
  case (2 w c n pid info rest consumed s)
  show ?case
  proof (cases "pi_state info")
    case Registered
    show ?thesis
    proof (cases "ProviderEraStake s (pid, c)")
      case (Some x)
      have "psi_number_of_stakers x \<le> b" using "2.prems"(2) [of pid c] Some by (simp add: provider_stake_def)
      then show ?thesis
        using "2.IH"(2) [OF refl Registered Some] "2.prems" Registered Some
        by (fastforce simp: provider_stake_def Let_def)
    qed (use "2.IH"(1) [OF refl Registered] "2.prems" Registered in \<open>simp add: Let_def\<close>)
  qed (use "2.IH"(3) [OF refl] "2.prems" in \<open>simp add: Let_def\<close>)
qed simp

lemma new_era_bounded:
  assumes "on_initialize T now s = Some (w, s')" "era_ends T now s" "storage_bounded T s"
  shows "storage_bounded T s'"
proof -
  define s3 where "s3 = reward_balance_snapshot (CurrentEra s) (BlockRewardAccumulator s)
    (s\<lparr>CurrentEra := CurrentEra s + 1, BlockRewardAccumulator := RewardInfo_default\<rparr>)"
  obtain v s4 where rot: "rotate_staking_info T (CurrentEra s) s3 = (v, s4)" by (metis surj_pair)
  have s': "ProviderEraStake s' = ProviderEraStake s4"
    using assms(1,2) rot by (auto simp: on_initialize_def era_ends_def Let_def s3_def split: if_splits)
  have s3: "ProviderEraStake s3 = ProviderEraStake s"
    by (simp add: s3_def reward_balance_snapshot_def Let_def)
  have "psi_number_of_stakers (provider_stake s' p e) \<le> MaxNumberOfStakersPerProvider T" for p e
    using rotate_loop_numbers [OF rot [unfolded rotate_staking_info_def], of "MaxNumberOfStakersPerProvider T" p e]
      storage_boundedD(3) [OF assms(3)]
    by (simp add: provider_stake_def s' s3)
  then show ?thesis
    using assms(3) on_initialize_new_era(1,6) [OF assms(1,2)]
    by (simp add: storage_bounded_def staker_info_of_def ledger_def)
qed

section \<open>Runs\<close>

definition sized ::
    "('o, 'a, 'p, 'c, 'i, 'b, 'e) staking_config \<Rightarrow> ('a, 'p, 'c) staking \<Rightarrow> bool" where
  "sized T s \<longleftrightarrow> bounds_allow T \<and> books_balance s \<and> storage_bounded T s"

lemma sized_same:
  assumes "sized T s" "GeneralStakerInfo s' = GeneralStakerInfo s" "Ledger s' = Ledger s"
    "ProviderEraStake s' = ProviderEraStake s" "CurrentEra s' = CurrentEra s"
  shows "sized T s'"
  using assms books_same [of s s'] bounded_same [of T s s'] by (simp add: sized_def)

lemma genesis_sized: "bounds_allow T \<Longrightarrow> sized T (genesis c)"
  using bounded_default [of T] genesis_books
  by (simp add: sized_def storage_bounded_def genesis_def staker_info_of_def ledger_def
      provider_stake_def ProviderStakeInfo_default_def)

lemma sizedD:
  assumes "sized T s"
  shows "bounds_allow T" "books_balance s" "storage_bounded T s"
  using assms by (simp_all add: sized_def)

lemma other_bounded:
  "storage_bounded T s \<Longrightarrow> withdraw_from_unregistered_operator T origin p s = (Inr (), s') \<Longrightarrow> storage_bounded T s'"
  "storage_bounded T s \<Longrightarrow> unregister p s = (Inr (), s') \<Longrightarrow> storage_bounded T s'"
  by (erule withdraw_from_unregistered_operator_okE unregister_okE, erule bounded_same, simp_all)+

lemma staking_step_bounded:
  assumes "staking_step T s s'" "sized T s"
  shows "storage_bounded T s'"
proof (rule staking_step_rel [where P = "sized T" and Q = "storage_bounded T", OF assms])
  show "sized T (s\<lparr>Balances := c\<rparr>)" "sized T (s\<lparr>ForceEra := ForceNew\<rparr>)"
    "sized T (s\<lparr>BlockRewardAccumulator := acc\<rparr>)" "sized T (enrol c a p s)"
    if "sized T s" for s c acc a p
    by (rule sized_same [OF that]; simp add: enrol_def)+
qed (blast dest: sizedD intro: stake_bounded unstake_bounded claim_staker_bounded
    claim_operator_bounded withdraw_unstaked_bounded withdraw_staker_bounded new_era_bounded other_bounded)+

interpretation staking_sizes: invariant_system "staking_step T" "sized T" for T
proof
  show "sized T t" if step: "staking_step T s t" and inv: "sized T s" for s t
    using staking_step_bounded [OF that] staking_step_books [OF step] sizedD [OF inv]
    by (simp add: sized_def bounds_allow_def)
qed

end
