(* ===== verification/Block_Reward.thy ===== *)
theory Block_Reward
  imports Frame
begin

text \<open>
  The block reward pallet, \<^verbatim>\<open>pallets/block-reward/src/lib.rs\<close>: a fixed amount is issued for every block
  and divided between the providers and the validators by a configuration whose parts add up to one
  whole. The trait \<^verbatim>\<open>BeneficiaryPayout\<close> is a pair of functions of the configuration; the interface
  \<open>beneficiary_payout\<close> states what the pallet needs of a handler for its accounting to be right.
\<close>

section \<open>Configuration and storage\<close>

record 'b reward_distribution_config =
  providers_percent :: 'b
  validators_percent :: 'b

record ('o, 'a, 'w, 'i, 'b, 'e) reward_pallet =
  RewardSystem :: "('o, 'a) origin_ops"
  RewardCurrency :: "('a, 'w, 'i, 'e) currency_ops"
  RewardPerbill :: "'b perbill_ops"
  payout_validators :: "'i \<Rightarrow> 'w \<Rightarrow> 'w"
  payout_providers :: "'i \<Rightarrow> 'w \<Rightarrow> 'w"
  RewardAmount :: balance

datatype reward_error = InvalidDistributionConfiguration

datatype 'b reward_event = DistributionConfigurationChanged "'b reward_distribution_config"

record ('b, 'w) block_reward =
  RewardDistributionConfigStorage :: "'b reward_distribution_config"
  RewardWorld :: 'w
  RewardEvents :: "'b reward_event list"

section \<open>Operations\<close>

definition RewardDistributionConfig_default :: "'b perbill_ops \<Rightarrow> 'b reward_distribution_config" where
  "RewardDistributionConfig_default pb =
     \<lparr>providers_percent = from_percent pb 100, validators_percent = perbill_zero pb\<rparr>"

text \<open>The loop of \<^verbatim>\<open>is_consistent\<close>, which returns early when a sum does not fit.\<close>

fun is_consistent_loop :: "'b perbill_ops \<Rightarrow> 'b \<Rightarrow> 'b list \<Rightarrow> bool" where
  "is_consistent_loop pb accumulator [] = (perbill_one pb = accumulator)"
| "is_consistent_loop pb accumulator (percentage # rest) =
     (case perbill_checked_add pb accumulator percentage of
        Some result \<Rightarrow> is_consistent_loop pb result rest
      | None \<Rightarrow> False)"

definition is_consistent :: "'b perbill_ops \<Rightarrow> 'b reward_distribution_config \<Rightarrow> bool" where
  "is_consistent pb self =
     is_consistent_loop pb (perbill_zero pb) [providers_percent self, validators_percent self]"

text \<open>\<^verbatim>\<open>GenesisConfig::build\<close>: \<open>None\<close> is the failed \<^verbatim>\<open>assert!\<close>.\<close>

definition reward_genesis ::
    "'b perbill_ops \<Rightarrow> 'b reward_distribution_config \<Rightarrow> 'w \<Rightarrow> ('b, 'w) block_reward option" where
  "reward_genesis pb config w =
     (if is_consistent pb config
      then Some \<lparr>RewardDistributionConfigStorage = config, RewardWorld = w, RewardEvents = []\<rparr>
      else None)"

definition set_configuration ::
    "('o, 'a, 'w, 'i, 'b, 'e) reward_pallet \<Rightarrow> 'o \<Rightarrow> 'b reward_distribution_config \<Rightarrow>
     ('b, 'w) block_reward \<Rightarrow> (('b, 'w) block_reward, (reward_error, 'e) dispatch_error) outcome" where
  "set_configuration R origin reward_distro_params s =
     (if \<not> ensure_root (RewardSystem R) origin then (Inl BadOrigin, s) else
      if \<not> is_consistent (RewardPerbill R) reward_distro_params
      then (Inl (Module InvalidDistributionConfiguration), s) else
      let s1 = s\<lparr>RewardDistributionConfigStorage := reward_distro_params\<rparr>
      in (Inr (), s1\<lparr>RewardEvents :=
            RewardEvents s1 @ [DistributionConfigurationChanged reward_distro_params]\<rparr>))"

text \<open>
  The imbalances \<^verbatim>\<open>distribute_rewards\<close> prepares: for the providers, for the validators, and the
  remainder that is bound to \<^verbatim>\<open>_\<close> and dropped.
\<close>

definition reward_parts ::
    "('o, 'a, 'w, 'i, 'b, 'e) reward_pallet \<Rightarrow> 'b reward_distribution_config \<Rightarrow> 'i \<Rightarrow> 'i \<times> 'i \<times> 'i" where
  "reward_parts R distro_params block_reward =
     (let cur = RewardCurrency R;
          provider_balance =
            perbill_mul (RewardPerbill R) (providers_percent distro_params) (peek cur block_reward);
          validator_balance =
            perbill_mul (RewardPerbill R) (validators_percent distro_params) (peek cur block_reward);
          (providers_imbalance, remainder) = split_imbalance cur block_reward provider_balance;
          (validators_imbalance, rest) = split_imbalance cur remainder validator_balance
      in (providers_imbalance, validators_imbalance, rest))"

definition distribute_rewards ::
    "('o, 'a, 'w, 'i, 'b, 'e) reward_pallet \<Rightarrow> 'i \<Rightarrow> ('b, 'w) block_reward \<Rightarrow> ('b, 'w) block_reward" where
  "distribute_rewards R block_reward s =
     (let distro_params = RewardDistributionConfigStorage s;
          (providers_imbalance, validators_imbalance, rest) = reward_parts R distro_params block_reward;
          w1 = drop_imbalance (RewardCurrency R) (RewardWorld s) rest;
          w2 = payout_validators R validators_imbalance w1;
          w3 = payout_providers R providers_imbalance w2
      in s\<lparr>RewardWorld := w3\<rparr>)"

definition on_timestamp_set ::
    "('o, 'a, 'w, 'i, 'b, 'e) reward_pallet \<Rightarrow> ('b, 'w) block_reward \<Rightarrow> ('b, 'w) block_reward" where
  "on_timestamp_set R s =
     (let (inflation, w) = issue (RewardCurrency R) (RewardWorld s) (RewardAmount R)
      in distribute_rewards R inflation (s\<lparr>RewardWorld := w\<rparr>))"

section \<open>The parts of a reward\<close>

text \<open>
  Nothing of a reward is lost and nothing is invented: the providers get their percentage exactly,
  the validators theirs as far as the rest goes, and the three parts together are the reward.
\<close>

lemma reward_parts_exact:
  assumes "split_laws (RewardCurrency R)" "perbill_part (RewardPerbill R)"
    and "reward_parts R cfg i = (p, v, rest)"
  shows "peek (RewardCurrency R) p =
      perbill_mul (RewardPerbill R) (providers_percent cfg) (peek (RewardCurrency R) i)"
    "unat (peek (RewardCurrency R) v) =
      min (unat (perbill_mul (RewardPerbill R) (validators_percent cfg) (peek (RewardCurrency R) i)))
        (unat (peek (RewardCurrency R) i) - unat (peek (RewardCurrency R) p))"
    "unat (peek (RewardCurrency R) p) + unat (peek (RewardCurrency R) v) +
       unat (peek (RewardCurrency R) rest) = unat (peek (RewardCurrency R) i)"
proof -
  let ?cur = "RewardCurrency R"
  let ?pb = "perbill_mul (RewardPerbill R) (providers_percent cfg) (peek ?cur i)"
  let ?vb = "perbill_mul (RewardPerbill R) (validators_percent cfg) (peek ?cur i)"
  obtain q where s1: "split_imbalance ?cur i ?pb = (p, q)" and s2: "split_imbalance ?cur q ?vb = (v, rest)"
    using assms(3) by (auto simp: reward_parts_def Let_def split: prod.splits)
  have law: "unat (peek ?cur a) = min (unat n) (unat (peek ?cur x)) \<and>
      unat (peek ?cur a) + unat (peek ?cur b) = unat (peek ?cur x)"
    if "split_imbalance ?cur x n = (a, b)" for x n a b
    using assms(1) that unfolding split_laws_def by (metis (mono_tags, lifting) case_prod_conv)
  note l1 = law [OF s1] and l2 = law [OF s2]
  have q: "unat (peek ?cur q) = unat (peek ?cur i) - unat (peek ?cur p)" using l1 by linarith
  have "unat ?pb \<le> unat (peek ?cur i)" by (rule perbill_mul_le [OF assms(2)])
  then show "peek ?cur p = ?pb" using l1 by (simp add: word_unat_eq_iff)
  show "unat (peek ?cur v) = min (unat ?vb) (unat (peek ?cur i) - unat (peek ?cur p))"
    using l2 q by simp
  show "unat (peek ?cur p) + unat (peek ?cur v) + unat (peek ?cur rest) = unat (peek ?cur i)"
    using l1 l2 by simp
qed

section \<open>Only consistent configurations\<close>

lemma set_configuration_consistent:
  assumes "set_configuration R origin cfg s = (r, s')"
    and "is_consistent (RewardPerbill R) (RewardDistributionConfigStorage s)"
  shows "is_consistent (RewardPerbill R) (RewardDistributionConfigStorage s')"
  using assms by (auto simp: set_configuration_def Let_def split: if_splits)

lemma set_configuration_world:
  "set_configuration R origin cfg s = (r, s') \<Longrightarrow> RewardWorld s' = RewardWorld s"
  by (auto simp: set_configuration_def Let_def split: if_splits)

lemma on_timestamp_set_config:
  "RewardDistributionConfigStorage (on_timestamp_set R s) = RewardDistributionConfigStorage s"
  by (simp add: on_timestamp_set_def distribute_rewards_def Let_def split: prod.splits)

section \<open>The payout handler as an interface\<close>

text \<open>
  The trait \<^verbatim>\<open>BeneficiaryPayout\<close> of a runtime with an accounting of the rewards: \<open>credited w\<close> is what
  the handler has booked for the providers so far. Given that a \<^verbatim>\<open>Perbill\<close> takes a part, the handler
  books what it is given for the providers, and neither the payment of validators nor the currency touches the booking.
\<close>

locale beneficiary_payout =
  fixes R :: "('o, 'a, 'w, 'i, 'b, 'e) reward_pallet"
    and credited :: "'w \<Rightarrow> nat"
  assumes providers_credited: "perbill_part (RewardPerbill R) \<Longrightarrow>
      credited w + unat (peek (RewardCurrency R) i) < 2 ^ 128 \<Longrightarrow>
      credited (payout_providers R i w) = credited w + unat (peek (RewardCurrency R) i)"
    and validators_credited: "credited (payout_validators R i w) = credited w"
    and drop_credited: "credited (drop_imbalance (RewardCurrency R) w i) = credited w"
    and issue_credited: "issue (RewardCurrency R) w n = (i, w') \<Longrightarrow> credited w' = credited w"
begin

lemma block_credit:
  assumes "split_laws (RewardCurrency R)" "perbill_part (RewardPerbill R)"
    and issued: "\<And>w i w'. issue (RewardCurrency R) w (RewardAmount R) = (i, w') \<Longrightarrow>
      peek (RewardCurrency R) i = RewardAmount R"
    and room: "credited (RewardWorld s) + unat (RewardAmount R) < 2 ^ 128"
  shows "credited (RewardWorld (on_timestamp_set R s)) = credited (RewardWorld s) +
    unat (perbill_mul (RewardPerbill R)
      (providers_percent (RewardDistributionConfigStorage s)) (RewardAmount R))"
proof -
  obtain i w where i: "issue (RewardCurrency R) (RewardWorld s) (RewardAmount R) = (i, w)"
    by (metis surj_pair)
  obtain p v rest where parts:
    "reward_parts R (RewardDistributionConfigStorage s) i = (p, v, rest)" by (metis surj_pair)
  note exact = reward_parts_exact [OF assms(1,2) parts]
  let ?w1 = "payout_validators R v (drop_imbalance (RewardCurrency R) w rest)"
  have w1: "credited ?w1 = credited (RewardWorld s)"
    by (simp add: validators_credited drop_credited issue_credited [OF i])
  have peek: "peek (RewardCurrency R) i = RewardAmount R" using issued [OF i] .
  have "credited (payout_providers R p ?w1) = credited ?w1 + unat (peek (RewardCurrency R) p)"
    using room exact(3) peek w1 by (intro providers_credited [OF assms(2)]) simp
  then show ?thesis
    by (simp add: on_timestamp_set_def distribute_rewards_def i parts w1 exact(1) peek)
qed

end

end
