(* ===== verification/Runtime.thy ===== *)
theory Runtime
  imports Staking_Shares Staking_Bounds Staking_Trait Block_Reward
begin

text \<open>
  The local runtime, \<^verbatim>\<open>runtime/local/src/lib.rs\<close>: its constants, the configuration of the pallets with
  them, the two handlers that send money into the staking pallet, and the runtime as one transition
  system. The state of the framework's currency is part of the staking state; the dApi pallet and
  the block reward pallet work on it through the configuration.
\<close>

section \<open>Constants\<close>

definition MILLIMBT :: balance where "MILLIMBT = 1000000000000000"
definition MBT :: balance where "MBT = 1000 * MILLIMBT"

definition MILLISECS_PER_BLOCK :: u64 where "MILLISECS_PER_BLOCK = 2000"
definition SLOT_DURATION :: u64 where "SLOT_DURATION = MILLISECS_PER_BLOCK"
definition MINUTES :: u32 where "MINUTES = 60000 div ucast MILLISECS_PER_BLOCK"
definition HOURS :: u32 where "HOURS = MINUTES * 60"
definition DAYS :: u32 where "DAYS = HOURS * 24"

definition MaxBytesInChainId :: u32 where "MaxBytesInChainId = 64"

text \<open>\<^verbatim>\<open>MassbitId([u8; 36])\<close>, with its default.\<close>

datatype massbit_id = MassbitId "u8 list"

definition MassbitId_default :: massbit_id where
  "MassbitId_default = MassbitId (replicate 36 1)"

section \<open>The configuration of the pallets\<close>

text \<open>
  What the runtime gets from the framework: the origin checks, the balances pallet, \<^verbatim>\<open>Perbill\<close>, the
  weight of the database, the iteration order of a storage map, the account of the pallet id
  \<^verbatim>\<open>py/dapst\<close>, the default method \<^verbatim>\<open>OnUnbalanced::on_unbalanced\<close> and the conversion into a bounded
  vector.
\<close>

record ('o, 'a, 'c, 'i, 'b, 'e) framework =
  fw_system :: "('o, 'a) origin_ops"
  fw_balances :: "('a, 'c, 'i, 'e) currency_ops"
  fw_perbill :: "'b perbill_ops"
  fw_db_weight :: db_weight
  fw_iter :: "(massbit_id \<rightharpoonup> 'a provider_info) \<Rightarrow> (massbit_id \<times> 'a provider_info) list"
  fw_into_account :: "string \<Rightarrow> 'a"
  fw_on_unbalanced :: "('i \<Rightarrow> ('a, massbit_id, 'c) staking \<Rightarrow> ('a, massbit_id, 'c) staking) \<Rightarrow>
     'i \<Rightarrow> ('a, massbit_id, 'c) staking \<Rightarrow> ('a, massbit_id, 'c) staking"
  fw_bounded_try_into :: "u32 \<Rightarrow> u8 list \<Rightarrow> chain_id option"

definition staking_runtime ::
    "('o, 'a, 'c, 'i, 'b, 'e) framework \<Rightarrow> ('o, 'a, massbit_id, 'c, 'i, 'b, 'e) staking_config" where
  "staking_runtime F =
     \<lparr>System = fw_system F, Currency = fw_balances F, Perbill = fw_perbill F,
      DbWeight = fw_db_weight F, iter_providers = fw_iter F,
      pallet_account = fw_into_account F ''py/dapst'',
      BlockPerEra = 200,
      OperatorRewardPercentage = from_percent (fw_perbill F) 80,
      RegisterDeposit = 90 * MBT,
      MaxNumberOfStakersPerProvider = 512,
      MinimumStakingAmount = 10 * MBT,
      MinimumRemainingAmount = 1 * MBT,
      MaxUnlockingChunks = 2,
      UnbondingPeriod = 2,
      MaxEraStakeValues = 5\<rparr>"

text \<open>The balances pallet as the other pallets reach it: its state lies in the staking state.\<close>

definition lift_result ::
    "('a, 'p, 'c) staking \<Rightarrow> ('e + 'x) \<times> 'c \<Rightarrow>
     ((staking_error, 'e) dispatch_error + 'x) \<times> ('a, 'p, 'c) staking" where
  "lift_result s rc = (map_sum External id (fst rc), s\<lparr>Balances := snd rc\<rparr>)"

definition lift_currency ::
    "('a, 'c, 'i, 'e) currency_ops \<Rightarrow>
     ('a, ('a, 'p, 'c) staking, 'i, (staking_error, 'e) dispatch_error) currency_ops" where
  "lift_currency cur =
     \<lparr>free_balance = (\<lambda>s a. free_balance cur (Balances s) a),
      minimum_balance = minimum_balance cur,
      withdraw = (\<lambda>s a v rs keep. lift_result s (withdraw cur (Balances s) a v rs keep)),
      resolve_creating = (\<lambda>s a i. s\<lparr>Balances := resolve_creating cur (Balances s) a i\<rparr>),
      set_lock = (\<lambda>s k a v rs. s\<lparr>Balances := set_lock cur (Balances s) k a v rs\<rparr>),
      remove_lock = (\<lambda>s k a. s\<lparr>Balances := remove_lock cur (Balances s) k a\<rparr>),
      reserve = (\<lambda>s a v. lift_result s (reserve cur (Balances s) a v)),
      unreserve = (\<lambda>s a v. s\<lparr>Balances := unreserve cur (Balances s) a v\<rparr>),
      transfer = (\<lambda>s a b v keep. lift_result s (transfer cur (Balances s) a b v keep)),
      issue = (\<lambda>s v. case issue cur (Balances s) v of (i, c) \<Rightarrow> (i, s\<lparr>Balances := c\<rparr>)),
      peek = peek cur,
      split_imbalance = split_imbalance cur,
      drop_imbalance = (\<lambda>s i. s\<lparr>Balances := drop_imbalance cur (Balances s) i\<rparr>)\<rparr>"

text \<open>\<^verbatim>\<open>BeneficiaryPayout\<close>: an imbalance handed to \<^verbatim>\<open>validators\<close> goes out of scope.\<close>

definition BeneficiaryPayout_validators ::
    "('o, 'a, 'c, 'i, 'b, 'e) framework \<Rightarrow> 'i \<Rightarrow> ('a, massbit_id, 'c) staking \<Rightarrow>
     ('a, massbit_id, 'c) staking" where
  "BeneficiaryPayout_validators F i s = s\<lparr>Balances := drop_imbalance (fw_balances F) (Balances s) i\<rparr>"

definition BeneficiaryPayout_providers ::
    "('o, 'a, 'c, 'i, 'b, 'e) framework \<Rightarrow> 'i \<Rightarrow> ('a, massbit_id, 'c) staking \<Rightarrow>
     ('a, massbit_id, 'c) staking" where
  "BeneficiaryPayout_providers F reward s = rewards (staking_runtime F) reward s"

definition reward_runtime ::
    "('o, 'a, 'c, 'i, 'b, 'e) framework \<Rightarrow>
     ('o, 'a, ('a, massbit_id, 'c) staking, 'i, 'b, (staking_error, 'e) dispatch_error) reward_pallet" where
  "reward_runtime F =
     \<lparr>RewardSystem = fw_system F, RewardCurrency = lift_currency (fw_balances F),
      RewardPerbill = fw_perbill F,
      payout_validators = BeneficiaryPayout_validators F,
      payout_providers = BeneficiaryPayout_providers F,
      RewardAmount = 2664 * MILLIMBT\<rparr>"

text \<open>\<^verbatim>\<open>OnProjectPayment\<close> overrides \<^verbatim>\<open>on_nonzero_unbalanced\<close>; the pallet calls \<^verbatim>\<open>on_unbalanced\<close>.\<close>

definition on_nonzero_unbalanced ::
    "('o, 'a, 'c, 'i, 'b, 'e) framework \<Rightarrow> 'i \<Rightarrow> ('a, massbit_id, 'c) staking \<Rightarrow>
     ('a, massbit_id, 'c) staking" where
  "on_nonzero_unbalanced F amount s = rewards (staking_runtime F) amount s"

definition dapi_runtime ::
    "('o, 'a, 'c, 'i, 'b, 'e) framework \<Rightarrow>
     ('o, 'a, massbit_id, ('a, massbit_id, 'c) staking, 'i, (staking_error, 'e) dispatch_error) dapi_config" where
  "dapi_runtime F =
     \<lparr>DapiSystem = fw_system F, DapiCurrency = lift_currency (fw_balances F),
      staking_register = register (staking_runtime F),
      staking_unregister = unregister,
      OnProjectPayment = fw_on_unbalanced F (on_nonzero_unbalanced F),
      bounded_try_into = fw_bounded_try_into F MaxBytesInChainId\<rparr>"

text \<open>
  \<^verbatim>\<open>OnUnbalanced::on_unbalanced\<close> is documented to pass an imbalance on when it is not zero and to
  drop it otherwise.
\<close>

definition on_unbalanced_laws :: "('o, 'a, 'c, 'i, 'b, 'e) framework \<Rightarrow> bool" where
  "on_unbalanced_laws F \<longleftrightarrow>
     (\<forall>f i s. fw_on_unbalanced F f i s =
        (if peek (fw_balances F) i = 0
         then s\<lparr>Balances := drop_imbalance (fw_balances F) (Balances s) i\<rparr> else f i s))"

section \<open>The runtime as a transition system\<close>

text \<open>
  The state: the dApi pallet, with the staking pallet and the currency as the rest of its world, and
  the configuration of the block reward. A step is an extrinsic of one of the pallets, the hook of
  a block, the time stamp of a block, or a change of the currency by the framework.
\<close>

record ('a, 'c, 'b) runtime =
  rt_dapi :: "('a, massbit_id, ('a, massbit_id, 'c) staking) dapi"
  rt_reward_config :: "'b reward_distribution_config"
  rt_reward_events :: "'b reward_event list"

definition rt_staking :: "('a, 'c, 'b) runtime \<Rightarrow> ('a, massbit_id, 'c) staking" where
  "rt_staking t = World (rt_dapi t)"

definition put_staking ::
    "('a, massbit_id, 'c) staking \<Rightarrow> ('a, 'c, 'b) runtime \<Rightarrow> ('a, 'c, 'b) runtime" where
  "put_staking s t = t\<lparr>rt_dapi := (rt_dapi t)\<lparr>World := s\<rparr>\<rparr>"

definition rt_block_reward ::
    "('a, 'c, 'b) runtime \<Rightarrow> ('b, ('a, massbit_id, 'c) staking) block_reward" where
  "rt_block_reward t =
     \<lparr>RewardDistributionConfigStorage = rt_reward_config t, RewardWorld = rt_staking t,
      RewardEvents = rt_reward_events t\<rparr>"

definition put_block_reward ::
    "('b, ('a, massbit_id, 'c) staking) block_reward \<Rightarrow> ('a, 'c, 'b) runtime \<Rightarrow> ('a, 'c, 'b) runtime" where
  "put_block_reward b t =
     (put_staking (RewardWorld b) t)
       \<lparr>rt_reward_config := RewardDistributionConfigStorage b, rt_reward_events := RewardEvents b\<rparr>"

inductive runtime_step ::
    "('o, 'a, 'c, 'i, 'b, 'e) framework \<Rightarrow> ('a, 'c, 'b) runtime \<Rightarrow> ('a, 'c, 'b) runtime \<Rightarrow> bool"
  for F :: "('o, 'a, 'c, 'i, 'b, 'e) framework" where
  dapi_step: "dapi_call (dapi_runtime F) (rt_dapi t) d \<Longrightarrow> runtime_step F t (t\<lparr>rt_dapi := d\<rparr>)"
| staking_step: "staking_extrinsic (staking_runtime F) (rt_staking t) s \<Longrightarrow> runtime_step F t (put_staking s t)"
| configuration_step: "set_configuration (reward_runtime F) origin cfg (rt_block_reward t) = (r, b) \<Longrightarrow>
    runtime_step F t (put_block_reward b t)"
| timestamp_step: "runtime_step F t (put_block_reward (on_timestamp_set (reward_runtime F) (rt_block_reward t)) t)"
| block_step: "on_initialize (staking_runtime F) now (rt_staking t) = Some (w, s) \<Longrightarrow>
    CurrentEra (rt_staking t) < - 1 \<Longrightarrow> runtime_step F t (put_staking s t)"
| balances_step: "runtime_step F t (put_staking ((rt_staking t)\<lparr>Balances := c\<rparr>) t)"

text \<open>Genesis: the regulators and the balances of the chain specification.\<close>

definition runtime_genesis ::
    "('o, 'a, 'c, 'i, 'b, 'e) framework \<Rightarrow> 'a list \<Rightarrow> 'c \<Rightarrow> ('a, 'c, 'b) runtime" where
  "runtime_genesis F regulators c =
     \<lparr>rt_dapi = dapi_genesis regulators (genesis c),
      rt_reward_config = RewardDistributionConfig_default (fw_perbill F), rt_reward_events = []\<rparr>"

section \<open>The interfaces in the runtime\<close>

lemmas runtime_configs = staking_runtime_def dapi_runtime_def reward_runtime_def lift_currency_def
  lift_result_def BeneficiaryPayout_validators_def BeneficiaryPayout_providers_def
  on_nonzero_unbalanced_def

lemma Balances_registry [simp]:
  "operator_of (s\<lparr>Balances := c\<rparr>) = operator_of s" "active_in (s\<lparr>Balances := c\<rparr>) = active_in s"
  by (auto simp: registry_defs)

lemma rewards_registry [simp]:
  "operator_of (rewards T i s) = operator_of s" "active_in (rewards T i s) = active_in s"
  by (auto simp: registry_defs rewards_def Let_def)

interpretation dapi_in_runtime: dapi_host "register (staking_runtime F)" unregister operator_of active_in
  "dapi_runtime F" for F
  by unfold_locales (auto simp: runtime_configs)

lemma payment_eq:
  assumes "on_unbalanced_laws F"
  shows "OnProjectPayment (dapi_runtime F) i s =
    (if peek (fw_balances F) i = 0
     then s\<lparr>Balances := drop_imbalance (fw_balances F) (Balances s) i\<rparr> else rewards (staking_runtime F) i s)"
  using assms by (simp add: on_unbalanced_laws_def dapi_runtime_def on_nonzero_unbalanced_def)

text \<open>What the staking pallet has booked for operators and stakers since the last era.\<close>

definition credited :: "('a, 'p, 'c) staking \<Rightarrow> nat" where
  "credited s = unat (ri_operators (BlockRewardAccumulator s)) + unat (ri_stakers (BlockRewardAccumulator s))"

lemma rewards_credited:
  assumes "perbill_part (Perbill T)" "credited s + unat (peek (Currency T) i) < 2 ^ 128"
  shows "credited (rewards T i s) = credited s + unat (peek (Currency T) i)"
proof -
  let ?amount = "peek (Currency T) i"
  let ?part = "perbill_mul (Perbill T) (OperatorRewardPercentage T) ?amount"
  have part: "unat ?part \<le> unat ?amount" by (rule perbill_mul_le [OF assms(1)])
  have "unat (saturating_add (ri_operators (BlockRewardAccumulator s)) ?part) =
      unat (ri_operators (BlockRewardAccumulator s)) + unat ?part"
    using assms(2) part by (intro saturating_add_exact) (simp add: credited_def)
  moreover have "unat (saturating_add (ri_stakers (BlockRewardAccumulator s)) (saturating_sub ?amount ?part)) =
      unat (ri_stakers (BlockRewardAccumulator s)) + (unat ?amount - unat ?part)"
    using assms(2) part by (subst saturating_add_exact) (simp_all add: credited_def unat_saturating_sub)
  ultimately show ?thesis using part by (simp add: credited_def rewards_def Let_def)
qed

interpretation payout_in_runtime: beneficiary_payout "reward_runtime F" credited
  for F :: "('o, 'a, 'c, 'i, 'b, 'e) framework"
proof unfold_locales
  fix w :: "('a, massbit_id, 'c) staking" and i :: 'i
  assume "perbill_part (RewardPerbill (reward_runtime F))"
    "credited w + unat (peek (RewardCurrency (reward_runtime F)) i) < 2 ^ 128"
  then show "credited (payout_providers (reward_runtime F) i w) =
      credited w + unat (peek (RewardCurrency (reward_runtime F)) i)"
    using rewards_credited [of "staking_runtime F" w i] by (simp add: runtime_configs)
qed (auto simp: runtime_configs credited_def split: prod.splits)

section \<open>The runtime runs the staking pallet\<close>

text \<open>
  Whatever the pallets of the runtime do to the staking pallet is a sequence of its own steps, so its
  invariants hold in the runtime.
\<close>

lemma currency_run: "(staking_step T)\<^sup>*\<^sup>* s (s\<lparr>Balances := c\<rparr>)"
  by (blast intro: currency_step)

text \<open>A payment the dApi pallet gets is one of the balances pallet.\<close>

lemma withdraw_lifted:
  assumes "withdraw (DapiCurrency (dapi_runtime F)) (World (rt_dapi t)) a v rs keep = (Inr i, s)"
  obtains c where "s = (rt_staking t)\<lparr>Balances := c\<rparr>"
    "withdraw (fw_balances F) (Balances (rt_staking t)) a v rs keep = (Inr i, c)"
proof (cases "withdraw (fw_balances F) (Balances (rt_staking t)) a v rs keep")
  case (Pair r c)
  then show ?thesis using assms that by (cases r) (auto simp: runtime_configs rt_staking_def)
qed

lemma payment_run:
  assumes "on_unbalanced_laws F"
  shows "(staking_step (staking_runtime F))\<^sup>*\<^sup>* s (OnProjectPayment (dapi_runtime F) i s)"
  unfolding payment_eq [OF assms] by (auto intro: currency_step rewards_step)

lemma pay_run:
  assumes "on_unbalanced_laws F" "withdraw (DapiCurrency (dapi_runtime F)) s a v rs keep = (r, s1)"
  shows "(staking_step (staking_runtime F))\<^sup>*\<^sup>* s s1"
    "(staking_step (staking_runtime F))\<^sup>*\<^sup>* s (OnProjectPayment (dapi_runtime F) i s1)"
proof -
  show "(staking_step (staking_runtime F))\<^sup>*\<^sup>* s s1"
    using assms(2) currency_run by (auto simp: runtime_configs)
  then show "(staking_step (staking_runtime F))\<^sup>*\<^sup>* s (OnProjectPayment (dapi_runtime F) i s1)"
    using payment_run [OF assms(1)] by (rule rtranclp_trans)
qed

lemma trait_run:
  "staking_register (dapi_runtime F) a p v s = (r, s') \<Longrightarrow> (staking_step (staking_runtime F))\<^sup>*\<^sup>* s s'"
  "staking_unregister (dapi_runtime F) p s = (r, s') \<Longrightarrow> (staking_step (staking_runtime F))\<^sup>*\<^sup>* s s'"
  by (auto simp: dapi_runtime_def intro: register_step unregister_step)

lemma dapi_call_run:
  assumes "dapi_call (dapi_runtime F) d d'" "on_unbalanced_laws F"
  shows "(staking_step (staking_runtime F))\<^sup>*\<^sup>* (World d) (World d')"
  using assms(1)
  by (cases rule: dapi_call.cases)
    (auto simp: dapi_call_defs split: dapi_splits intro: pay_run [OF assms(2)] trait_run)

lemma timestamp_run:
  "(staking_step (staking_runtime F))\<^sup>*\<^sup>* (RewardWorld b) (RewardWorld (on_timestamp_set (reward_runtime F) b))"
proof -
  have "\<exists>c i. RewardWorld (on_timestamp_set (reward_runtime F) b) =
      rewards (staking_runtime F) i ((RewardWorld b)\<lparr>Balances := c\<rparr>)"
    by (auto simp: on_timestamp_set_def distribute_rewards_def runtime_configs Let_def split: prod.splits)
  then show ?thesis
    by (metis currency_step rewards_step rtranclp.rtrancl_into_rtrancl r_into_rtranclp)
qed

lemma rt_staking_put [simp]: "rt_staking (put_staking s t) = s"
  "rt_staking (put_block_reward b t) = RewardWorld b"
  by (simp_all add: rt_staking_def put_staking_def put_block_reward_def)

lemma runtime_step_run:
  assumes "runtime_step F t t'" "on_unbalanced_laws F"
  shows "(staking_step (staking_runtime F))\<^sup>*\<^sup>* (rt_staking t) (rt_staking t')"
  using assms(1)
proof (cases rule: runtime_step.cases)
  case (dapi_step d)
  then show ?thesis using dapi_call_run [OF _ assms(2)] by (simp add: rt_staking_def)
next
  case (timestamp_step)
  then show ?thesis using timestamp_run [of F "rt_block_reward t"] by (simp add: rt_block_reward_def)
next
  case (configuration_step origin cfg r b)
  then show ?thesis using set_configuration_world by (fastforce simp: rt_block_reward_def)
qed (auto intro: staking_extrinsic_step initialize_step currency_step)

section \<open>The invariant of the runtime\<close>

definition runtime_laws :: "('o, 'a, 'c, 'i, 'b, 'e) framework \<Rightarrow> bool" where
  "runtime_laws F \<longleftrightarrow> on_unbalanced_laws F \<and> iter_laws (fw_iter F)"

definition runtime_ok :: "('a, 'c, 'b) runtime \<Rightarrow> bool" where
  "runtime_ok t \<longleftrightarrow> shares_ok (rt_staking t) \<and> coherent operator_of active_in (rt_dapi t) \<and>
     usage_ok (rt_dapi t)"

lemma staking_laws_runtime: "runtime_laws F \<Longrightarrow> staking_laws (staking_runtime F)"
  by (simp add: staking_laws_def runtime_laws_def staking_runtime_def MBT_def MILLIMBT_def)

lemma coherent_put_staking:
  assumes "coherent operator_of active_in (rt_dapi t)"
    and "operator_of s = operator_of (rt_staking t)" "active_in s = active_in (rt_staking t)"
  shows "coherent operator_of active_in (rt_dapi (put_staking s t))"
  using assms by (simp add: coherent_def put_staking_def rt_staking_def)

lemma on_initialize_registry:
  assumes "on_initialize T now s = Some (w, s')"
  shows "operator_of s' = operator_of s \<and> active_in s' = active_in s"
proof (cases "era_ends T now s")
  case True
  then show ?thesis using on_initialize_new_era(5) [OF assms] by (simp add: registry_defs fun_eq_iff)
next
  case False
  then show ?thesis using on_initialize_idle [OF assms] by simp
qed

lemma timestamp_registry:
  "operator_of (RewardWorld (on_timestamp_set (reward_runtime F) b)) = operator_of (RewardWorld b)"
  "active_in (RewardWorld (on_timestamp_set (reward_runtime F) b)) = active_in (RewardWorld b)"
  by (auto simp: on_timestamp_set_def distribute_rewards_def runtime_configs Let_def split: prod.splits)

lemma runtime_step_coherent:
  assumes "runtime_step F t t'" "on_unbalanced_laws F" "coherent operator_of active_in (rt_dapi t)"
  shows "coherent operator_of active_in (rt_dapi t')"
  using assms(1)
proof (cases rule: runtime_step.cases)
  case (dapi_step d)
  have "operator_of (OnProjectPayment (dapi_runtime F) i w) = operator_of w \<and>
      active_in (OnProjectPayment (dapi_runtime F) i w) = active_in w" for i w
    by (simp add: payment_eq [OF assms(2)])
  then show ?thesis
    using dapi_in_runtime.dapi_call_coherent dapi_step assms(3) by fastforce
next
  case (staking_step s)
  then show ?thesis
    using assms(3) staking_extrinsic_registry [OF staking_step(2)] by (simp add: coherent_put_staking)
next
  case (configuration_step origin cfg r b)
  then have "RewardWorld b = rt_staking t"
    using set_configuration_world by (fastforce simp: rt_block_reward_def)
  with configuration_step assms(3) show ?thesis
    by (simp add: put_block_reward_def coherent_put_staking)
next
  case timestamp_step
  then show ?thesis
    using assms(3) by (simp add: put_block_reward_def coherent_put_staking timestamp_registry rt_block_reward_def)
next
  case (block_step now w s)
  then show ?thesis
    using assms(3) on_initialize_registry [OF block_step(2)] by (simp add: coherent_put_staking)
next
  case (balances_step c)
  then show ?thesis using assms(3) by (simp add: coherent_put_staking)
qed

lemma runtime_step_dapi:
  assumes "runtime_step F t t'"
  shows "dapi_call (dapi_runtime F) (rt_dapi t) (rt_dapi t') \<or>
    Projects (rt_dapi t') = Projects (rt_dapi t) \<and> Providers (rt_dapi t') = Providers (rt_dapi t) \<and>
    ChainIds (rt_dapi t') = ChainIds (rt_dapi t)"
  using assms by (cases rule: runtime_step.cases) (auto simp: put_staking_def put_block_reward_def)

lemma runtime_step_ok:
  assumes "runtime_step F t t'" "runtime_laws F" "runtime_ok t"
  shows "runtime_ok t'"
proof -
  have laws: "on_unbalanced_laws F" "staking_laws (staking_runtime F)"
    using assms(2) staking_laws_runtime by (auto simp: runtime_laws_def)
  have "shares_ok (rt_staking t')"
    using staking_run_shares [OF runtime_step_run [OF assms(1) laws(1)] laws(2)] assms(3)
    by (simp add: runtime_ok_def)
  moreover have "usage_ok (rt_dapi t')"
    using runtime_step_dapi [OF assms(1)]
  proof
    assume "dapi_call (dapi_runtime F) (rt_dapi t) (rt_dapi t')"
    then show ?thesis using dapi_call_usage assms(3) unfolding runtime_ok_def by blast
  qed (use assms(3) in \<open>simp add: runtime_ok_def usage_ok_def\<close>)
  ultimately show ?thesis
    using runtime_step_coherent [OF assms(1) laws(1)] assms(3) by (simp add: runtime_ok_def)
qed

interpretation runtime_runs: invariant_system "runtime_step F" "\<lambda>t. runtime_laws F \<longrightarrow> runtime_ok t" for F
  by unfold_locales (blast intro: runtime_step_ok)

lemma runtime_genesis_ok: "runtime_ok (runtime_genesis F regulators c)"
  using genesis_shares
  by (simp add: runtime_ok_def runtime_genesis_def rt_staking_def dapi_genesis_def coherent_def agree_def
      usage_ok_def operator_of_def genesis_def)

section \<open>The sizes of the storage in the runtime\<close>

text \<open>\<^verbatim>\<open>TryFrom<Vec<u8>> for BoundedVec<u8, S>\<close> succeeds on vectors of at most \<^verbatim>\<open>S::get()\<close> bytes.\<close>

definition try_into_laws :: "('o, 'a, 'c, 'i, 'b, 'e) framework \<Rightarrow> bool" where
  "try_into_laws F \<longleftrightarrow>
     (\<forall>n xs. fw_bounded_try_into F n xs = (if length xs \<le> unat n then Some xs else None))"

lemma runtime_bounds_allow: "bounds_allow (staking_runtime F)"
  by (simp add: bounds_allow_def staking_runtime_def MBT_def MILLIMBT_def)

lemma runtime_step_chain_ids:
  assumes "runtime_step F t t'" "try_into_laws F" "chain_ids_ok (\<lambda>k. length k \<le> 64) (rt_dapi t)"
  shows "chain_ids_ok (\<lambda>k. length k \<le> 64) (rt_dapi t')"
  using runtime_step_dapi [OF assms(1)]
proof
  assume "dapi_call (dapi_runtime F) (rt_dapi t) (rt_dapi t')"
  then show ?thesis
  proof (rule dapi_call_chain_ids [OF _ assms(3)])
    show "length k \<le> 64" if "bounded_try_into (dapi_runtime F) xs = Some k" for xs k
      using that assms(2)
      by (simp add: try_into_laws_def dapi_runtime_def MaxBytesInChainId_def split: if_splits)
  qed
qed (use assms(3) in \<open>simp add: chain_ids_ok_def\<close>)

interpretation runtime_chain_ids: invariant_system "runtime_step F"
  "\<lambda>t. try_into_laws F \<longrightarrow> chain_ids_ok (\<lambda>k. length k \<le> 64) (rt_dapi t)" for F
  by unfold_locales (blast intro: runtime_step_chain_ids)

end
