(* ===== verification/Calls.thy ===== *)
theory Calls
  imports Weights Runtime
begin

text \<open>
  The calls of the pallets as data, as the enumeration \<^verbatim>\<open>Call\<close> has them that the framework builds from
  the extrinsics of a pallet: the dispatch of a call, and the weight its attribute
  \<^verbatim>\<open>#[pallet::weight(..)]\<close> charges for it. An input of the runtime is a call with its origin, the block
  hook, the time stamp, or a change of the currency; the step relation of the runtime is what the
  inputs do.
\<close>

section \<open>Calls of the pallets\<close>

datatype 'p staking_pallet_call =
    Withdraw_from_unregistered_staker 'p
  | Withdraw_from_unregistered_operator 'p
  | Stake_call 'p balance
  | Unstake_call 'p balance
  | Withdraw_unstaked
  | Claim_staker 'p
  | Claim_operator 'p era_index
  | Force_new_era

fun staking_dispatch ::
    "('o, 'a, 'p, 'c, 'i, 'b, 'e) staking_config \<Rightarrow> 'o \<Rightarrow> 'p staking_pallet_call \<Rightarrow>
     ('a, 'p, 'c) staking \<Rightarrow> ('a, 'p, 'c, 'e) staking_outcome" where
  "staking_dispatch T origin (Withdraw_from_unregistered_staker p) s =
     withdraw_from_unregistered_staker T origin p s"
| "staking_dispatch T origin (Withdraw_from_unregistered_operator p) s =
     withdraw_from_unregistered_operator T origin p s"
| "staking_dispatch T origin (Stake_call p v) s = stake T origin p v s"
| "staking_dispatch T origin (Unstake_call p v) s = unstake T origin p v s"
| "staking_dispatch T origin Withdraw_unstaked s = withdraw_unstaked T origin s"
| "staking_dispatch T origin (Claim_staker p) s = claim_staker T origin p s"
| "staking_dispatch T origin (Claim_operator p e) s = claim_operator T origin p e s"
| "staking_dispatch T origin Force_new_era s = force_new_era T origin s"

fun staking_call_weight :: "staking_weight_info \<Rightarrow> 'p staking_pallet_call \<Rightarrow> weight" where
  "staking_call_weight W (Withdraw_from_unregistered_staker p) = w_withdraw_from_unregistered_staker W"
| "staking_call_weight W (Withdraw_from_unregistered_operator p) = w_withdraw_from_unregistered_operator W"
| "staking_call_weight W (Stake_call p v) = w_stake W"
| "staking_call_weight W (Unstake_call p v) = w_unstake W"
| "staking_call_weight W Withdraw_unstaked = w_withdraw_unstaked W"
| "staking_call_weight W (Claim_staker p) = w_claim_staker W"
| "staking_call_weight W (Claim_operator p e) = w_claim_operator W"
| "staking_call_weight W Force_new_era = w_force_new_era W"

datatype ('a, 'p) dapi_pallet_call =
    Register_project 'p "u8 list" balance
  | Deposit_project 'p balance
  | Submit_project_usage 'p u128
  | Register_provider 'p provider_type 'a "u8 list"
  | Deposit_provider 'p balance
  | Unregister_provider 'p
  | Report_provider_offence 'p provider_deactivate_reason
  | Add_regulator 'a
  | Remove_regulator 'a
  | Add_chain_id "u8 list"
  | Remove_chain_id "u8 list"

fun dapi_dispatch ::
    "('o, 'a, 'p, 'w, 'i, 'x) dapi_config \<Rightarrow> 'o \<Rightarrow> ('a, 'p) dapi_pallet_call \<Rightarrow> ('a, 'p, 'w) dapi \<Rightarrow>
     ('a, 'p, 'w, 'x) dapi_outcome" where
  "dapi_dispatch D origin (Register_project p chain v) d = register_project D origin p chain v d"
| "dapi_dispatch D origin (Deposit_project p v) d = deposit_project D origin p v d"
| "dapi_dispatch D origin (Submit_project_usage p u) d = submit_project_usage D origin p u d"
| "dapi_dispatch D origin (Register_provider p t a chain) d = register_provider D origin p t a chain d"
| "dapi_dispatch D origin (Deposit_provider p v) d = deposit_provider D origin p v d"
| "dapi_dispatch D origin (Unregister_provider p) d = unregister_provider D origin p d"
| "dapi_dispatch D origin (Report_provider_offence p reason) d = report_provider_offence D origin p reason d"
| "dapi_dispatch D origin (Add_regulator a) d = add_regulator D origin a d"
| "dapi_dispatch D origin (Remove_regulator a) d = remove_regulator D origin a d"
| "dapi_dispatch D origin (Add_chain_id chain) d = add_chain_id D origin chain d"
| "dapi_dispatch D origin (Remove_chain_id chain) d = remove_chain_id D origin chain d"

fun dapi_call_weight :: "dapi_weight_info \<Rightarrow> ('a, 'p) dapi_pallet_call \<Rightarrow> weight" where
  "dapi_call_weight W (Register_project p chain v) = w_register_project W"
| "dapi_call_weight W (Deposit_project p v) = w_deposit_project W"
| "dapi_call_weight W (Submit_project_usage p u) = 100"
| "dapi_call_weight W (Register_provider p t a chain) = 100"
| "dapi_call_weight W (Deposit_provider p v) = 100"
| "dapi_call_weight W (Unregister_provider p) = w_unregister_provider W"
| "dapi_call_weight W (Report_provider_offence p reason) = 100"
| "dapi_call_weight W (Add_regulator a) = w_add_regulator W"
| "dapi_call_weight W (Remove_regulator a) = w_remove_regulator W"
| "dapi_call_weight W (Add_chain_id chain) = w_add_chain_id W"
| "dapi_call_weight W (Remove_chain_id chain) = w_remove_chain_id W"

datatype 'b reward_pallet_call = Set_configuration "'b reward_distribution_config"

fun reward_dispatch ::
    "('o, 'a, 'w, 'i, 'b, 'e) reward_pallet \<Rightarrow> 'o \<Rightarrow> 'b reward_pallet_call \<Rightarrow>
     ('b, 'w) block_reward \<Rightarrow> (('b, 'w) block_reward, (reward_error, 'e) dispatch_error) outcome" where
  "reward_dispatch R origin (Set_configuration cfg) b = set_configuration R origin cfg b"

fun reward_call_weight :: "'b reward_pallet_call \<Rightarrow> weight" where
  "reward_call_weight (Set_configuration cfg) = 100"

section \<open>Inputs of the runtime\<close>

text \<open>The pallets of \<^verbatim>\<open>construct_runtime!\<close> that are part of the repository, with their calls.\<close>

datatype ('a, 'b) runtime_call =
    Dapi "('a, massbit_id) dapi_pallet_call"
  | DapiStaking "massbit_id staking_pallet_call"
  | BlockReward "'b reward_pallet_call"

fun runtime_dispatch ::
    "('o, 'a, 'c, 'i, 'b, 'e) framework \<Rightarrow> 'o \<Rightarrow> ('a, 'b) runtime_call \<Rightarrow> ('a, 'c, 'b) runtime \<Rightarrow>
     bool \<times> ('a, 'c, 'b) runtime" where
  "runtime_dispatch F origin (Dapi call) t =
     (case dapi_dispatch (dapi_runtime F) origin call (rt_dapi t) of (r, d) \<Rightarrow>
        (\<not> isl r, t\<lparr>rt_dapi := d\<rparr>))"
| "runtime_dispatch F origin (DapiStaking call) t =
     (case staking_dispatch (staking_runtime F) origin call (rt_staking t) of (r, s) \<Rightarrow>
        (\<not> isl r, put_staking s t))"
| "runtime_dispatch F origin (BlockReward call) t =
     (case reward_dispatch (reward_runtime F) origin call (rt_block_reward t) of (r, b) \<Rightarrow>
        (\<not> isl r, put_block_reward b t))"

datatype ('o, 'a, 'b, 'c) runtime_input =
    Extrinsic 'o "('a, 'b) runtime_call"
  | Initialize_block u32
  | Timestamp_set
  | Currency_change 'c

text \<open>\<open>None\<close> is the panic of the hook, and the hook in the last era.\<close>

fun apply_input ::
    "('o, 'a, 'c, 'i, 'b, 'e) framework \<Rightarrow> ('o, 'a, 'b, 'c) runtime_input \<Rightarrow> ('a, 'c, 'b) runtime \<Rightarrow>
     ('a, 'c, 'b) runtime option" where
  "apply_input F (Extrinsic origin call) t = Some (snd (runtime_dispatch F origin call t))"
| "apply_input F (Initialize_block now) t =
     (if CurrentEra (rt_staking t) < - 1
      then map_option (\<lambda>(w, s). put_staking s t) (on_initialize (staking_runtime F) now (rt_staking t))
      else None)"
| "apply_input F Timestamp_set t =
     Some (put_block_reward (on_timestamp_set (reward_runtime F) (rt_block_reward t)) t)"
| "apply_input F (Currency_change c) t = Some (put_staking ((rt_staking t)\<lparr>Balances := c\<rparr>) t)"

text \<open>A history of the chain: inputs one after the other.\<close>

fun run_inputs ::
    "('o, 'a, 'c, 'i, 'b, 'e) framework \<Rightarrow> ('o, 'a, 'b, 'c) runtime_input list \<Rightarrow> ('a, 'c, 'b) runtime \<Rightarrow>
     ('a, 'c, 'b) runtime option" where
  "run_inputs F [] t = Some t"
| "run_inputs F (x # xs) t = (case apply_input F x t of None \<Rightarrow> None | Some u \<Rightarrow> run_inputs F xs u)"

section \<open>Steps are inputs\<close>

lemma staking_extrinsic_dispatch:
  "staking_extrinsic T s s' \<longleftrightarrow> (\<exists>origin call. s' = snd (staking_dispatch T origin call s))"
proof
  assume "staking_extrinsic T s s'"
  then show "\<exists>origin call. s' = snd (staking_dispatch T origin call s)"
    by (cases rule: staking_extrinsic.cases) (metis snd_conv staking_dispatch.simps)+
next
  assume "\<exists>origin call. s' = snd (staking_dispatch T origin call s)"
  then obtain origin call where s': "s' = snd (staking_dispatch T origin call s)" by blast
  show "staking_extrinsic T s s'"
    unfolding s' by (cases call) (simp, rule staking_extrinsic.intros, rule surjective_pairing)+
qed

lemma dapi_call_dispatch:
  "dapi_call D d d' \<longleftrightarrow> (\<exists>origin call. d' = snd (dapi_dispatch D origin call d))"
proof
  assume "dapi_call D d d'"
  then show "\<exists>origin call. d' = snd (dapi_dispatch D origin call d)"
    by (cases rule: dapi_call.cases) (metis snd_conv dapi_dispatch.simps)+
next
  assume "\<exists>origin call. d' = snd (dapi_dispatch D origin call d)"
  then obtain origin call where d': "d' = snd (dapi_dispatch D origin call d)" by blast
  show "dapi_call D d d'"
    unfolding d' by (cases call) (simp, rule dapi_call.intros, rule surjective_pairing)+
qed

lemma runtime_dispatch_snd:
  "snd (runtime_dispatch F origin (Dapi call) t) =
     t\<lparr>rt_dapi := snd (dapi_dispatch (dapi_runtime F) origin call (rt_dapi t))\<rparr>"
  "snd (runtime_dispatch F origin (DapiStaking scall) t) =
     put_staking (snd (staking_dispatch (staking_runtime F) origin scall (rt_staking t))) t"
  "snd (runtime_dispatch F origin (BlockReward (Set_configuration cfg)) t) =
     put_block_reward (snd (set_configuration (reward_runtime F) origin cfg (rt_block_reward t))) t"
  by (simp_all add: split_beta)

lemma apply_input_step:
  assumes "apply_input F x t = Some u"
  shows "runtime_step F t u"
proof (cases x)
  case (Extrinsic origin call)
  show ?thesis
  proof (cases call)
    case (Dapi c)
    have "dapi_call (dapi_runtime F) (rt_dapi t) (snd (dapi_dispatch (dapi_runtime F) origin c (rt_dapi t)))"
      using dapi_call_dispatch by blast
    then show ?thesis
      using assms runtime_step.dapi_step unfolding Extrinsic Dapi apply_input.simps runtime_dispatch_snd
      by blast
  next
    case (DapiStaking c)
    have "staking_extrinsic (staking_runtime F) (rt_staking t)
        (snd (staking_dispatch (staking_runtime F) origin c (rt_staking t)))"
      using staking_extrinsic_dispatch by blast
    then show ?thesis
      using assms runtime_step.staking_step unfolding Extrinsic DapiStaking apply_input.simps
        runtime_dispatch_snd by blast
  next
    case (BlockReward c)
    obtain cfg where c: "c = Set_configuration cfg" by (cases c)
    have "u = put_block_reward (snd (set_configuration (reward_runtime F) origin cfg (rt_block_reward t))) t"
      using assms unfolding Extrinsic BlockReward c apply_input.simps runtime_dispatch_snd by simp
    then show ?thesis by (simp only: configuration_step [OF surjective_pairing])
  qed
next
  case (Initialize_block now)
  then show ?thesis using assms block_step by (auto split: if_splits)
next
  case Timestamp_set
  then show ?thesis using assms timestamp_step by auto
next
  case (Currency_change c)
  then show ?thesis using assms balances_step by auto
qed

lemma step_apply_input:
  assumes "runtime_step F t u"
  shows "\<exists>x. apply_input F x t = Some u"
  using assms
proof (cases rule: runtime_step.cases)
  case (dapi_step d)
  obtain origin call where d: "d = snd (dapi_dispatch (dapi_runtime F) origin call (rt_dapi t))"
    using dapi_step(2) [unfolded dapi_call_dispatch] by (elim exE)
  have "apply_input F (Extrinsic origin (Dapi call)) t = Some u"
    unfolding apply_input.simps runtime_dispatch_snd dapi_step(1) d ..
  then show ?thesis ..
next
  case (staking_step s)
  obtain origin call where s: "s = snd (staking_dispatch (staking_runtime F) origin call (rt_staking t))"
    using staking_step(2) [unfolded staking_extrinsic_dispatch] by (elim exE)
  have "apply_input F (Extrinsic origin (DapiStaking call)) t = Some u"
    unfolding apply_input.simps runtime_dispatch_snd staking_step(1) s ..
  then show ?thesis ..
next
  case (configuration_step origin cfg r b)
  have "apply_input F (Extrinsic origin (BlockReward (Set_configuration cfg))) t = Some u"
    unfolding apply_input.simps runtime_dispatch_snd configuration_step(1,2) snd_conv ..
  then show ?thesis ..
next
  case timestamp_step
  then have "apply_input F Timestamp_set t = Some u" by simp
  then show ?thesis ..
next
  case (block_step now w s)
  then have "apply_input F (Initialize_block now) t = Some u" by simp
  then show ?thesis ..
next
  case (balances_step c)
  then have "apply_input F (Currency_change c) t = Some u" by simp
  then show ?thesis ..
qed

lemma run_inputs_append:
  "run_inputs F (xs @ ys) t = (case run_inputs F xs t of None \<Rightarrow> None | Some u \<Rightarrow> run_inputs F ys u)"
  by (induction xs arbitrary: t) (simp_all split: option.splits)

lemma run_inputs_run: "run_inputs F xs t = Some u \<Longrightarrow> (runtime_step F)\<^sup>*\<^sup>* t u"
proof (induction xs arbitrary: t)
  case (Cons x xs)
  then show ?case
    by (auto split: option.splits dest: apply_input_step intro: converse_rtranclp_into_rtranclp)
qed simp

lemma run_run_inputs: "(runtime_step F)\<^sup>*\<^sup>* t u \<Longrightarrow> \<exists>xs. run_inputs F xs t = Some u"
proof (induction rule: rtranclp_induct)
  case base
  have "run_inputs F [] t = Some t" by simp
  then show ?case ..
next
  case (step u v)
  then obtain xs x where "run_inputs F xs t = Some u" "apply_input F x u = Some v"
    using step_apply_input by blast
  then have "run_inputs F (xs @ [x]) t = Some v" by (simp add: run_inputs_append)
  then show ?case ..
qed

end
