(* ===== verification/Sample_Runtime.thy ===== *)
theory Sample_Runtime
  imports Sample Runtime "HOL-Library.List_Lexorder"
begin

text \<open>
  The local runtime in the sample framework, and a run of it: a project and a provider are registered.
\<close>

section \<open>The sample framework with the runtime in it\<close>

instantiation massbit_id :: linorder
begin

definition less_eq_massbit_id :: "massbit_id \<Rightarrow> massbit_id \<Rightarrow> bool" where
  "less_eq_massbit_id a b = (case (a, b) of (MassbitId x, MassbitId y) \<Rightarrow> x \<le> y)"

definition less_massbit_id :: "massbit_id \<Rightarrow> massbit_id \<Rightarrow> bool" where
  "less_massbit_id a b = (case (a, b) of (MassbitId x, MassbitId y) \<Rightarrow> x < y)"

instance
  by standard (auto simp: less_eq_massbit_id_def less_massbit_id_def split: massbit_id.splits)

end

definition sample_framework :: "(nat option, nat, purse, balance, nat, unit) framework" where
  "sample_framework =
     \<lparr>fw_system = sample_system, fw_balances = sample_currency, fw_perbill = sample_perbill,
      fw_db_weight = sample_db_weight, fw_iter = sample_iter, fw_into_account = (\<lambda>_. 0),
      fw_on_unbalanced = (\<lambda>f i s. if peek sample_currency i = 0
        then s\<lparr>Balances := drop_imbalance sample_currency (Balances s) i\<rparr> else f i s),
      fw_bounded_try_into = (\<lambda>n xs. if length xs \<le> unat n then Some xs else None)\<rparr>"

lemma sample_runtime_laws: "runtime_laws sample_framework"
  by (simp add: runtime_laws_def on_unbalanced_laws_def sample_framework_def sample_iter_laws)

text \<open>Everybody has a million MBT; account 9 is the regulator.\<close>

definition sample_genesis :: "(nat, purse, nat) runtime" where
  "sample_genesis = runtime_genesis sample_framework [9] (\<lambda>_. 1000000 * MBT)"

text \<open>A call of the dApi pallet on the runtime.\<close>

definition on_dapi ::
    "(('a, massbit_id, ('a, massbit_id, 'c) staking) dapi \<Rightarrow>
      ('a, massbit_id, ('a, massbit_id, 'c) staking, (staking_error, 'e) dispatch_error) dapi_outcome) \<Rightarrow>
     ('a, 'c, 'b) runtime \<Rightarrow> ('a, 'c, 'b) runtime" where
  "on_dapi f t = t\<lparr>rt_dapi := snd (f (rt_dapi t))\<rparr>"

definition sample_id :: massbit_id where
  "sample_id = MassbitId_default"

text \<open>
  A run: a chain id is added, a project with 5 MBT is registered and used, a provider is registered,
  and its operator 5 deposits 200 MBT for it.
\<close>

definition sample_project :: "(nat, purse, nat) runtime" where
  "sample_project =
     on_dapi (submit_project_usage (dapi_runtime sample_framework) (Some 9) sample_id 7)
      (on_dapi (register_project (dapi_runtime sample_framework) (Some 2) sample_id [1, 2] (5 * MBT))
      (on_dapi (add_chain_id (dapi_runtime sample_framework) None [1, 2]) sample_genesis))"

definition sample_active :: "(nat, purse, nat) runtime" where
  "sample_active =
     on_dapi (deposit_provider (dapi_runtime sample_framework) (Some 5) sample_id (200 * MBT))
      (on_dapi (register_provider (dapi_runtime sample_framework) (Some 9) sample_id Node 5 [1, 2]) sample_project)"

lemmas dapi_eval = sample_framework_def runtime_configs dapi_call_defs on_dapi_def calculate_quota_def
  runtime_genesis_def dapi_genesis_def sample_genesis_def sample_id_def MassbitId_default_def
  MBT_def MILLIMBT_def MaxBytesInChainId_def register_def stake_def

lemma on_dapi_run:
  assumes "(runtime_step F)\<^sup>*\<^sup>* t0 t" "\<And>d d' r. f d = (r, d') \<Longrightarrow> dapi_call (dapi_runtime F) d d'"
  shows "(runtime_step F)\<^sup>*\<^sup>* t0 (on_dapi f t)"
  using assms(1) dapi_step [OF assms(2) [OF surjective_pairing]] unfolding on_dapi_def
  by (rule rtranclp.rtrancl_into_rtrancl)

lemma sample_project_run: "(runtime_step sample_framework)\<^sup>*\<^sup>* sample_genesis sample_project"
  unfolding sample_project_def
  by (intro on_dapi_run rtranclp.rtrancl_refl) (rule dapi_call.intros; assumption)+

lemma sample_active_run: "(runtime_step sample_framework)\<^sup>*\<^sup>* sample_genesis sample_active"
  unfolding sample_active_def
  by (intro on_dapi_run sample_project_run) (rule dapi_call.intros; assumption)+

lemma sample_project_state:
  "Projects (rt_dapi sample_project) sample_id =
     Some \<lparr>prj_consumer = 2, prj_chain_id = [1, 2], prj_quota = 5000, prj_usage = 7\<rparr>"
  by (simp add: sample_project_def dapi_eval staking_eval)

lemma sample_active_state:
  "Providers (rt_dapi sample_active) sample_id =
     Some \<lparr>prv_provider_type = Node, prv_operator = 5, prv_chain_id = [1, 2], prv_state = DActive\<rparr>"
  by (simp add: sample_active_def sample_project_def dapi_eval staking_eval)

section \<open>A registration that fails half way\<close>

text \<open>
  Everybody has 95 MBT when operator 5 deposits 200 MBT for its provider: the currency reserves the 90 MBT
  of the registration, and the stake of the rest is refused, as only 4 MBT are left for it.
\<close>

definition sample_announced :: "(nat, purse, nat) runtime" where
  "sample_announced =
     on_dapi (register_provider (dapi_runtime sample_framework) (Some 9) sample_id Node 5 [1, 2]) sample_project"

definition with_purse :: "purse \<Rightarrow> (nat, purse, nat) runtime \<Rightarrow> (nat, purse, nat) runtime" where
  "with_purse c t = put_staking ((rt_staking t)\<lparr>Balances := c\<rparr>) t"

definition sample_half :: "(nat, purse, nat) runtime" where
  "sample_half =
     on_dapi (deposit_provider (dapi_runtime sample_framework) (Some 5) sample_id (200 * MBT))
      (with_purse (\<lambda>_. 95 * MBT) sample_announced)"

lemma with_purse_run: "(runtime_step F)\<^sup>*\<^sup>* t0 t \<Longrightarrow> (runtime_step F)\<^sup>*\<^sup>* t0 (with_purse c t)"
  unfolding with_purse_def by (erule rtranclp.rtrancl_into_rtrancl) (rule balances_step)

lemma sample_half_run: "(runtime_step sample_framework)\<^sup>*\<^sup>* sample_genesis sample_half"
  unfolding sample_half_def sample_announced_def
  by (intro on_dapi_run with_purse_run sample_project_run) (rule dapi_call.intros; assumption)+

lemma sample_half_state:
  "Providers (rt_dapi sample_half) sample_id =
     Some \<lparr>prv_provider_type = Node, prv_operator = 5, prv_chain_id = [1, 2], prv_state = DRegistered\<rparr>"
  "RegisteredProviders (rt_staking sample_half) sample_id \<noteq> None"
  "Balances (rt_staking sample_half) 5 = 5 * MBT"
  by (simp_all add: sample_half_def sample_announced_def sample_project_def with_purse_def put_staking_def
      rt_staking_def dapi_eval staking_eval)

end
