(* ===== verification/Call_Properties.thy ===== *)
theory Call_Properties
  imports Calls Staking_Outcomes Sample_Runtime
begin

text \<open>
  The properties of calls and weights: the inputs of the runtime are its steps, the weight charged
  for a call of the staking pallet pays for the entries it writes, and the weight the hook reports
  is known exactly.
\<close>

section \<open>Inputs\<close>

text \<open>
  The executable runtime and the step relation describe the same runs: a state follows from
  another by steps exactly if some sequence of calls, hooks, time stamps and changes of the currency
  leads there.
\<close>

lemma inputs_are_runs:
  "(runtime_step F)\<^sup>*\<^sup>* t u \<longleftrightarrow> (\<exists>xs. run_inputs F xs t = Some u)"
  using run_inputs_run run_run_inputs by blast

section \<open>The entries a call writes\<close>

definition keys_written :: "('k \<Rightarrow> 'v) \<Rightarrow> ('k \<Rightarrow> 'v) \<Rightarrow> nat" where
  "keys_written m m' = card {k. m' k \<noteq> m k}"

text \<open>The entries of the storage of the staking pallet that differ in two states.\<close>

definition entries_written :: "('a, 'p, 'c) staking \<Rightarrow> ('a, 'p, 'c) staking \<Rightarrow> nat" where
  "entries_written s s' =
     keys_written (Ledger s) (Ledger s') + of_bool (CurrentEra s' \<noteq> CurrentEra s) +
     of_bool (BlockRewardAccumulator s' \<noteq> BlockRewardAccumulator s) + of_bool (ForceEra s' \<noteq> ForceEra s) +
     keys_written (RegisteredProviders s) (RegisteredProviders s') +
     keys_written (GeneralEraInfo s) (GeneralEraInfo s') +
     keys_written (ProviderEraStake s) (ProviderEraStake s') +
     keys_written (GeneralStakerInfo s) (GeneralStakerInfo s')"

lemma keys_written_same [simp]: "keys_written m m = 0"
  by (simp add: keys_written_def)

lemma keys_written_upd: "keys_written m (m(k := v)) \<le> 1"
proof -
  have "{j. (m(k := v)) j \<noteq> m j} \<subseteq> {k}" by auto
  from card_mono [OF _ this] show ?thesis by (simp add: keys_written_def)
qed

lemma keys_written_upd_default: "keys_written m (upd_default d m k v) \<le> 1"
  unfolding upd_default_def by (rule keys_written_upd)

lemma entries_written_refused [simp]:
  "entries_written s s = 0" "entries_written s (s\<lparr>Balances := c\<rparr>) = 0"
  by (simp_all add: entries_written_def)

lemmas written_bounds = keys_written_upd keys_written_upd_default
  keys_written_upd [unfolded One_nat_def] keys_written_upd_default [unfolded One_nat_def]

lemma entries_written_ok:
  "stake T origin p v s = (Inr (), s') \<Longrightarrow> entries_written s s' \<le> 4"
  "unstake T origin p v s = (Inr (), s') \<Longrightarrow> entries_written s s' \<le> 4"
  "withdraw_unstaked T origin s = (Inr (), s') \<Longrightarrow> entries_written s s' \<le> 2"
  "withdraw_from_unregistered_staker T origin p s = (Inr (), s') \<Longrightarrow> entries_written s s' \<le> 3"
  "withdraw_from_unregistered_operator T origin p s = (Inr (), s') \<Longrightarrow> entries_written s s' \<le> 1"
  "claim_staker T origin p s = (Inr (), s') \<Longrightarrow> entries_written s s' \<le> 1"
  "claim_operator T origin p e s = (Inr (), s') \<Longrightarrow> entries_written s s' \<le> 1"
  "force_new_era T origin s = (Inr (), s') \<Longrightarrow> entries_written s s' \<le> 1"
proof -
  have four: "a + b + c + d \<le> 4" if "a \<le> 1" "b \<le> 1" "c \<le> 1" "d \<le> 1" for a b c d :: nat
    using that by simp
  have three: "a + b + c \<le> 3" if "a \<le> 1" "b \<le> 1" "c \<le> 1" for a b c :: nat
    using that by simp
  have two: "a + b \<le> 2" if "a \<le> 1" "b \<le> 1" for a b :: nat
    using that by simp
  show "entries_written s s' \<le> 4" if "stake T origin p v s = (Inr (), s')"
    using that by (rule stake_okE) (simp add: entries_written_def split del: if_split, intro four written_bounds)
  show "entries_written s s' \<le> 4" if "unstake T origin p v s = (Inr (), s')"
    using that by (rule unstake_okE) (simp add: entries_written_def split del: if_split, intro four written_bounds)
  show "entries_written s s' \<le> 2" if "withdraw_unstaked T origin s = (Inr (), s')"
    using that by (rule withdraw_unstaked_okE) (simp add: entries_written_def split del: if_split, intro two written_bounds)
  show "entries_written s s' \<le> 3" if "withdraw_from_unregistered_staker T origin p s = (Inr (), s')"
    using that by (rule withdraw_from_unregistered_staker_okE)
      (simp add: entries_written_def split del: if_split, intro three written_bounds)
  show "entries_written s s' \<le> 1" if "withdraw_from_unregistered_operator T origin p s = (Inr (), s')"
    using that by (rule withdraw_from_unregistered_operator_okE)
      (simp add: entries_written_def split del: if_split, intro written_bounds)
  show "entries_written s s' \<le> 1" if "claim_staker T origin p s = (Inr (), s')"
    using that by (rule claim_staker_okE) (simp add: entries_written_def split del: if_split, intro written_bounds)
  show "entries_written s s' \<le> 1" if "claim_operator T origin p e s = (Inr (), s')"
    using that by (rule claim_operator_okE) (simp add: entries_written_def split del: if_split, intro written_bounds)
  show "entries_written s s' \<le> 1" if "force_new_era T origin s = (Inr (), s')"
    using that by (auto simp: force_new_era_def entries_written_def split: if_splits)
qed

lemma dispatch_outcome:
  assumes "\<And>s'. f = (Inr (), s') \<Longrightarrow> entries_written s s' \<le> n"
    and "\<And>err s'. f = (Inl err, s') \<Longrightarrow> \<exists>c. s' = s \<or> s' = s\<lparr>Balances := c\<rparr>"
  shows "entries_written s (snd f) \<le> n"
proof (cases f)
  case (Pair r s')
  then show ?thesis using assms by (cases r) force+
qed

text \<open>How many entries a call of the staking pallet can write.\<close>

fun max_written :: "'p staking_pallet_call \<Rightarrow> nat" where
  "max_written (Withdraw_from_unregistered_staker p) = 3"
| "max_written (Stake_call p v) = 4"
| "max_written (Unstake_call p v) = 4"
| "max_written Withdraw_unstaked = 2"
| "max_written call = 1"

lemma entries_written_dispatch:
  "entries_written s (snd (staking_dispatch T origin call s)) \<le> max_written call"
  by (cases call; simp only: staking_dispatch.simps max_written.simps;
      rule dispatch_outcome; (erule entries_written_ok | metis refused_unchanged refused_only_balances))

text \<open>
  C37. The weight charged for a call of the staking pallet pays for the entries of its storage that the
  call writes, at the price of the database for a write, whatever the state and whether the call
  succeeds or not, as long as the prices leave room for the weights in 64 bits.
\<close>

theorem weight_covers_writes:
  assumes "db_linear db r w" "101191000 + 7 * r + 5 * w < 2 ^ 64"
  shows "w * entries_written s (snd (staking_dispatch T origin call s))
    \<le> unat (staking_call_weight (staking_SubstrateWeight db) call)"
proof -
  have "w * max_written call \<le> unat (staking_call_weight (staking_SubstrateWeight db) call)"
    using assms(2)
    by (cases call)
      (simp_all add: staking_SubstrateWeight_def weight_exact [OF assms(1)] write_weight_exact [OF assms(1)])
  with entries_written_dispatch show ?thesis by (meson le_trans mult_le_mono2)
qed

lemma sample_db_linear: "db_linear sample_db_weight 25 100"
  by (auto simp: db_linear_def sample_db_weight_def unat_word_ariths)

theorem weight_covers_writes_witness:
  "entries_written sample_next (snd (staking_dispatch sample_staking None Force_new_era sample_next)) = 1 \<and>
   100 * entries_written sample_next (snd (staking_dispatch sample_staking None Force_new_era sample_next))
     \<le> unat (staking_call_weight (staking_SubstrateWeight sample_db_weight)
          (Force_new_era :: bool staking_pallet_call))"
proof -
  have "snd (staking_dispatch sample_staking None Force_new_era sample_next) = sample_next\<lparr>ForceEra := ForceNew\<rparr>"
    by (simp add: force_new_era_def sample_defs)
  then have "entries_written sample_next (snd (staking_dispatch sample_staking None Force_new_era sample_next)) = 1"
    by (simp add: entries_written_def sample_next_eq)
  with weight_covers_writes [OF sample_db_linear, of sample_next sample_staking None Force_new_era]
  show ?thesis by simp
qed

section \<open>The weight of the hook\<close>

definition rotate_cost :: "nat \<Rightarrow> nat \<Rightarrow> ('a, 'p, 'c) staking \<Rightarrow> era_index \<Rightarrow> 'p \<times> 'a provider_info \<Rightarrow> nat" where
  "rotate_cost r w s c x =
     (if pi_state (snd x) \<noteq> Registered then r
      else if ProviderEraStake s (fst x, c) = None then 2 * r else 2 * r + w)"

lemma rotate_weight:
  assumes "db_linear db r w" "n \<noteq> c"
    and "unat consumed + (\<Sum>x\<leftarrow>ps. rotate_cost r w s c x) < 2 ^ 64"
  shows "unat (fst (rotate_loop db c n ps consumed s)) = unat consumed + (\<Sum>x\<leftarrow>ps. rotate_cost r w s c x)"
  using assms
proof (induction db c n ps consumed s rule: rotate_loop.induct)
  case (1 w c n consumed s)
  then show ?case by simp
next
  case (2 db c n pid info rest consumed s)
  note lin = db_linearD [OF "2.prems"(1)]
  have same: "rotate_cost r w (s\<lparr>ProviderEraStake := (ProviderEraStake s)((pid, n) \<mapsto> x)\<rparr>) c = rotate_cost r w s c" for x
    using "2.prems"(2) by (auto simp: rotate_cost_def fun_eq_iff)
  have add: "unat (saturating_add a b) = unat a + unat b" if "unat a + unat b < 2 ^ 64" for a b :: weight
    using that by (simp add: saturating_add_exact)
  show ?case
  proof (cases "pi_state info")
    case (Unregistered u)
    with "2.prems" "2.IH"(3) [OF refl Unregistered] show ?thesis
      by (simp add: rotate_cost_def add lin)
  next
    case Registered
    show ?thesis
    proof (cases "ProviderEraStake s (pid, c)")
      case None
      with "2.prems" "2.IH"(1) [OF refl Registered None] Registered show ?thesis
        by (simp add: rotate_cost_def add lin)
    next
      case (Some si)
      with "2.prems" "2.IH"(2) [OF refl Registered Some] Registered show ?thesis
        by (simp add: rotate_cost_def add lin same)
    qed
  qed
qed

lemma distinct_filter_card:
  assumes "distinct (map fst ps)" "\<And>k v. (k, v) \<in> set ps \<longleftrightarrow> m k = Some v"
  shows "length (filter P ps) = card {k. \<exists>v. m k = Some v \<and> P (k, v)}"
proof -
  have "distinct (map fst (filter P ps))" using assms(1) by (rule distinct_map_filter)
  from distinct_card [OF this] have "length (filter P ps) = card (fst ` set (filter P ps))" by simp
  moreover have "fst ` set (filter P ps) = {k. \<exists>v. m k = Some v \<and> P (k, v)}"
    using assms(2) by force
  ultimately show ?thesis by simp
qed

lemma rotate_cost_sum:
  "(\<Sum>x\<leftarrow>ps. rotate_cost r w s c x) =
     r * (length ps + length (filter (\<lambda>x. pi_state (snd x) = Registered) ps)) +
     w * length (filter (\<lambda>x. pi_state (snd x) = Registered \<and> ProviderEraStake s (fst x, c) \<noteq> None) ps)"
  by (induction ps) (auto simp: rotate_cost_def algebra_simps)

text \<open>The same in terms of the register of providers.\<close>

lemma rotation_cost:
  assumes iter: "iter_laws (iter_providers T)" and fin: "finite (dom (RegisteredProviders s))"
  shows "(\<Sum>x\<leftarrow>iter_providers T (RegisteredProviders s). rotate_cost r w s c x) =
      r * (card (dom (RegisteredProviders s)) + card {p. is_active_provider p s}) +
      w * card {p. is_active_provider p s \<and> ProviderEraStake s (p, c) \<noteq> None}"
    and "(\<Sum>x\<leftarrow>iter_providers T (RegisteredProviders s). rotate_cost r w s c x)
      \<le> r * (2 * card (dom (RegisteredProviders s))) + w * card (dom (RegisteredProviders s))"
proof -
  let ?m = "RegisteredProviders s"
  let ?ps = "iter_providers T ?m"
  have ps: "distinct (map fst ?ps)" "\<And>k y. (k, y) \<in> set ?ps \<longleftrightarrow> ?m k = Some y"
    using iter fin by (auto simp: iter_laws_def)
  note count = distinct_filter_card [OF ps]
  have n: "length ?ps = card (dom ?m)"
    using count [of "\<lambda>_. True"] by (simp add: dom_def)
  have active: "length (filter (\<lambda>y. pi_state (snd y) = Registered) ?ps) = card {p. is_active_provider p s}"
    unfolding count by (rule arg_cong [where f = card]) (auto simp: is_active_provider_def split: option.splits)
  have carried: "length (filter (\<lambda>y. pi_state (snd y) = Registered \<and> ProviderEraStake s (fst y, c) \<noteq> None) ?ps) =
      card {p. is_active_provider p s \<and> ProviderEraStake s (p, c) \<noteq> None}"
    unfolding count by (rule arg_cong [where f = card]) (auto simp: is_active_provider_def split: option.splits)
  show sum: "(\<Sum>x\<leftarrow>?ps. rotate_cost r w s c x) =
      r * (card (dom ?m) + card {p. is_active_provider p s}) +
      w * card {p. is_active_provider p s \<and> ProviderEraStake s (p, c) \<noteq> None}"
    unfolding rotate_cost_sum n active carried ..
  have "{p. is_active_provider p s} \<subseteq> dom ?m" by (auto simp: is_active_provider_def split: option.splits)
  then have "card {p. is_active_provider p s} \<le> card (dom ?m)"
    "card {p. is_active_provider p s \<and> ProviderEraStake s (p, c) \<noteq> None} \<le> card (dom ?m)"
    using fin by (auto intro: card_mono)
  then show "(\<Sum>x\<leftarrow>?ps. rotate_cost r w s c x) \<le> r * (2 * card (dom ?m)) + w * card (dom ?m)"
    unfolding sum by (intro add_mono mult_le_mono2) simp_all
qed

text \<open>
  C38. The weight the hook reports at the end of an era, exactly: five reads and three writes, one more
  read for every provider that ever registered, a second one for every active provider, and one
  write for every active provider whose total is carried over. The work of the hook thus grows with
  the number of providers that ever registered, since no call removes one.
\<close>

theorem hook_weight:
  assumes "on_initialize T now s = Some (v, s')" "era_ends T now s"
    and laws: "iter_laws (iter_providers T)" "db_linear (DbWeight T) r w"
    and fin: "finite (dom (RegisteredProviders s))"
    and room: "r * (5 + 2 * card (dom (RegisteredProviders s))) +
      w * (3 + card (dom (RegisteredProviders s))) < 2 ^ 64"
  shows "unat v =
    r * (5 + card (dom (RegisteredProviders s)) + card {p. is_active_provider p s}) +
    w * (3 + card {p. is_active_provider p s \<and> ProviderEraStake s (p, CurrentEra s) \<noteq> None})"
proof -
  define s3 where "s3 = reward_balance_snapshot (CurrentEra s) (BlockRewardAccumulator s)
    (s\<lparr>CurrentEra := CurrentEra s + 1, BlockRewardAccumulator := RewardInfo_default\<rparr>)"
  define x where "x = fst (rotate_staking_info T (CurrentEra s) s3)"
  have s3: "RegisteredProviders s3 = RegisteredProviders s"
    "rotate_cost r w s3 (CurrentEra s) = rotate_cost r w s (CurrentEra s)"
    by (simp_all add: s3_def reward_balance_snapshot_def Let_def rotate_cost_def fun_eq_iff)
  have v: "v = x + db_reads_writes (DbWeight T) 5 3"
    using assms(1,2) by (auto simp: on_initialize_def era_ends_def Let_def s3_def x_def split: if_splits prod.splits)
  note cost = rotation_cost [OF laws(1) fin, of r w "CurrentEra s"]
  let ?sum = "\<Sum>y\<leftarrow>iter_providers T (RegisteredProviders s). rotate_cost r w s (CurrentEra s) y"
  have total: "?sum + (r * 5 + w * 3) < 2 ^ 64"
    using room cost(2) by (simp add: algebra_simps)
  have "unat x = ?sum"
    using rotate_weight [OF laws(2), where n = "CurrentEra s + 1" and c = "CurrentEra s" and consumed = 0 and s = s3] total
    by (simp add: x_def rotate_staking_info_def s3)
  moreover have "unat (db_reads_writes (DbWeight T) 5 3) = r * 5 + w * 3"
    using db_linearD(3) [OF laws(2), of 5 3] total by simp
  ultimately have "unat v = ?sum + (r * 5 + w * 3)" using total by (simp add: v plus_no_wrap)
  then show ?thesis unfolding cost(1) by (simp add: algebra_simps)
qed

theorem hook_weight_witness:
  "case on_initialize sample_staking 4 sample_rewarded of
     None \<Rightarrow> False | Some (v, s') \<Rightarrow> unat v = 25 * (5 + 1 + 1) + 100 * (3 + 1)"
proof -
  obtain v s' where on: "on_initialize sample_staking 4 sample_rewarded = Some (v, s')"
    by (simp add: on_initialize_def Let_def split_beta sample_staking_def)
  have s: "RegisteredProviders sample_rewarded =
      [True \<mapsto> \<lparr>pi_operator = 5, pi_state = Registered, pi_unreserved = False\<rparr>]"
    "CurrentEra sample_rewarded = 1" "ProviderEraStake sample_rewarded (True, 1) \<noteq> None"
    by (simp_all add: sample_rewarded_def sample_staked_eq rewards_def Let_def)
  have "{p. is_active_provider p sample_rewarded} = {True}"
    "{p. is_active_provider p sample_rewarded \<and>
        ProviderEraStake sample_rewarded (p, CurrentEra sample_rewarded) \<noteq> None} = {True}"
    using s(3) by (auto simp: is_active_provider_def s(1,2) split: if_splits)
  moreover have "era_ends sample_staking 4 sample_rewarded"
    by (simp add: era_ends_def sample_staking_def)
  ultimately have "unat v = 575"
    using hook_weight [OF on, of 25 100] sample_db_linear sample_iter_laws
    by (simp add: s(1) sample_staking_def)
  then show ?thesis by (simp add: on)
qed

end
