(* ===== verification/Staking_Locks.thy ===== *)
theory Staking_Locks
  imports Staking_Bounds
begin

text \<open>
  The lock of the staking pallet in the currency. \<^verbatim>\<open>update_ledger\<close> asks the currency for a lock on the
  account's balance whenever it writes a ledger. The invariant says that, whatever calls run, the
  lock of every account is what its ledger says. It rests on the bounds of the storage: the
  currency ignores a request for a lock of nothing, and no ledger with a queue asks for one.
\<close>

section \<open>What the currency promises\<close>

text \<open>
  \<^verbatim>\<open>LockableCurrency\<close>: \<open>lock c (id, a)\<close> is the lock \<open>id\<close> holds on the balance of \<open>a\<close>. Setting a lock
  replaces the one with the same identifier, removing it removes it, and moving, reserving or
  releasing funds touches no lock. Nothing is said about setting a lock of nothing.
\<close>

definition lock_laws ::
    "('a, 'c, 'i, 'e, 'x) currency_ops_scheme \<Rightarrow> ('c \<Rightarrow> lock_identifier \<times> 'a \<rightharpoonup> balance) \<Rightarrow> bool" where
  "lock_laws cur lock \<longleftrightarrow>
     (\<forall>c i a v. v \<noteq> 0 \<longrightarrow> lock (set_lock cur c i a v AllReasons) = (lock c)((i, a) \<mapsto> v)) \<and>
     (\<forall>c i a. lock (remove_lock cur c i a) = (lock c)((i, a) := None)) \<and>
     (\<forall>c a v r x. lock (snd (withdraw cur c a v r x)) = lock c) \<and>
     (\<forall>c a i. lock (resolve_creating cur c a i) = lock c) \<and>
     (\<forall>c a v. lock (snd (reserve cur c a v)) = lock c) \<and>
     (\<forall>c a v. lock (unreserve cur c a v) = lock c)"

lemma lock_lawsD:
  assumes "lock_laws cur lock"
  shows "v \<noteq> 0 \<Longrightarrow> lock (set_lock cur c i a v AllReasons) = (lock c)((i, a) \<mapsto> v)"
    "lock (remove_lock cur c i a) = (lock c)((i, a) := None)"
    "withdraw cur c a v r x = (y, c') \<Longrightarrow> lock c' = lock c"
    "lock (resolve_creating cur c a imb) = lock c"
    "reserve cur c a v = (z, c') \<Longrightarrow> lock c' = lock c"
    "lock (unreserve cur c a v) = lock c"
  using assms unfolding lock_laws_def by (blast | metis snd_conv)+

section \<open>The invariant\<close>

definition locks_match ::
    "('c \<Rightarrow> lock_identifier \<times> 'a \<rightharpoonup> balance) \<Rightarrow> ('a, 'p, 'c) staking \<Rightarrow> bool" where
  "locks_match lock s \<longleftrightarrow> (\<forall>a. lock (Balances s) (STAKING_ID, a) =
     (if locked (ledger s a) = 0 then None else Some (locked (ledger s a))))"

lemma locks_same:
  assumes "locks_match lock s" "Ledger s' = Ledger s"
    "\<And>a. lock (Balances s') (STAKING_ID, a) = lock (Balances s) (STAKING_ID, a)"
  shows "locks_match lock s'"
  using assms by (simp add: locks_match_def ledger_def)

text \<open>A ledger that locks nothing has an empty queue, as no chunk is empty.\<close>

lemma nothing_locked:
  assumes "sized T s" "locked (ledger s a) = 0"
  shows "AccountLedger_is_empty (ledger s a)"
proof -
  have "chunk_total (unbonding (ledger s a)) = 0"
    using books_balanceD(6) [OF sizedD(2) [OF assms(1)], of a] assms(2) by simp
  moreover have "\<forall>c\<in>set (unlocking_chunks (unbonding (ledger s a))). 0 < chunk_amount c"
    using storage_boundedD(2) [OF sizedD(3) [OF assms(1)], of a] by (simp add: queue_bounded_def)
  ultimately have "unlocking_chunks (unbonding (ledger s a)) = []"
    by (cases "unlocking_chunks (unbonding (ledger s a))") (auto simp: chunk_total_def unat_eq_zero)
  with assms(2) show ?thesis by (simp add: AccountLedger_is_empty_def UnbondingInfo_is_empty_def)
qed

lemma Balances_update_ledger:
  "Balances (update_ledger T a l s) =
     (if AccountLedger_is_empty l then remove_lock (Currency T) (Balances s) STAKING_ID a
      else set_lock (Currency T) (Balances s) STAKING_ID a (locked l) AllReasons)"
  by (simp add: update_ledger_def)

lemma locks_update:
  assumes laws: "lock_laws (Currency T) lock" and inv: "locks_match lock s" and sized: "sized T s'"
    and L: "Ledger s' = upd_default AccountLedger_default (Ledger s) a l"
    and B: "Balances s' = Balances (update_ledger T a l s)"
  shows "locks_match lock s'"
proof -
  have led: "ledger s' = (ledger s)(a := l)" by (rule ledger_upd_default [OF L])
  have "lock (Balances s') =
      (lock (Balances s))((STAKING_ID, a) := if locked l = 0 then None else Some (locked l))"
  proof (cases "locked l = 0")
    case True
    then have "AccountLedger_is_empty l" using nothing_locked [OF sized, of a] by (simp add: led)
    with True show ?thesis by (simp add: B Balances_update_ledger lock_lawsD(2) [OF laws])
  next
    case False
    then have "\<not> AccountLedger_is_empty l" by (simp add: AccountLedger_is_empty_def)
    with False show ?thesis by (simp add: B Balances_update_ledger lock_lawsD(1) [OF laws])
  qed
  with inv show ?thesis by (simp add: locks_match_def led)
qed

section \<open>Every call keeps the locks\<close>

lemma ledger_calls_locks:
  assumes laws: "lock_laws (Currency T) lock" and inv: "locks_match lock s" and sized: "sized T s'"
  shows "stake T origin p v s = (Inr (), s') \<Longrightarrow> locks_match lock s'"
    "unstake T origin p v s = (Inr (), s') \<Longrightarrow> locks_match lock s'"
    "withdraw_unstaked T origin s = (Inr (), s') \<Longrightarrow> locks_match lock s'"
    "withdraw_from_unregistered_staker T origin p s = (Inr (), s') \<Longrightarrow> locks_match lock s'"
  by (erule stake_okE unstake_okE withdraw_unstaked_okE withdraw_from_unregistered_staker_okE,
      rule locks_update [OF laws inv sized], simp, simp add: Balances_update_ledger)+

lemma other_calls_locks:
  assumes laws: "lock_laws (Currency T) lock" and inv: "locks_match lock s"
  shows "claim_staker T origin p s = (Inr (), s') \<Longrightarrow> locks_match lock s'"
    "claim_operator T origin p e s = (Inr (), s') \<Longrightarrow> locks_match lock s'"
    "withdraw_from_unregistered_operator T origin p s = (Inr (), s') \<Longrightarrow> locks_match lock s'"
    "unregister p s = (Inr (), s') \<Longrightarrow> locks_match lock s'"
    "on_initialize T now s = Some (w, s') \<Longrightarrow> era_ends T now s \<Longrightarrow> locks_match lock s'"
  by (erule claim_staker_okE claim_operator_okE withdraw_from_unregistered_operator_okE unregister_okE,
      rule locks_same [OF inv]; simp add: lock_lawsD(3-6) [OF laws])+
    (rule locks_same [OF inv]; simp add: on_initialize_new_era)

section \<open>Runs\<close>

text \<open>A step in which, if nothing but the currency changes, the pallet's locks stay.\<close>

definition locked_step ::
    "('o, 'a, 'p, 'c, 'i, 'b, 'e) staking_config \<Rightarrow> ('c \<Rightarrow> lock_identifier \<times> 'a \<rightharpoonup> balance) \<Rightarrow>
     ('a, 'p, 'c) staking \<Rightarrow> ('a, 'p, 'c) staking \<Rightarrow> bool" where
  "locked_step T lock s s' \<longleftrightarrow> staking_step T s s' \<and>
     (\<forall>c. s' = s\<lparr>Balances := c\<rparr> \<longrightarrow> (\<forall>a. lock c (STAKING_ID, a) = lock (Balances s) (STAKING_ID, a)))"

lemma locked_run: "(locked_step T lock)\<^sup>*\<^sup>* s s' \<Longrightarrow> (staking_step T)\<^sup>*\<^sup>* s s'"
  by (rule mono_rtranclp [rule_format]) (auto simp: locked_step_def)

definition locks_held ::
    "('o, 'a, 'p, 'c, 'i, 'b, 'e) staking_config \<Rightarrow> ('c \<Rightarrow> lock_identifier \<times> 'a \<rightharpoonup> balance) \<Rightarrow>
     ('a, 'p, 'c) staking \<Rightarrow> bool" where
  "locks_held T lock s \<longleftrightarrow> sized T s \<and> locks_match lock s"

lemma locks_heldD:
  assumes "locks_held T lock s"
  shows "sized T s" "locks_match lock s"
  using assms by (simp_all add: locks_held_def)

lemma locks_held_same:
  assumes "locks_held T lock s" "GeneralStakerInfo s' = GeneralStakerInfo s" "Ledger s' = Ledger s"
    "ProviderEraStake s' = ProviderEraStake s" "CurrentEra s' = CurrentEra s"
    "\<And>a. lock (Balances s') (STAKING_ID, a) = lock (Balances s) (STAKING_ID, a)"
  shows "locks_held T lock s'"
  using assms sized_same [of T s s'] locks_same [of lock s s'] by (simp add: locks_held_def)

lemma locked_step_match:
  assumes laws: "lock_laws (Currency T) lock" and step: "locked_step T lock s s'"
    and inv: "locks_held T lock s"
  shows "locks_match lock s'"
proof (rule staking_step_currency_rel [where P = "locks_held T lock" and Q = "locks_match lock"
      and R = "\<lambda>c c'. \<forall>a. lock c' (STAKING_ID, a) = lock c (STAKING_ID, a)" and T = T, OF _ inv])
  show "staking_step T s s'"
    "\<And>c. s' = s\<lparr>Balances := c\<rparr> \<Longrightarrow> \<forall>a. lock c (STAKING_ID, a) = lock (Balances s) (STAKING_ID, a)"
    using step by (simp_all add: locked_step_def)
  show "locks_held T lock (s\<lparr>Balances := c\<rparr>)" "locks_held T lock (enrol c a p s)"
    if "locks_held T lock s" "\<forall>a. lock c (STAKING_ID, a) = lock (Balances s) (STAKING_ID, a)" for s c a p
    using that(2) by (auto intro!: locks_held_same [OF that(1)] simp: enrol_def)
  show "locks_held T lock (s\<lparr>ForceEra := ForceNew\<rparr>)" "locks_held T lock (s\<lparr>BlockRewardAccumulator := acc\<rparr>)"
    if "locks_held T lock s" for s acc
    by (rule locks_held_same [OF that]; simp)+
  show "withdraw (Currency T) c a v r x = (y, c') \<Longrightarrow> \<forall>a. lock c' (STAKING_ID, a) = lock c (STAKING_ID, a)"
    "reserve (Currency T) c a v = (z, c') \<Longrightarrow> \<forall>a. lock c' (STAKING_ID, a) = lock c (STAKING_ID, a)"
    "\<forall>a. lock (resolve_creating (Currency T) c b i) (STAKING_ID, a) = lock c (STAKING_ID, a)"
    for c a v r x y z c' b i
    by (simp_all add: lock_lawsD(3-5) [OF laws])
  show "locks_match lock s'" if "stake T origin p v s = (Inr (), s')" "locks_held T lock s" for s origin p v s'
    using ledger_calls_locks(1) [OF laws _ _ that(1)] staking_sizes.step_invar [OF stake_step [OF that(1)]]
      locks_heldD [OF that(2)] by blast
  show "locks_match lock s'" if "unstake T origin p v s = (Inr (), s')" "locks_held T lock s" for s origin p v s'
    using ledger_calls_locks(2) [OF laws _ _ that(1)] staking_sizes.step_invar [OF unstake_step [OF that(1)]]
      locks_heldD [OF that(2)] by blast
  show "locks_match lock s'" if "withdraw_unstaked T origin s = (Inr (), s')" "locks_held T lock s" for s origin s'
    using ledger_calls_locks(3) [OF laws _ _ that(1)] staking_sizes.step_invar [OF withdraw_unstaked_step [OF that(1)]]
      locks_heldD [OF that(2)] by blast
  show "locks_match lock s'" if "withdraw_from_unregistered_staker T origin p s = (Inr (), s')" "locks_held T lock s" for s origin p s'
    using ledger_calls_locks(4) [OF laws _ _ that(1)] staking_sizes.step_invar [OF withdraw_staker_step [OF that(1)]]
      locks_heldD [OF that(2)] by blast
qed (blast dest: locks_heldD intro: other_calls_locks [OF laws])+

interpretation staking_locks: invariant_system "locked_step T lock"
  "\<lambda>s. lock_laws (Currency T) lock \<longrightarrow> locks_held T lock s" for T lock
proof
  show "lock_laws (Currency T) lock \<longrightarrow> locks_held T lock t"
    if "locked_step T lock s t" "lock_laws (Currency T) lock \<longrightarrow> locks_held T lock s" for s t
    using that locked_step_match [of T lock s t] staking_sizes.step_invar [of T s t]
    by (simp add: locks_held_def locked_step_def)
qed

lemma genesis_locks:
  assumes "bounds_allow T" "\<forall>a. lock c (STAKING_ID, a) = None"
  shows "locks_held T lock (genesis c)"
  using assms genesis_sized [OF assms(1)]
  by (simp add: locks_held_def locks_match_def genesis_def ledger_def AccountLedger_default_def)

end
