(* ===== verification/Bounds_Properties.thy ===== *)
theory Bounds_Properties
  imports Staking_Properties Staking_Locks
begin

text \<open>
  The properties about sizes and locks of the staking pallet, with an instance of the framework
  whose currency keeps locks, the way the balances pallet does.
\<close>

section \<open>A currency with locks\<close>

type_synonym vault = "purse \<times> (lock_identifier \<times> nat \<rightharpoonup> balance)"

definition in_vault :: "('y \<times> purse) \<Rightarrow> vault \<Rightarrow> 'y \<times> vault" where
  "in_vault r c = (fst r, (snd r, snd c))"

definition vault_currency :: "(nat, vault, balance, unit) currency_ops" where
  "vault_currency =
     \<lparr>free_balance = (\<lambda>c a. fst c a), minimum_balance = 1,
      withdraw = (\<lambda>c a v r x. in_vault (withdraw sample_currency (fst c) a v r x) c),
      resolve_creating = (\<lambda>c a i. (purse_give (fst c) a i, snd c)),
      set_lock = (\<lambda>c i a v _. if v = 0 then c else (fst c, (snd c)((i, a) \<mapsto> v))),
      remove_lock = (\<lambda>c i a. (fst c, (snd c)((i, a) := None))),
      reserve = (\<lambda>c a v. in_vault (reserve sample_currency (fst c) a v) c),
      unreserve = (\<lambda>c a v. (purse_give (fst c) a v, snd c)),
      transfer = (\<lambda>c a b v x. in_vault (transfer sample_currency (fst c) a b v x) c),
      issue = (\<lambda>c v. (v, c)), peek = (\<lambda>i. i),
      split_imbalance = (\<lambda>i n. (min n i, i - min n i)),
      drop_imbalance = (\<lambda>c _. c)\<rparr>"

lemma vault_lock_laws: "lock_laws vault_currency snd"
  by (simp add: lock_laws_def vault_currency_def in_vault_def)

definition vault_staking :: "(nat option, nat, bool, vault, balance, nat, unit) staking_config" where
  "vault_staking =
     \<lparr>System = sample_system, Currency = vault_currency, Perbill = sample_perbill,
      DbWeight = sample_db_weight, iter_providers = sample_iter, pallet_account = 0,
      BlockPerEra = 3, OperatorRewardPercentage = 800000000, RegisterDeposit = 100,
      MaxNumberOfStakersPerProvider = 2, MinimumStakingAmount = 10, MinimumRemainingAmount = 1,
      MaxUnlockingChunks = 2, UnbondingPeriod = 2, MaxEraStakeValues = 5\<rparr>"

text \<open>The first block, account 5 registers a provider with 150, account 2 stakes 30 and unstakes 15 of it.\<close>

definition vault_start :: "(nat, bool, vault) staking" where
  "vault_start = (case on_initialize vault_staking 1 (genesis (sample_purse, Map.empty)) of
     None \<Rightarrow> genesis (sample_purse, Map.empty) | Some (w, s) \<Rightarrow> s)"

definition vault_staked :: "(nat, bool, vault) staking" where
  "vault_staked = snd (stake vault_staking (Some 2) True 30 (snd (register vault_staking 5 True 150 vault_start)))"

definition vault_unstaked :: "(nat, bool, vault) staking" where
  "vault_unstaked = snd (unstake vault_staking (Some 2) True 15 vault_staked)"

lemmas vault_eval = vault_staking_def vault_currency_def in_vault_def staking_eval staking_call_defs

lemma vault_start_eq:
  "vault_start = (genesis (sample_purse, Map.empty))
     \<lparr>CurrentEra := 1,
      GeneralEraInfo := [1 \<mapsto> EraInfo_default, 0 \<mapsto> EraInfo_default],
      Events := [NewDapiStakingEra 1]\<rparr>"
  "on_initialize vault_staking 1 (genesis (sample_purse, Map.empty)) =
     Some (fst (the (on_initialize vault_staking 1 (genesis (sample_purse, Map.empty)))), vault_start)"
  by (simp_all add: vault_start_def vault_eval)

lemma vault_unstaked_eq:
  "Ledger vault_unstaked =
     [5 \<mapsto> \<lparr>locked = 50, unbonding = \<lparr>unlocking_chunks = []\<rparr>\<rparr>,
      2 \<mapsto> \<lparr>locked = 30, unbonding = \<lparr>unlocking_chunks = [\<lparr>chunk_amount = 15, unlock_era = 3\<rparr>]\<rparr>\<rparr>]"
  "snd (Balances vault_unstaked) = [(STAKING_ID, 5) \<mapsto> 50, (STAKING_ID, 2) \<mapsto> 30]"
  "Events (snd (register vault_staking 5 True 150 vault_start)) = [NewDapiStakingEra 1, Stake 5 True 50]"
  "Events vault_staked = [NewDapiStakingEra 1, Stake 5 True 50, Stake 2 True 30]"
  "Events vault_unstaked = [NewDapiStakingEra 1, Stake 5 True 50, Stake 2 True 30, Unstake 2 True 15]"
  "Events vault_start = [NewDapiStakingEra 1]"
  by (simp_all add: vault_unstaked_def vault_staked_def vault_start_eq(1) vault_eval)

lemma locked_stepI:
  assumes "staking_step T s s'" "Events s' \<noteq> Events s"
  shows "locked_step T lock s s'"
  using assms by (auto simp: locked_step_def)

lemma vault_run: "(locked_step vault_staking snd)\<^sup>*\<^sup>* (genesis (sample_purse, Map.empty)) vault_unstaked"
proof -
  let ?c = "(sample_purse, Map.empty)" and ?T = vault_staking
  let ?r = "snd (register ?T 5 True 150 vault_start)"
  have "locked_step ?T snd (genesis ?c) vault_start"
    by (intro locked_stepI, rule initialize_step [OF vault_start_eq(2)])
      (simp_all add: vault_start_eq(1) genesis_def word_less_nat_alt unat_max_word)
  moreover have "locked_step ?T snd vault_start ?r"
    by (intro locked_stepI, rule register_step, rule surjective_pairing)
      (simp add: vault_unstaked_eq(3,6))
  moreover have "locked_step ?T snd ?r vault_staked"
    unfolding vault_staked_def
    by (intro locked_stepI, rule stake_step, rule surjective_pairing)
      (simp add: vault_unstaked_eq(3,4) vault_staked_def [symmetric])
  moreover have "locked_step ?T snd vault_staked vault_unstaked"
    unfolding vault_unstaked_def
    by (intro locked_stepI, rule unstake_step, rule surjective_pairing)
      (simp add: vault_unstaked_eq(4,5) vault_unstaked_def [symmetric])
  ultimately show ?thesis by (meson rtranclp.rtrancl_into_rtrancl rtranclp.rtrancl_refl)
qed

lemma vault_bounds: "bounds_allow vault_staking" "bounds_allow sample_staking"
  by (simp_all add: bounds_allow_def vault_staking_def sample_staking_def)

section \<open>Properties\<close>

lemma reachable_sized:
  assumes "staking_reachable T s" "bounds_allow T"
  shows "sized T s"
proof -
  obtain c where "(staking_step T)\<^sup>*\<^sup>* (genesis c) s"
    using assms(1) unfolding staking_reachable_def ..
  then show ?thesis using genesis_sized [OF assms(2)] by (rule staking_sizes.run_invar)
qed

text \<open>
  Every storage the staking pallet can reach is within its bounds: no history of an account is
  as long as the limit on its entries, no queue of unbonding chunks is longer than its limit and no
  chunk of it is empty, no provider has ever had more stakers in an era than the limit, and what an
  account has staked on a provider is nothing or at least the minimum. The calls compare lengths
  cut to 32 bits; the limits hold for the lengths themselves.
\<close>

theorem storage_stays_bounded:
  assumes "staking_reachable T s" "bounds_allow T"
  shows "length (stakes (staker_info_of s a p)) < unat (MaxEraStakeValues T) \<and>
    length (unlocking_chunks (unbonding (ledger s a))) \<le> unat (MaxUnlockingChunks T) \<and>
    (\<forall>c\<in>set (unlocking_chunks (unbonding (ledger s a))). 0 < chunk_amount c) \<and>
    psi_number_of_stakers (provider_stake s p e) \<le> MaxNumberOfStakersPerProvider T \<and>
    (latest_staked_value (staker_info_of s a p) = 0 \<or>
     MinimumStakingAmount T \<le> latest_staked_value (staker_info_of s a p))"
  using sizedD(3) [OF reachable_sized [OF assms]]
  by (simp add: storage_bounded_def info_bounded_def queue_bounded_def)

text \<open>
  C5. The funds the pallet counts as locked are locked in the currency. After every run from a
  genesis without locks of the pallet, in which nothing but the pallet touches these locks, the
  currency holds on each account exactly the lock its ledger names, which is what the account has
  staked plus what is still unbonding, and no lock where that is nothing.
\<close>

theorem locks_follow_ledger:
  assumes "lock_laws (Currency T) lock" "bounds_allow T"
    and "\<forall>a. lock c (STAKING_ID, a) = None" "(locked_step T lock)\<^sup>*\<^sup>* (genesis c) s"
  shows "lock (Balances s) (STAKING_ID, a) =
      (if locked (ledger s a) = 0 then None else Some (locked (ledger s a))) \<and>
    unat (locked (ledger s a)) = staked_by s a + chunk_total (unbonding (ledger s a))"
proof -
  have "locks_held T lock s"
    using staking_locks.run_invar [OF assms(4)] genesis_locks [of T lock c] assms(1-3) by blast
  then have "locks_match lock s" "books_balance s" by (auto dest: locks_heldD sizedD)
  then show ?thesis using books_balanceD(6) by (simp add: locks_match_def)
qed

theorem locks_follow_ledger_witness:
  "snd (Balances vault_unstaked) (STAKING_ID, 2) = Some 30 \<and>
   unat (locked (ledger vault_unstaked 2)) = 30 \<and>
   staked_by vault_unstaked 2 = 15 \<and> snd (Balances vault_unstaked) (STAKING_ID, 3) = None"
  using locks_follow_ledger [OF _ vault_bounds(1) _ vault_run, of 2]
    locks_follow_ledger [OF _ vault_bounds(1) _ vault_run, of 3] vault_lock_laws
  by (simp add: vault_staking_def ledger_def vault_unstaked_eq(1) chunk_total_def AccountLedger_default_def)

end
