(* ===== verification/Chain_Spec.thy ===== *)
theory Chain_Spec
  imports Runtime
begin

text \<open>
  The chain specification of the development chain, \<^verbatim>\<open>node/src/local/chain_spec.rs\<close>: the keys derived
  from seeds, the genesis configuration, and the storage the pallets build from it. The derivation of a
  key pair, the code of the runtime and the genesis of the framework's own pallets are parameters.
\<close>

section \<open>Keys from seeds\<close>

text \<open>
  What \<^verbatim>\<open>Pair::from_string\<close> with \<^verbatim>\<open>public\<close> gives for the three kinds of keys, the first one as an
  account; \<open>None\<close> is a string it does not accept.
\<close>

record ('a, 'k, 'g) key_ops =
  sr25519_account :: "string \<Rightarrow> 'a option"
  aura_public :: "string \<Rightarrow> 'k option"
  grandpa_public :: "string \<Rightarrow> 'g option"

text \<open>\<open>None\<close> is the panic of \<^verbatim>\<open>expect\<close>.\<close>

definition get_from_seed :: "(string \<Rightarrow> 'k option) \<Rightarrow> string \<Rightarrow> 'k option" where
  "get_from_seed from_string seed = from_string (''//'' @ seed)"

definition get_account_id_from_seed :: "('a, 'k, 'g) key_ops \<Rightarrow> string \<Rightarrow> 'a option" where
  "get_account_id_from_seed K seed = get_from_seed (sr25519_account K) seed"

definition authority_keys_from_seed :: "('a, 'k, 'g) key_ops \<Rightarrow> string \<Rightarrow> ('k \<times> 'g) option" where
  "authority_keys_from_seed K s =
     (case get_from_seed (aura_public K) s of None \<Rightarrow> None | Some a \<Rightarrow>
      case get_from_seed (grandpa_public K) s of None \<Rightarrow> None | Some g \<Rightarrow> Some (a, g))"

section \<open>The genesis configuration\<close>

record ('a, 'k, 'g, 'b) genesis_config =
  gc_code :: "u8 list"
  gc_balances :: "('a \<times> balance) list"
  gc_reward_config :: "'b reward_distribution_config"
  gc_aura :: "'k list"
  gc_grandpa :: "('g \<times> u64) list"
  gc_sudo :: "'a option"
  gc_regulators :: "'a list"

text \<open>\<open>None\<close> is a build without the wasm binary; unwrapping it panics.\<close>

definition wasm_binary_unwrap :: "u8 list option \<Rightarrow> u8 list option" where
  "wasm_binary_unwrap WASM_BINARY = WASM_BINARY"

definition testnet_genesis ::
    "'b perbill_ops \<Rightarrow> u8 list option \<Rightarrow> ('k \<times> 'g) list \<Rightarrow> 'a \<Rightarrow> 'a list \<Rightarrow> 'a list \<Rightarrow>
     ('a, 'k, 'g, 'b) genesis_config option" where
  "testnet_genesis pb WASM_BINARY initial_authorities root_key endowed_accounts initial_regulators =
     (case wasm_binary_unwrap WASM_BINARY of None \<Rightarrow> None | Some code \<Rightarrow>
      Some
       \<lparr>gc_code = code,
        gc_balances = map (\<lambda>k. (k, 100000000000000000000000)) endowed_accounts,
        gc_reward_config =
          \<lparr>providers_percent = from_percent pb 100, validators_percent = perbill_zero pb\<rparr>,
        gc_aura = map fst initial_authorities,
        gc_grandpa = map (\<lambda>x. (snd x, 1)) initial_authorities,
        gc_sudo = Some root_key,
        gc_regulators = initial_regulators\<rparr>)"

text \<open>The closure \<^verbatim>\<open>development_config\<close> hands to the chain specification.\<close>

definition development_genesis ::
    "'b perbill_ops \<Rightarrow> u8 list option \<Rightarrow> ('a, 'k, 'g) key_ops \<Rightarrow> ('a, 'k, 'g, 'b) genesis_config option" where
  "development_genesis pb WASM_BINARY K =
     (case authority_keys_from_seed K ''Alice'' of None \<Rightarrow> None | Some authority \<Rightarrow>
      case get_account_id_from_seed K ''Alice'' of None \<Rightarrow> None | Some root_key \<Rightarrow>
      case those (map (get_account_id_from_seed K)
             [''Alice'', ''Bob'', ''Dave'', ''Charlie'', ''Eve'', ''Ferdie''])
      of None \<Rightarrow> None | Some endowed_accounts \<Rightarrow>
      case get_account_id_from_seed K ''Ferdie'' of None \<Rightarrow> None | Some regulator \<Rightarrow>
      testnet_genesis pb WASM_BINARY [authority] root_key endowed_accounts [regulator])"

text \<open>A chain specification: the arguments of \<^verbatim>\<open>ChainSpec::from_genesis\<close>. The closure is run later.\<close>

datatype chain_type = Development | Local | Live

datatype json = JString string | JNumber int

record ('a, 'k, 'g, 'b) chain_spec =
  spec_name :: string
  spec_id :: string
  spec_chain_type :: chain_type
  spec_constructor :: "unit \<Rightarrow> ('a, 'k, 'g, 'b) genesis_config option"
  spec_boot_nodes :: "string list"
  spec_telemetry_endpoints :: "string list option"
  spec_protocol_id :: "string option"
  spec_fork_id :: "string option"
  spec_properties :: "(string \<rightharpoonup> json) option"
  spec_extensions :: "unit option"

definition development_config ::
    "'b perbill_ops \<Rightarrow> u8 list option \<Rightarrow> ('a, 'k, 'g) key_ops \<Rightarrow> string + ('a, 'k, 'g, 'b) chain_spec" where
  "development_config pb WASM_BINARY K =
     (let properties = [''tokenSymbol'' \<mapsto> JString ''MBT'', ''tokenDecimals'' \<mapsto> JNumber 18]
      in Inr \<lparr>spec_name = ''Development'', spec_id = ''dev'', spec_chain_type = Development,
              spec_constructor = (\<lambda>_. development_genesis pb WASM_BINARY K),
              spec_boot_nodes = [], spec_telemetry_endpoints = None, spec_protocol_id = None,
              spec_fork_id = None, spec_properties = Some properties, spec_extensions = None\<rparr>)"

text \<open>
  \<^verbatim>\<open>load_spec\<close> of the command line, \<^verbatim>\<open>node/src/command.rs\<close>: every identifier but \<^verbatim>\<open>dev\<close> is the path of a
  file, which the framework reads.
\<close>

definition load_spec ::
    "'b perbill_ops \<Rightarrow> u8 list option \<Rightarrow> ('a, 'k, 'g) key_ops \<Rightarrow>
     (string \<Rightarrow> string + ('a, 'k, 'g, 'b) chain_spec) \<Rightarrow> string \<Rightarrow> string + ('a, 'k, 'g, 'b) chain_spec" where
  "load_spec pb WASM_BINARY K from_json_file name =
     (if name = ''dev'' then development_config pb WASM_BINARY K else from_json_file name)"

section \<open>The storage it builds\<close>

text \<open>
  What the pallets of the framework build from their parts of the configuration: Aura and Grandpa from
  the authorities, the balances pallet from the accounts, as the state of the currency. \<open>None\<close> is a
  failed assertion. The genesis of the system pallet and of the sudo pallet only store a value.
\<close>

record ('a, 'k, 'g, 'c) genesis_ops =
  aura_genesis :: "'k list \<Rightarrow> unit option"
  grandpa_genesis :: "('g \<times> u64) list \<Rightarrow> unit option"
  balances_genesis :: "('a \<times> balance) list \<Rightarrow> 'c option"

text \<open>
  The pallets build their storage in the order of \<^verbatim>\<open>construct_runtime!\<close>: Aura, Grandpa, the balances,
  the dApi pallet and the block reward. The staking pallet has no part in the configuration and starts
  with the defaults. The dApi pallet has no assertion; the block reward pallet has one.
\<close>

definition build_storage ::
    "('o, 'a, 'c, 'i, 'd, 'e) framework \<Rightarrow> ('a, 'k, 'g, 'c) genesis_ops \<Rightarrow>
     ('a, 'k, 'g, 'd) genesis_config \<Rightarrow> ('a, 'c, 'd) runtime option" where
  "build_storage F G gc =
     (case aura_genesis G (gc_aura gc) of None \<Rightarrow> None | Some _ \<Rightarrow>
      case grandpa_genesis G (gc_grandpa gc) of None \<Rightarrow> None | Some _ \<Rightarrow>
      case balances_genesis G (gc_balances gc) of None \<Rightarrow> None | Some c \<Rightarrow>
      let d = dapi_genesis (gc_regulators gc) (genesis c) in
      case reward_genesis (fw_perbill F) (gc_reward_config gc) (World d) of None \<Rightarrow> None | Some b \<Rightarrow>
      Some \<lparr>rt_dapi = d\<lparr>World := RewardWorld b\<rparr>,
            rt_reward_config = RewardDistributionConfigStorage b, rt_reward_events = RewardEvents b\<rparr>)"

section \<open>Lemmas\<close>

text \<open>What \<^verbatim>\<open>Perbill\<close> documents of the constants in the default distribution.\<close>

definition perbill_whole :: "'b perbill_ops \<Rightarrow> bool" where
  "perbill_whole pb \<longleftrightarrow> from_percent pb 100 = perbill_one pb \<and>
     perbill_checked_add pb (perbill_zero pb) (perbill_one pb) = Some (perbill_one pb) \<and>
     perbill_checked_add pb (perbill_one pb) (perbill_zero pb) = Some (perbill_one pb)"

lemma default_consistent:
  assumes "perbill_whole pb"
  shows "is_consistent pb (RewardDistributionConfig_default pb)"
  using assms by (simp add: perbill_whole_def is_consistent_def RewardDistributionConfig_default_def)

lemma build_storage_genesis:
  assumes "perbill_whole (fw_perbill F)"
    and "gc_reward_config gc = RewardDistributionConfig_default (fw_perbill F)"
    and "aura_genesis G (gc_aura gc) \<noteq> None" "grandpa_genesis G (gc_grandpa gc) \<noteq> None"
    and "balances_genesis G (gc_balances gc) = Some c"
  shows "build_storage F G gc = Some (runtime_genesis F (gc_regulators gc) c)"
  using default_consistent [OF assms(1)] assms(2-5)
  by (auto simp: build_storage_def reward_genesis_def runtime_genesis_def dapi_genesis_def Let_def)

lemma testnet_genesisE:
  assumes "testnet_genesis pb WASM_BINARY auths root endowed regulators = Some gc"
  shows "gc_reward_config gc = RewardDistributionConfig_default pb" "gc_regulators gc = regulators"
    "gc_balances gc = map (\<lambda>k. (k, 100000 * MBT)) endowed"
  using assms by (auto simp: testnet_genesis_def RewardDistributionConfig_default_def MBT_def MILLIMBT_def
      split: option.splits)

end
