(* ===== verification/Runtime_Config.thy ===== *)
theory Runtime_Config
  imports Chain_Spec
begin

text \<open>
  The rest of the local runtime, \<^verbatim>\<open>runtime/local/src/lib.rs\<close>: its version, the constants it gives the
  pallets of the framework, the handlers of the time stamp in their order, the runtime interfaces, the
  dispatch of the benchmarks, and what the genesis of the framework's pallets is known to assert. Most methods of the interfaces hand their arguments over to the
  framework, which is a parameter.
\<close>

section \<open>The version\<close>

record 'v runtime_version =
  rv_spec_name :: string
  rv_impl_name :: string
  rv_authoring_version :: u32
  rv_spec_version :: u32
  rv_impl_version :: u32
  rv_apis :: 'v
  rv_transaction_version :: u32
  rv_state_version :: u8

text \<open>\<^verbatim>\<open>RUNTIME_API_VERSIONS\<close> is built by the framework's macro.\<close>

definition VERSION :: "'v \<Rightarrow> 'v runtime_version" where
  "VERSION RUNTIME_API_VERSIONS =
     \<lparr>rv_spec_name = ''massbit-local'', rv_impl_name = ''massbit-local'', rv_authoring_version = 1,
      rv_spec_version = 1, rv_impl_version = 1, rv_apis = RUNTIME_API_VERSIONS,
      rv_transaction_version = 1, rv_state_version = 1\<rparr>"

record 'v native_version =
  nv_runtime_version :: "'v runtime_version"
  nv_can_author_with :: "u32 set"

definition native_version :: "'v \<Rightarrow> 'v native_version" where
  "native_version RUNTIME_API_VERSIONS =
     \<lparr>nv_runtime_version = VERSION RUNTIME_API_VERSIONS, nv_can_author_with = {}\<rparr>"

section \<open>The constants of the framework's pallets\<close>

text \<open>
  The framework measures compute time in \<^verbatim>\<open>WEIGHT_PER_SECOND\<close> and derives the limits of a block from
  it.
\<close>

record ('b, 'bw, 'bl) limits_ops =
  WEIGHT_PER_SECOND :: weight
  with_sensible_defaults :: "weight \<Rightarrow> 'b \<Rightarrow> 'bw"
  max_with_normal_ratio :: "u32 \<Rightarrow> 'b \<Rightarrow> 'bl"

definition NORMAL_DISPATCH_RATIO :: "'b perbill_ops \<Rightarrow> 'b" where
  "NORMAL_DISPATCH_RATIO pb = from_percent pb 75"

definition BlockHashCount :: u32 where "BlockHashCount = 2400"

definition BlockWeights :: "'b perbill_ops \<Rightarrow> ('b, 'bw, 'bl) limits_ops \<Rightarrow> 'bw" where
  "BlockWeights pb L = with_sensible_defaults L (2 * WEIGHT_PER_SECOND L) (NORMAL_DISPATCH_RATIO pb)"

definition BlockLength :: "'b perbill_ops \<Rightarrow> ('b, 'bw, 'bl) limits_ops \<Rightarrow> 'bl" where
  "BlockLength pb L = max_with_normal_ratio L (5 * 1024 * 1024) (NORMAL_DISPATCH_RATIO pb)"

definition SS58Prefix :: u8 where "SS58Prefix = 42"
definition MaxConsumers :: u32 where "MaxConsumers = 16"
definition MaxAuthorities :: u32 where "MaxAuthorities = 32"
definition MinimumPeriod :: u64 where "MinimumPeriod = SLOT_DURATION div 2"
definition ExistentialDeposit :: balance where "ExistentialDeposit = 500"
definition MaxLocks :: u32 where "MaxLocks = 50"
definition TransactionByteFee :: balance where "TransactionByteFee = 1"
definition OperationalFeeMultiplier :: u8 where "OperationalFeeMultiplier = 5"

text \<open>
  \<^verbatim>\<open>type OnTimestampSet = (Aura, BlockReward)\<close>: the handler of the consensus pallet runs first and
  panics (\<open>None\<close>) when the time stamp does not belong to the slot.
\<close>

definition OnTimestampSet ::
    "('o, 'a, 'c, 'i, 'b, 'e) framework \<Rightarrow>
     (u64 \<Rightarrow> ('a, 'c, 'b) runtime \<Rightarrow> ('a, 'c, 'b) runtime option) \<Rightarrow>
     u64 \<Rightarrow> ('a, 'c, 'b) runtime \<Rightarrow> ('a, 'c, 'b) runtime option" where
  "OnTimestampSet F aura_on_timestamp_set now t =
     (case aura_on_timestamp_set now t of None \<Rightarrow> None
      | Some t1 \<Rightarrow> Some (put_block_reward (on_timestamp_set (reward_runtime F) (rt_block_reward t1)) t1))"

section \<open>The runtime interfaces\<close>

text \<open>
  What the interfaces reach of the framework: \<^verbatim>\<open>Executive\<close>, the inherent data, and the getters of its
  pallets, on the storage \<open>'s\<close>. Blocks, headers, extrinsics, keys and answers are opaque objects \<open>'h\<close>.
\<close>

record ('s, 'h, 'a) api_host =
  Executive_execute_block :: "'h \<Rightarrow> 's \<Rightarrow> 's"
  Executive_initialize_block :: "'h \<Rightarrow> 's \<Rightarrow> 's"
  Executive_apply_extrinsic :: "'h \<Rightarrow> 's \<Rightarrow> 'h \<times> 's"
  Executive_finalize_block :: "'s \<Rightarrow> 'h \<times> 's"
  Executive_validate_transaction :: "'h \<Rightarrow> 'h \<Rightarrow> 'h \<Rightarrow> 's \<Rightarrow> 'h \<times> 's"
  Executive_offchain_worker :: "'h \<Rightarrow> 's \<Rightarrow> 's"
  Runtime_metadata :: 'h
  OpaqueMetadata_new :: "'h \<Rightarrow> 'h"
  create_extrinsics :: "'h \<Rightarrow> 's \<Rightarrow> 'h list"
  check_extrinsics :: "'h \<Rightarrow> 'h \<Rightarrow> 's \<Rightarrow> 'h"
  SlotDuration_from_millis :: "u64 \<Rightarrow> 'h"
  Aura_slot_duration :: "'s \<Rightarrow> u64"
  Aura_authorities :: "'s \<Rightarrow> 'h"
  into_inner :: "'h \<Rightarrow> 'h list"
  SessionKeys_generate :: "u8 list option \<Rightarrow> 's \<Rightarrow> u8 list \<times> 's"
  decode_into_raw_public_keys :: "u8 list \<Rightarrow> (u8 list \<times> 'h) list option"
  Grandpa_authorities :: "'s \<Rightarrow> 'h"
  Grandpa_current_set_id :: "'s \<Rightarrow> u64"
  System_account_nonce :: "'a \<Rightarrow> 's \<Rightarrow> u32"
  TransactionPayment_query_info :: "'h \<Rightarrow> u32 \<Rightarrow> 's \<Rightarrow> 'h"
  TransactionPayment_query_fee_details :: "'h \<Rightarrow> u32 \<Rightarrow> 's \<Rightarrow> 'h"

text \<open>\<^verbatim>\<open>impl_runtime_apis!\<close>, one field for each method of the interfaces, in the order of the code.\<close>

record ('s, 'h, 'a, 'v) runtime_apis =
  api_version :: "'v runtime_version"
  api_execute_block :: "'h \<Rightarrow> 's \<Rightarrow> 's"
  api_initialize_block :: "'h \<Rightarrow> 's \<Rightarrow> 's"
  api_metadata :: 'h
  api_apply_extrinsic :: "'h \<Rightarrow> 's \<Rightarrow> 'h \<times> 's"
  api_finalize_block :: "'s \<Rightarrow> 'h \<times> 's"
  api_inherent_extrinsics :: "'h \<Rightarrow> 's \<Rightarrow> 'h list"
  api_check_inherents :: "'h \<Rightarrow> 'h \<Rightarrow> 's \<Rightarrow> 'h"
  api_validate_transaction :: "'h \<Rightarrow> 'h \<Rightarrow> 'h \<Rightarrow> 's \<Rightarrow> 'h \<times> 's"
  api_offchain_worker :: "'h \<Rightarrow> 's \<Rightarrow> 's"
  api_slot_duration :: "'s \<Rightarrow> 'h"
  api_authorities :: "'s \<Rightarrow> 'h list"
  api_generate_session_keys :: "u8 list option \<Rightarrow> 's \<Rightarrow> u8 list \<times> 's"
  api_decode_session_keys :: "u8 list \<Rightarrow> (u8 list \<times> 'h) list option"
  api_grandpa_authorities :: "'s \<Rightarrow> 'h"
  api_current_set_id :: "'s \<Rightarrow> u64"
  api_submit_report_equivocation_unsigned_extrinsic :: "'h \<Rightarrow> 'h \<Rightarrow> unit option"
  api_generate_key_ownership_proof :: "u64 \<Rightarrow> 'h \<Rightarrow> 'h option"
  api_account_nonce :: "'a \<Rightarrow> 's \<Rightarrow> u32"
  api_query_info :: "'h \<Rightarrow> u32 \<Rightarrow> 's \<Rightarrow> 'h"
  api_query_fee_details :: "'h \<Rightarrow> u32 \<Rightarrow> 's \<Rightarrow> 'h"

definition impl_runtime_apis :: "('s, 'h, 'a) api_host \<Rightarrow> 'v \<Rightarrow> ('s, 'h, 'a, 'v) runtime_apis" where
  "impl_runtime_apis H RUNTIME_API_VERSIONS =
     \<lparr>api_version = VERSION RUNTIME_API_VERSIONS,
      api_execute_block = Executive_execute_block H,
      api_initialize_block = Executive_initialize_block H,
      api_metadata = OpaqueMetadata_new H (Runtime_metadata H),
      api_apply_extrinsic = Executive_apply_extrinsic H,
      api_finalize_block = Executive_finalize_block H,
      api_inherent_extrinsics = create_extrinsics H,
      api_check_inherents = (\<lambda>block data. check_extrinsics H data block),
      api_validate_transaction = Executive_validate_transaction H,
      api_offchain_worker = Executive_offchain_worker H,
      api_slot_duration = (\<lambda>s. SlotDuration_from_millis H (Aura_slot_duration H s)),
      api_authorities = (\<lambda>s. into_inner H (Aura_authorities H s)),
      api_generate_session_keys = SessionKeys_generate H,
      api_decode_session_keys = decode_into_raw_public_keys H,
      api_grandpa_authorities = Grandpa_authorities H,
      api_current_set_id = Grandpa_current_set_id H,
      api_submit_report_equivocation_unsigned_extrinsic = (\<lambda>_ _. None),
      api_generate_key_ownership_proof = (\<lambda>_ _. None),
      api_account_nonce = System_account_nonce H,
      api_query_info = TransactionPayment_query_info H,
      api_query_fee_details = TransactionPayment_query_fee_details H\<rparr>"

section \<open>The benchmarks\<close>

text \<open>
  The macros of the benchmarking framework: each adds the batches of a pallet to a list when the
  configuration asks for the pallet, and returns from the function when they fail. \<open>hex\<close> is the
  macro for byte strings.
\<close>

record ('cfg, 'key, 'batch, 'item, 'info) benchmark_ops =
  hex :: "string \<Rightarrow> 'key"
  add_benchmark :: "'cfg \<Rightarrow> 'key list \<Rightarrow> string \<Rightarrow> 'batch list \<Rightarrow> string + 'batch list"
  list_benchmark :: "bool \<Rightarrow> string \<Rightarrow> 'item list \<Rightarrow> 'item list"
  storage_info :: "'info list"

definition benchmark_metadata ::
    "('cfg, 'key, 'batch, 'item, 'info) benchmark_ops \<Rightarrow> bool \<Rightarrow> 'item list \<times> 'info list" where
  "benchmark_metadata B extra =
     (let list1 = list_benchmark B extra ''pallet_dapi'' [];
          list2 = list_benchmark B extra ''pallet_dapi_staking'' list1
      in (list2, storage_info B))"

definition dispatch_benchmark ::
    "('cfg, 'key, 'batch, 'item, 'info) benchmark_ops \<Rightarrow> 'cfg \<Rightarrow> string + 'batch list" where
  "dispatch_benchmark B config =
     (let whitelist = map (hex B)
            [''26aa394eea5630e07c48ae0c9558cef702a5c1b19ab7a04f536c519aca4983ac'',
             ''26aa394eea5630e07c48ae0c9558cef7ff553b5a9862a516939d82b3d3d8661a'',
             ''26aa394eea5630e07c48ae0c9558cef70a98fdbe9ce6c55837576c60c7af3850'',
             ''26aa394eea5630e07c48ae0c9558cef780d41e5e16056765bc8461851072c9d7''] in
      case add_benchmark B config whitelist ''frame_system'' [] of Inl e \<Rightarrow> Inl e | Inr batches1 \<Rightarrow>
      case add_benchmark B config whitelist ''pallet_dapi'' batches1 of Inl e \<Rightarrow> Inl e | Inr batches2 \<Rightarrow>
      case add_benchmark B config whitelist ''pallet_dapi_staking'' batches2 of Inl e \<Rightarrow> Inl e | Inr batches \<Rightarrow>
      if batches = [] then Inl ''Benchmark not found for this pallet.'' else Inr batches)"

section \<open>Lemmas\<close>

text \<open>The node may run the native code for a block: it has the version the interface reports.\<close>

lemma native_is_current:
  "nv_runtime_version (native_version RUNTIME_API_VERSIONS) = api_version (impl_runtime_apis H RUNTIME_API_VERSIONS)"
  by (simp add: native_version_def impl_runtime_apis_def)

text \<open>
  The slot the interface reports is the slot duration of the runtime, where the consensus pallet
  derives it from the minimum period as documented, as twice that period.
\<close>

lemma reported_slot:
  assumes "\<And>s. Aura_slot_duration H s = 2 * MinimumPeriod"
  shows "api_slot_duration (impl_runtime_apis H v) s = SlotDuration_from_millis H SLOT_DURATION"
  by (simp add: impl_runtime_apis_def assms MinimumPeriod_def SLOT_DURATION_def MILLISECS_PER_BLOCK_def)

text \<open>
  The clock of the runtime: a minute, an hour and a day in blocks of the slot duration, half a slot
  between two blocks at least, an era of 400 seconds, and room for compute time of a whole slot in
  each block.
\<close>

lemma runtime_clock:
  "unat MINUTES * unat MILLISECS_PER_BLOCK = 60 * 1000"
  "unat HOURS * unat MILLISECS_PER_BLOCK = 60 * 60 * 1000"
  "unat DAYS * unat MILLISECS_PER_BLOCK = 24 * 60 * 60 * 1000"
  "2 * unat MinimumPeriod = unat SLOT_DURATION"
  "unat (BlockPerEra (staking_runtime F)) * unat MILLISECS_PER_BLOCK = 400 * 1000"
  by (simp_all add: DAYS_def HOURS_def MINUTES_def MILLISECS_PER_BLOCK_def SLOT_DURATION_def
      MinimumPeriod_def staking_runtime_def)

text \<open>The time stamp of a block is a step of the runtime where the consensus accepts it.\<close>

lemma timestamp_is_step:
  assumes "OnTimestampSet F aura now t = Some t'" "\<And>t1. aura now t = Some t1 \<Longrightarrow> t1 = t"
  shows "runtime_step F t t'"
  using assms by (auto simp: OnTimestampSet_def intro: timestamp_step split: option.splits)

text \<open>
  The benchmarks of a pallet the runtime does not list are refused: \<open>selects\<close> is which pallet a
  configuration asks for.
\<close>

lemma benchmark_not_found:
  assumes "\<And>w name bs. \<not> selects config name \<Longrightarrow> add_benchmark B config w name bs = Inr bs"
    and "\<not> selects config ''frame_system''" "\<not> selects config ''pallet_dapi''"
      "\<not> selects config ''pallet_dapi_staking''"
  shows "dispatch_benchmark B config = Inl ''Benchmark not found for this pallet.''"
  using assms by (simp add: dispatch_benchmark_def)

section \<open>The genesis of the framework's pallets\<close>

text \<open>
  The genesis of the balances pallet asserts that no account is listed twice and that every balance is
  at least the existential deposit; then every account has the balance listed for it. The consensus
  pallets accept as many authorities as the runtime allows.
\<close>

definition genesis_laws ::
    "('o, 'a, 'c, 'i, 'b, 'e) framework \<Rightarrow> ('a, 'k, 'g, 'c) genesis_ops \<Rightarrow> bool" where
  "genesis_laws F G \<longleftrightarrow>
     (\<forall>xs. balances_genesis G xs \<noteq> None \<longleftrightarrow>
        distinct (map fst xs) \<and> (\<forall>x \<in> set xs. ExistentialDeposit \<le> snd x)) \<and>
     (\<forall>xs c a v. balances_genesis G xs = Some c \<longrightarrow> (a, v) \<in> set xs \<longrightarrow> free_balance (fw_balances F) c a = v) \<and>
     (\<forall>ks. length ks \<le> unat MaxAuthorities \<longrightarrow> aura_genesis G ks \<noteq> None) \<and>
     (\<forall>ks. length ks \<le> unat MaxAuthorities \<longrightarrow> grandpa_genesis G ks \<noteq> None)"

text \<open>
  A configuration of \<^verbatim>\<open>testnet_genesis\<close> with at most 32 authorities is built exactly if the endowed
  accounts are distinct.
\<close>

lemma testnet_genesis_limits:
  assumes "testnet_genesis pb WASM_BINARY auths root endowed regulators = Some gc"
  shows "map fst (gc_balances gc) = endowed" "\<forall>x \<in> set (gc_balances gc). ExistentialDeposit \<le> snd x"
    "length (gc_aura gc) = length auths" "length (gc_grandpa gc) = length auths"
  using assms by (auto simp: testnet_genesis_def ExistentialDeposit_def comp_def split: option.splits)

lemma testnet_storage:
  assumes gc: "testnet_genesis (fw_perbill F) WASM_BINARY auths root endowed regulators = Some gc"
    and "perbill_whole (fw_perbill F)" "genesis_laws F G" "length auths \<le> unat MaxAuthorities"
  shows "build_storage F G gc =
    (if distinct endowed then Some (runtime_genesis F regulators (the (balances_genesis G (gc_balances gc))))
     else None)"
proof -
  note fields = testnet_genesisE [OF gc] and limits = testnet_genesis_limits [OF gc]
  have auth: "aura_genesis G (gc_aura gc) \<noteq> None" "grandpa_genesis G (gc_grandpa gc) \<noteq> None"
    using assms(3,4) limits(3,4) by (simp_all add: genesis_laws_def)
  have bal: "balances_genesis G (gc_balances gc) \<noteq> None \<longleftrightarrow> distinct endowed"
    using assms(3) limits(1,2) by (simp add: genesis_laws_def)
  show ?thesis
  proof (cases "balances_genesis G (gc_balances gc)")
    case None
    then have "build_storage F G gc = None" by (simp add: build_storage_def split: option.splits)
    then show ?thesis using None bal by simp
  next
    case (Some c)
    then show ?thesis
      using build_storage_genesis [OF assms(2) fields(1) auth Some] fields(2) bal by simp
  qed
qed

lemma testnet_funded:
  assumes gc: "testnet_genesis pb WASM_BINARY auths root endowed regulators = Some gc"
    and "genesis_laws F G" "distinct endowed" "a \<in> set endowed"
  shows "free_balance (fw_balances F) (the (balances_genesis G (gc_balances gc))) a = 100000 * MBT"
proof -
  note limits = testnet_genesis_limits [OF gc]
  obtain c where "balances_genesis G (gc_balances gc) = Some c"
    using assms(2,3) limits(1,2) unfolding genesis_laws_def by blast
  moreover have "(a, 100000 * MBT) \<in> set (gc_balances gc)"
    using testnet_genesisE(3) [OF gc] assms(4) by auto
  ultimately show ?thesis using assms(2) unfolding genesis_laws_def by auto
qed

end
