(* ===== verification/Provider_Register.thy ===== *)
theory Provider_Register
  imports Calls Staking_Claims
begin

text \<open>
  The register of providers the two pallets keep together, as an abstract machine: the regulators, the
  known chain ids and the status of every provider. The dApi pallet says which providers are
  announced; from then on operator and activity are read from the staking pallet. A labelled
  transition relation says for every call of the runtime who may send it, in which status of the
  provider it is accepted, and what it does to the register; the calls of the runtime implement it.
\<close>

section \<open>The abstract machine\<close>

datatype 'a provider_status = Unlisted | Pending 'a | Serving 'a | Retired 'a

record ('a, 'p) provider_register =
  regulators_of :: "'a set"
  chains_of :: "chain_id set"
  status_of :: "'p \<Rightarrow> 'a provider_status"

text \<open>
  The guard of a call decides exactly whether it is accepted, or is only necessary for it (the
  currency and the books of the staking pallet have a say as well). A refused call does nothing.
\<close>

definition exactly :: "bool \<Rightarrow> bool \<Rightarrow> 'r \<Rightarrow> 'r \<Rightarrow> 'r \<Rightarrow> bool" where
  "exactly guard ok new R R' \<longleftrightarrow> ok = guard \<and> R' = (if ok then new else R)"

definition only_if :: "bool \<Rightarrow> bool \<Rightarrow> 'r \<Rightarrow> 'r \<Rightarrow> 'r \<Rightarrow> bool" where
  "only_if guard ok new R R' \<longleftrightarrow> (ok \<longrightarrow> guard) \<and> R' = (if ok then new else R)"

definition by_regulator :: "'a option \<Rightarrow> ('a, 'p) provider_register \<Rightarrow> bool" where
  "by_regulator who R = (case who of None \<Rightarrow> False | Some a \<Rightarrow> a \<in> regulators_of R)"

definition chain_known :: "chain_id option \<Rightarrow> ('a, 'p) provider_register \<Rightarrow> bool" where
  "chain_known chain R = (case chain of None \<Rightarrow> False | Some k \<Rightarrow> k \<in> chains_of R)"

definition put_status :: "'p \<Rightarrow> 'a provider_status \<Rightarrow> ('a, 'p) provider_register \<Rightarrow> ('a, 'p) provider_register" where
  "put_status p x R = R\<lparr>status_of := (status_of R)(p := x)\<rparr>"

text \<open>The operator of a provider that takes part in staking.\<close>

definition served_by :: "'a provider_status \<Rightarrow> 'a option" where
  "served_by x = (case x of Serving a \<Rightarrow> Some a | _ \<Rightarrow> None)"

text \<open>\<open>who\<close> is the sender of a signed call, \<open>bytes\<close> the conversion of bytes into a chain id.\<close>

fun dapi_spec ::
    "'a option \<Rightarrow> (u8 list \<Rightarrow> chain_id option) \<Rightarrow> ('a, 'p) dapi_pallet_call \<Rightarrow> bool \<Rightarrow>
     ('a, 'p) provider_register \<Rightarrow> ('a, 'p) provider_register \<Rightarrow> bool" where
  "dapi_spec who bytes (Register_project p chain v) ok R R' =
     only_if (who \<noteq> None \<and> chain_known (bytes chain) R) ok R R R'"
| "dapi_spec who bytes (Deposit_project p v) ok R R' = only_if (who \<noteq> None) ok R R R'"
| "dapi_spec who bytes (Submit_project_usage p u) ok R R' = only_if (by_regulator who R) ok R R R'"
| "dapi_spec who bytes (Register_provider p t a chain) ok R R' =
     exactly (by_regulator who R \<and> status_of R p = Unlisted \<and> chain_known (bytes chain) R) ok
       (put_status p (Pending a) R) R R'"
| "dapi_spec who bytes (Deposit_provider p v) ok R R' =
     only_if (who \<noteq> None \<and> status_of R p = Pending (the who)) ok (put_status p (Serving (the who)) R) R R'"
| "dapi_spec who bytes (Unregister_provider p) ok R R' =
     exactly (who \<noteq> None \<and> status_of R p = Serving (the who)) ok (put_status p (Retired (the who)) R) R R'"
| "dapi_spec who bytes (Report_provider_offence p reason) ok R R' =
     exactly (by_regulator who R \<and> served_by (status_of R p) \<noteq> None) ok
       (put_status p (Retired (the (served_by (status_of R p)))) R) R R'"
| "dapi_spec who bytes (Add_regulator a) ok R R' =
     exactly (a \<notin> regulators_of R) ok (R\<lparr>regulators_of := insert a (regulators_of R)\<rparr>) R R'"
| "dapi_spec who bytes (Remove_regulator a) ok R R' =
     exactly (a \<in> regulators_of R) ok (R\<lparr>regulators_of := regulators_of R - {a}\<rparr>) R R'"
| "dapi_spec who bytes (Add_chain_id chain) ok R R' =
     exactly (bytes chain \<noteq> None \<and> \<not> chain_known (bytes chain) R) ok
       (R\<lparr>chains_of := insert (the (bytes chain)) (chains_of R)\<rparr>) R R'"
| "dapi_spec who bytes (Remove_chain_id chain) ok R R' =
     exactly (chain_known (bytes chain) R) ok (R\<lparr>chains_of := chains_of R - {the (bytes chain)}\<rparr>) R R'"

text \<open>
  The calls of the staking pallet leave the register alone. A provider that is still pending may be
  staked on: its registration in the staking pallet can have succeeded half way.
\<close>

fun staking_spec ::
    "'a option \<Rightarrow> bool \<Rightarrow> 'p staking_pallet_call \<Rightarrow> ('a, 'p) provider_register \<Rightarrow> bool" where
  "staking_spec who root (Withdraw_from_unregistered_staker p) R \<longleftrightarrow>
     who \<noteq> None \<and> (\<exists>a. status_of R p = Retired a)"
| "staking_spec who root (Withdraw_from_unregistered_operator p) R \<longleftrightarrow>
     who \<noteq> None \<and> status_of R p = Retired (the who)"
| "staking_spec who root (Stake_call p v) R \<longleftrightarrow>
     who \<noteq> None \<and> (\<exists>a. status_of R p = Pending a \<or> status_of R p = Serving a)"
| "staking_spec who root (Unstake_call p v) R \<longleftrightarrow>
     who \<noteq> None \<and> (\<exists>a. status_of R p = Pending a \<or> status_of R p = Serving a)"
| "staking_spec who root Withdraw_unstaked R \<longleftrightarrow> who \<noteq> None"
| "staking_spec who root (Claim_staker p) R \<longleftrightarrow> who \<noteq> None \<and> status_of R p \<noteq> Unlisted"
| "staking_spec who root (Claim_operator p e) R \<longleftrightarrow> who \<noteq> None \<and> status_of R p \<noteq> Unlisted"
| "staking_spec who root Force_new_era R \<longleftrightarrow> root"

fun register_spec ::
    "('o, 'a, 'c, 'i, 'b, 'e) framework \<Rightarrow> 'o \<Rightarrow> ('a, 'b) runtime_call \<Rightarrow> bool \<Rightarrow>
     ('a, massbit_id) provider_register \<Rightarrow> ('a, massbit_id) provider_register \<Rightarrow> bool" where
  "register_spec F origin (Dapi call) ok R R' =
     dapi_spec (ensure_signed (fw_system F) origin) (fw_bounded_try_into F MaxBytesInChainId) call ok R R'"
| "register_spec F origin (DapiStaking call) ok R R' =
     only_if (staking_spec (ensure_signed (fw_system F) origin) (ensure_root (fw_system F) origin) call R) ok R R R'"
| "register_spec F origin (BlockReward call) ok R R' =
     only_if (ensure_root (fw_system F) origin) ok R R R'"

section \<open>The abstraction\<close>

definition status_view :: "'a provider option \<Rightarrow> 'a option \<Rightarrow> bool \<Rightarrow> 'a provider_status" where
  "status_view here operator act =
     (case here of
        None \<Rightarrow> Unlisted
      | Some prv \<Rightarrow>
          if prv_state prv = DRegistered then Pending (prv_operator prv)
          else case operator of None \<Rightarrow> Unlisted | Some a \<Rightarrow> if act then Serving a else Retired a)"

definition register_view ::
    "('w \<Rightarrow> 'p \<Rightarrow> 'a option) \<Rightarrow> ('w \<Rightarrow> 'p \<Rightarrow> bool) \<Rightarrow> ('a, 'p, 'w) dapi \<Rightarrow> ('a, 'p) provider_register" where
  "register_view registered active d =
     \<lparr>regulators_of = Regulators d, chains_of = ChainIds d,
      status_of = (\<lambda>p. status_view (Providers d p) (registered (World d) p) (active (World d) p))\<rparr>"

definition register_of :: "('a, 'c, 'b) runtime \<Rightarrow> ('a, massbit_id) provider_register" where
  "register_of t = register_view operator_of active_in (rt_dapi t)"

text \<open>Where the registers of the pallets agree, the dApi pallet alone knows the status.\<close>

definition own_status :: "'a provider option \<Rightarrow> 'a provider_status" where
  "own_status here =
     (case here of
        None \<Rightarrow> Unlisted
      | Some prv \<Rightarrow>
          (case prv_state prv of
             DRegistered \<Rightarrow> Pending (prv_operator prv)
           | DActive \<Rightarrow> Serving (prv_operator prv)
           | DInActive \<Rightarrow> Retired (prv_operator prv)))"

definition own_register :: "('a, 'p, 'w) dapi \<Rightarrow> ('a, 'p) provider_register" where
  "own_register d =
     \<lparr>regulators_of = Regulators d, chains_of = ChainIds d, status_of = (\<lambda>p. own_status (Providers d p))\<rparr>"

lemma status_view_own: "agree here operator act \<Longrightarrow> status_view here operator act = own_status here"
  by (auto simp: agree_def status_view_def own_status_def split: option.splits dapi_provider_state.splits)

lemma register_view_own:
  "coherent registered active d \<Longrightarrow> register_view registered active d = own_register d"
  by (simp add: coherent_def register_view_def own_register_def status_view_own)

lemma own_status_iff [simp]:
  "own_status here = Unlisted \<longleftrightarrow> here = None"
  "own_status here = Pending a \<longleftrightarrow> (\<exists>prv. here = Some prv \<and> prv_state prv = DRegistered \<and> prv_operator prv = a)"
  "own_status here = Serving a \<longleftrightarrow> (\<exists>prv. here = Some prv \<and> prv_state prv = DActive \<and> prv_operator prv = a)"
  "own_status here = Retired a \<longleftrightarrow> (\<exists>prv. here = Some prv \<and> prv_state prv = DInActive \<and> prv_operator prv = a)"
  by (auto simp: own_status_def split: option.splits dapi_provider_state.splits)

lemma own_register_fields [simp]:
  "regulators_of (own_register d) = Regulators d" "chains_of (own_register d) = ChainIds d"
  "status_of (own_register d) p = own_status (Providers d p)"
  by (simp_all add: own_register_def)

lemma own_register_same:
  assumes "Regulators d' = Regulators d" "ChainIds d' = ChainIds d" "Providers d' = Providers d"
  shows "own_register d' = own_register d"
  using assms by (simp add: own_register_def)

lemma own_register_provider:
  assumes "Regulators d' = Regulators d" "ChainIds d' = ChainIds d" "Providers d' = (Providers d)(p \<mapsto> prv)"
  shows "own_register d' = put_status p (own_status (Some prv)) (own_register d)"
  using assms by (auto simp: own_register_def put_status_def)

section \<open>The calls of the dApi pallet\<close>

lemmas spec_defs = exactly_def only_if_def by_regulator_def chain_known_def served_by_def

text \<open>Calls whose effect on the register needs nothing of the staking pallet.\<close>

lemma own_calls_refine:
  assumes "dapi_dispatch D origin call d = (r, d')"
    and "case call of Deposit_provider p v \<Rightarrow> False | Unregister_provider p \<Rightarrow> False
      | Report_provider_offence p reason \<Rightarrow> False | _ \<Rightarrow> True"
  shows "dapi_spec (ensure_signed (DapiSystem D) origin) (bounded_try_into D) call (\<not> isl r)
    (own_register d) (own_register d')"
proof (cases call)
  case (Register_provider p t a chain)
  then show ?thesis
    using assms(1) by (auto simp: dapi_call_defs spec_defs own_register_def put_status_def own_status_def fun_eq_iff
        split: dapi_splits dapi_provider_state.splits)
qed (use assms in \<open>auto simp: dapi_call_defs spec_defs own_register_def split: dapi_splits\<close>)

context dapi_host
begin

lemma deposit_provider_refines:
  assumes "deposit_provider D origin p v d = (r, d')"
  shows "dapi_spec (ensure_signed (DapiSystem D) origin) (bounded_try_into D) (Deposit_provider p v) (\<not> isl r)
    (own_register d) (own_register d')"
  using assms
  by (auto simp: dapi_call_defs spec_defs own_register_def put_status_def own_status_def fun_eq_iff split: dapi_splits)

lemma serving_unregisters:
  assumes "coherent registered active d" "served_by (own_status (Providers d p)) = Some a"
  shows "\<exists>prv w. Providers d p = Some prv \<and> prv_state prv = DActive \<and> prv_operator prv = a \<and>
    unregister p (World d) = (Inr (), w)"
proof -
  obtain prv where "Providers d p = Some prv" "prv_state prv = DActive" "prv_operator prv = a"
    using assms(2) by (auto simp: served_by_def split: provider_status.splits)
  with active_provider_leaves [OF assms(1)] show ?thesis by metis
qed

lemma unregister_provider_refines:
  assumes "unregister_provider D origin p d = (r, d')" "coherent registered active d"
  shows "dapi_spec (ensure_signed (DapiSystem D) origin) (bounded_try_into D) (Unregister_provider p) (\<not> isl r)
    (own_register d) (own_register d')"
proof (cases "served_by (own_status (Providers d p))")
  case None
  then show ?thesis
    using assms(1) by (auto simp: dapi_call_defs spec_defs own_status_def split: dapi_splits dapi_provider_state.splits)
next
  case (Some a)
  then obtain prv w where "Providers d p = Some prv" "prv_state prv = DActive" "prv_operator prv = a"
      "unregister p (World d) = (Inr (), w)"
    using serving_unregisters [OF assms(2)] by blast
  then show ?thesis
    using assms(1)
    by (auto simp: dapi_call_defs D_unregister spec_defs own_register_def put_status_def own_status_def fun_eq_iff
        split: dapi_splits)
qed

lemma report_provider_offence_refines:
  assumes "report_provider_offence D origin p reason d = (r, d')" "coherent registered active d"
  shows "dapi_spec (ensure_signed (DapiSystem D) origin) (bounded_try_into D) (Report_provider_offence p reason)
    (\<not> isl r) (own_register d) (own_register d')"
proof (cases "served_by (own_status (Providers d p))")
  case None
  then show ?thesis
    using assms(1) by (auto simp: dapi_call_defs spec_defs own_status_def split: dapi_splits dapi_provider_state.splits)
next
  case (Some a)
  then obtain prv w where "Providers d p = Some prv" "prv_state prv = DActive" "prv_operator prv = a"
      "unregister p (World d) = (Inr (), w)"
    using serving_unregisters [OF assms(2)] by blast
  then show ?thesis
    using assms(1)
    by (auto simp: dapi_call_defs D_unregister spec_defs own_register_def put_status_def own_status_def fun_eq_iff
        split: dapi_splits)
qed

lemma dapi_dispatch_refines:
  assumes "dapi_dispatch D origin call d = (r, d')" "coherent registered active d"
    and pay: "\<And>i w. registered (OnProjectPayment D i w) = registered w \<and>
      active (OnProjectPayment D i w) = active w"
  shows "dapi_spec (ensure_signed (DapiSystem D) origin) (bounded_try_into D) call (\<not> isl r)
    (register_view registered active d) (register_view registered active d')"
proof -
  have "dapi_call D d d'" using assms(1) dapi_call_dispatch by (metis snd_conv)
  from dapi_call_coherent [OF this assms(2) pay]
  have own: "register_view registered active d = own_register d" "register_view registered active d' = own_register d'"
    using assms(2) by (simp_all add: register_view_own)
  show ?thesis
    unfolding own
  proof (cases call)
    case (Deposit_provider p v)
    then show "dapi_spec (ensure_signed (DapiSystem D) origin) (bounded_try_into D) call (\<not> isl r)
        (own_register d) (own_register d')"
      using deposit_provider_refines assms(1) by (simp del: dapi_spec.simps)
  next
    case (Unregister_provider p)
    then show "dapi_spec (ensure_signed (DapiSystem D) origin) (bounded_try_into D) call (\<not> isl r)
        (own_register d) (own_register d')"
      using unregister_provider_refines assms(1,2) by (simp del: dapi_spec.simps)
  next
    case (Report_provider_offence p reason)
    then show "dapi_spec (ensure_signed (DapiSystem D) origin) (bounded_try_into D) call (\<not> isl r)
        (own_register d) (own_register d')"
      using report_provider_offence_refines assms(1,2) by (simp del: dapi_spec.simps)
  qed (use own_calls_refine [OF assms(1)] in simp_all)
qed

end

section \<open>The calls of the runtime\<close>

text \<open>What the entry of a provider in the staking pallet says about its status.\<close>

lemma agree_status:
  assumes "agree here operator act" "operator = Some a"
  shows "own_status here \<noteq> Unlisted" "act \<Longrightarrow> own_status here = Pending a \<or> own_status here = Serving a"
    "\<not> act \<Longrightarrow> own_status here = Retired a"
  using assms by (auto simp: agree_def split: option.splits dapi_provider_state.splits)

lemma staking_call_guard:
  assumes "staking_dispatch T origin call s = (Inr (), s')"
    and agree: "\<And>p. agree (m p) (operator_of s p) (active_in s p)"
    and R: "\<And>p. status_of R p = own_status (m p)"
  shows "staking_spec (ensure_signed (System T) origin) (ensure_root (System T) origin) call R"
proof -
  have entry: "RegisteredProviders s p = Some info \<Longrightarrow> operator_of s p = Some (pi_operator info)" for p info
    by (simp add: operator_of_def)
  have act: "\<exists>a. own_status (m p) = Pending a \<or> own_status (m p) = Serving a" if "is_active_provider p s" for p
  proof -
    from that obtain info where "RegisteredProviders s p = Some info"
      by (auto simp: is_active_provider_def split: option.splits)
    from agree_status(2) [OF agree entry [OF this]] that show ?thesis unfolding active_in_def by blast
  qed
  have known: "own_status (m p) \<noteq> Unlisted" if "RegisteredProviders s p = Some info" for p info
    using agree_status(1) [OF agree entry [OF that]] .
  have out: "own_status (m p) = Retired (pi_operator info)"
    if "RegisteredProviders s p = Some info" "pi_state info = Unregistered e" for p info e
    using agree_status(3) [OF agree entry [OF that(1)]] that by (simp add: active_in_def is_active_provider_def)
  show ?thesis
  proof (cases call)
    case (Withdraw_from_unregistered_staker p)
    then show ?thesis
      using assms(1) out by (auto simp: R simp del: own_status_iff elim!: withdraw_from_unregistered_staker_okE)
  next
    case (Withdraw_from_unregistered_operator p)
    then show ?thesis
      using assms(1) out by (auto simp: R simp del: own_status_iff elim!: withdraw_from_unregistered_operator_okE)
  next
    case (Stake_call p v)
    then show ?thesis using assms(1) act by (auto simp: R simp del: own_status_iff elim!: stake_okE)
  next
    case (Unstake_call p v)
    then show ?thesis using assms(1) act by (auto simp: R simp del: own_status_iff elim!: unstake_okE)
  next
    case Withdraw_unstaked
    then show ?thesis using assms(1) by (auto elim!: withdraw_unstaked_okE)
  next
    case (Claim_staker p)
    then show ?thesis using assms(1) known by (auto simp: R simp del: own_status_iff elim!: claim_staker_okE)
  next
    case (Claim_operator p e)
    then show ?thesis using assms(1) known by (auto simp: R simp del: own_status_iff elim!: claim_operator_okE)
  next
    case Force_new_era
    then show ?thesis using assms(1) by (auto simp: force_new_era_def split: if_splits)
  qed
qed

lemma register_of_put_staking:
  assumes "operator_of s = operator_of (rt_staking t)" "active_in s = active_in (rt_staking t)"
  shows "register_of (put_staking s t) = register_of t"
  using assms by (simp add: register_of_def register_view_def put_staking_def rt_staking_def)

lemma staking_call_refines:
  assumes "runtime_dispatch F origin (DapiStaking call) t = (ok, t')" "coherent operator_of active_in (rt_dapi t)"
  shows "register_spec F origin (DapiStaking call) ok (register_of t) (register_of t')"
proof -
  obtain r s where call: "staking_dispatch (staking_runtime F) origin call (rt_staking t) = (r, s)"
    by (cases "staking_dispatch (staking_runtime F) origin call (rt_staking t)")
  then have t': "ok = (\<not> isl r)" "t' = put_staking s t" using assms(1) by auto
  have "staking_extrinsic (staking_runtime F) (rt_staking t) s"
    using call staking_extrinsic_dispatch by (metis snd_conv)
  then have "register_of t' = register_of t"
    unfolding t'(2) using staking_extrinsic_registry by (intro register_of_put_staking) auto
  moreover have "staking_spec (ensure_signed (fw_system F) origin) (ensure_root (fw_system F) origin) call (register_of t)"
    if ok
  proof -
    have "r = Inr ()" using that t'(1) by (cases r) auto
    moreover have "agree (Providers (rt_dapi t) p) (operator_of (rt_staking t) p) (active_in (rt_staking t) p)"
      "status_of (register_of t) p = own_status (Providers (rt_dapi t) p)" for p
      using assms(2) by (simp_all add: coherent_def rt_staking_def register_of_def register_view_own)
    ultimately have "staking_spec (ensure_signed (System (staking_runtime F)) origin)
        (ensure_root (System (staking_runtime F)) origin) call (register_of t)"
      using call by (intro staking_call_guard) simp_all
    then show ?thesis by (simp add: staking_runtime_def)
  qed
  ultimately show ?thesis by (simp add: only_if_def)
qed

lemma dapi_call_refines:
  assumes "runtime_dispatch F origin (Dapi call) t = (ok, t')" "coherent operator_of active_in (rt_dapi t)"
    and "on_unbalanced_laws F"
  shows "register_spec F origin (Dapi call) ok (register_of t) (register_of t')"
proof -
  obtain r d where call: "dapi_dispatch (dapi_runtime F) origin call (rt_dapi t) = (r, d)"
    by (cases "dapi_dispatch (dapi_runtime F) origin call (rt_dapi t)")
  then have t': "ok = (\<not> isl r)" "t' = t\<lparr>rt_dapi := d\<rparr>" using assms(1) by auto
  have "dapi_spec (ensure_signed (DapiSystem (dapi_runtime F)) origin) (bounded_try_into (dapi_runtime F)) call
      (\<not> isl r) (register_view operator_of active_in (rt_dapi t)) (register_view operator_of active_in d)"
    using call assms(2)
    by (rule dapi_in_runtime.dapi_dispatch_refines) (simp add: payment_eq [OF assms(3)])
  then show ?thesis by (simp add: t' register_of_def) (simp add: dapi_runtime_def)
qed

lemma reward_call_refines:
  assumes "runtime_dispatch F origin (BlockReward call) t = (ok, t')"
  shows "register_spec F origin (BlockReward call) ok (register_of t) (register_of t')"
  using assms
  by (cases call)
    (auto simp: set_configuration_def reward_runtime_def rt_block_reward_def put_block_reward_def put_staking_def
      rt_staking_def register_of_def only_if_def Let_def split: if_splits)

text \<open>Hooks, time stamps and changes of the currency leave the register alone.\<close>

lemma other_input_register:
  assumes "apply_input F x t = Some u" "\<And>origin call. x \<noteq> Extrinsic origin call"
  shows "register_of u = register_of t"
proof (cases x)
  case (Initialize_block now)
  then obtain w s where "on_initialize (staking_runtime F) now (rt_staking t) = Some (w, s)" "u = put_staking s t"
    using assms(1) by (auto split: if_splits)
  then show ?thesis using on_initialize_registry by (metis register_of_put_staking)
next
  case Timestamp_set
  then have u: "u = put_block_reward (on_timestamp_set (reward_runtime F) (rt_block_reward t)) t"
    using assms(1) by simp
  have "register_of u =
      register_of (put_staking (RewardWorld (on_timestamp_set (reward_runtime F) (rt_block_reward t))) t)"
    by (simp add: u put_block_reward_def register_of_def)
  also have "\<dots> = register_of t"
    by (rule register_of_put_staking) (simp_all add: timestamp_registry rt_block_reward_def)
  finally show ?thesis .
next
  case (Currency_change c)
  then show ?thesis using assms(1) by (auto intro: register_of_put_staking)
qed (use assms(2) in blast)

lemma runtime_call_refines:
  assumes "runtime_dispatch F origin call t = (ok, t')" "coherent operator_of active_in (rt_dapi t)"
    and "on_unbalanced_laws F"
  shows "register_spec F origin call ok (register_of t) (register_of t')"
proof (cases call)
  case (Dapi c)
  then show ?thesis using dapi_call_refines [of F origin c t ok t'] assms by simp
next
  case (DapiStaking c)
  then show ?thesis using staking_call_refines [of F origin c t ok t'] assms(1,2) by simp
next
  case (BlockReward c)
  then show ?thesis using reward_call_refines [of F origin c t ok t'] assms(1) by simp
qed

section \<open>Half-way registrations\<close>

text \<open>
  A provider that is still pending although the staking pallet has an entry for it: a deposit for it
  was refused after the entry had been made.
\<close>

definition half_registered :: "massbit_id \<Rightarrow> 'a provider \<Rightarrow> ('a, 'c, 'b) runtime \<Rightarrow> bool" where
  "half_registered p prv t \<longleftrightarrow> Providers (rt_dapi t) p = Some prv \<and> prv_state prv = DRegistered \<and>
     entered_under (prv_operator prv) p (rt_staking t)"

lemma dapi_call_half_registered:
  assumes "dapi_call (dapi_runtime F) d d'" "Providers d p = Some prv" "prv_state prv = DRegistered"
    and "entered_under (prv_operator prv) p (World d)"
  shows "Providers d' p = Some prv"
  using assms(1)
proof (cases rule: dapi_call.cases)
  case (deposit_provider_call origin q v r)
  then show ?thesis
    using assms(2) register_entered [OF assms(4), of "staking_runtime F"]
    by (auto simp: dapi_call_defs dapi_runtime_def split: dapi_splits)
qed (use assms(2,3) in \<open>auto simp: dapi_call_defs split: dapi_splits\<close>)

interpretation half_way: invariant_system "runtime_step F"
  "\<lambda>t. on_unbalanced_laws F \<longrightarrow> half_registered p prv t" for F p prv
proof (unfold_locales, intro impI)
  fix t u
  assume step: "runtime_step F t u" and laws: "on_unbalanced_laws F"
    and "on_unbalanced_laws F \<longrightarrow> half_registered p prv t"
  then have inv: "half_registered p prv t" by simp
  have "Providers (rt_dapi u) p = Some prv"
    using runtime_step_dapi [OF step] dapi_call_half_registered inv
    unfolding half_registered_def rt_staking_def by metis
  moreover have "entered_under (prv_operator prv) p (rt_staking u)"
    using entries_stay.run_invar [OF runtime_step_run [OF step laws]] inv by (simp add: half_registered_def)
  ultimately show "half_registered p prv u" using inv by (simp add: half_registered_def)
qed

text \<open>No call helps such a provider.\<close>

lemma half_registered_refused:
  assumes "half_registered p prv t" "coherent operator_of active_in (rt_dapi t)"
  shows "\<not> fst (runtime_dispatch F origin (Dapi (Deposit_provider p v)) t)"
    "\<not> fst (runtime_dispatch F origin (Dapi (Unregister_provider p)) t)"
    "\<not> fst (runtime_dispatch F origin (Dapi (Report_provider_offence p reason)) t)"
    "\<not> fst (runtime_dispatch F origin (DapiStaking (Withdraw_from_unregistered_operator p)) t)"
    "\<not> fst (runtime_dispatch F origin (DapiStaking (Withdraw_from_unregistered_staker p)) t)"
proof -
  have here: "Providers (rt_dapi t) p = Some prv" "prv_state prv = DRegistered"
      "entered_under (prv_operator prv) p (World (rt_dapi t))"
    using assms(1) by (auto simp: half_registered_def rt_staking_def)
  obtain info where info: "RegisteredProviders (rt_staking t) p = Some info"
    using here(3) by (auto simp: entered_under_def rt_staking_def split: option.splits)
  have "agree (Some prv) (operator_of (rt_staking t) p) (active_in (rt_staking t) p)"
    using assms(2) here(1) by (metis coherent_def rt_staking_def)
  then have state: "pi_state info = Registered"
    using here(2) info by (simp add: agree_def registry_defs)
  show "\<not> fst (runtime_dispatch F origin (Dapi (Deposit_provider p v)) t)"
    using here register_entered [OF here(3), of "staking_runtime F"]
    by (auto simp: dapi_call_defs dapi_runtime_def split: dapi_splits)
  show "\<not> fst (runtime_dispatch F origin (Dapi (Unregister_provider p)) t)"
    "\<not> fst (runtime_dispatch F origin (Dapi (Report_provider_offence p reason)) t)"
    using here by (auto simp: dapi_call_defs split: dapi_splits)
  show "\<not> fst (runtime_dispatch F origin (DapiStaking (Withdraw_from_unregistered_operator p)) t)"
    "\<not> fst (runtime_dispatch F origin (DapiStaking (Withdraw_from_unregistered_staker p)) t)"
    using info state
    by (auto simp: withdraw_from_unregistered_operator_def withdraw_from_unregistered_staker_def
        split: dapi_splits)
qed

end
