(* ===== verification/Node_Service.thy ===== *)
theory Node_Service
  imports Prelude
begin

text \<open>
  The service of the node, \<^verbatim>\<open>node/src/local/service.rs\<close>, and its RPC extensions, \<^verbatim>\<open>node/src/rpc.rs\<close>:
  which parts of the framework are built, in which order, with which arguments, what happens when
  one of them fails, and which tasks are handed to the task manager. The parts themselves are the
  framework's: their objects are values of the type \<open>'h\<close>, their operations fields of \<open>service_ops\<close>,
  and the world they act on (database, network, clock, key store) is \<open>'w\<close>. A reference-counted
  pointer is the object it points to.
\<close>

section \<open>The state of a node\<close>

text \<open>A task as the code hands it to the task manager.\<close>

record 'h task =
  task_essential :: bool
  task_blocking :: bool
  task_name :: string
  task_group :: "string option"
  task_future :: 'h

record ('h, 'w) node =
  world :: 'w
  tasks :: "'h task list"
  networks :: "'h list"

text \<open>
  Errors: \<^verbatim>\<open>ServiceError::Other\<close>, an error of the framework that \<^verbatim>\<open>?\<close> converts, and the panic of \<^verbatim>\<open>expect\<close>.
\<close>

datatype 'e service_error = Other string | Framework 'e | Panic string

definition on_world :: "('w \<Rightarrow> 'r \<times> 'w) \<Rightarrow> ('h, 'w) node \<Rightarrow> 'r \<times> ('h, 'w) node" where
  "on_world f s = (case f (world s) of (r, w) \<Rightarrow> (r, s\<lparr>world := w\<rparr>))"

text \<open>A call of the framework followed by \<^verbatim>\<open>?\<close>.\<close>

definition attempt ::
    "('w \<Rightarrow> ('e + 'r) \<times> 'w) \<Rightarrow> ('h, 'w) node \<Rightarrow> ('e service_error + 'r) \<times> ('h, 'w) node" where
  "attempt f s = (case on_world f s of (r, s') \<Rightarrow> (map_sum Framework id r, s'))"

definition spawn :: "'h task \<Rightarrow> ('h, 'w) node \<Rightarrow> ('h, 'w) node" where
  "spawn t s = s\<lparr>tasks := tasks s @ [t]\<rparr>"

section \<open>What the code passes to the framework\<close>

text \<open>The fields of \<^verbatim>\<open>sc_service::Configuration\<close> that the code reads.\<close>

record ('h, 'ep) configuration =
  keystore_remote :: "string option"
  telemetry_endpoints :: "'ep option"
  wasm_method :: 'h
  default_heap_pages :: "u64 option"
  max_runtime_instances :: nat
  runtime_cache_size :: u8
  transaction_pool_options :: 'h
  prometheus_registry :: "'h option"
  role :: 'h
  offchain_worker_enabled :: bool
  force_authoring :: bool
  node_name :: string
  disable_grandpa :: bool
  chain_spec :: 'h
  network_configuration :: 'h
  database :: 'h

record ('h, 'w) import_queue_params =
  iq_block_import :: 'h
  iq_justification_import :: "'h option"
  iq_client :: 'h
  iq_inherent_data_providers :: "'w \<Rightarrow> ('h \<times> 'h) \<times> 'w"
  iq_spawner :: 'h
  iq_can_author_with :: 'h
  iq_registry :: "'h option"
  iq_check_for_equivocation :: 'h
  iq_telemetry :: "'h option"

record ('h, 'ep) build_network_params =
  bn_config :: "('h, 'ep) configuration"
  bn_client :: 'h
  bn_transaction_pool :: 'h
  bn_spawn_handle :: 'h
  bn_import_queue :: 'h
  bn_block_announce_validator_builder :: "'h option"
  bn_warp_sync :: "'h option"

record ('h, 'ep) spawn_tasks_params =
  st_network :: 'h
  st_client :: 'h
  st_keystore :: 'h
  st_task_manager :: 'h
  st_transaction_pool :: 'h
  st_rpc_extensions_builder :: "'h \<Rightarrow> 'h"
  st_backend :: 'h
  st_system_rpc_tx :: 'h
  st_config :: "('h, 'ep) configuration"
  st_telemetry :: "'h option"

record ('h, 'w) start_aura_params =
  sa_slot_duration :: 'h
  sa_client :: 'h
  sa_select_chain :: 'h
  sa_block_import :: 'h
  sa_proposer_factory :: 'h
  sa_inherent_data_providers :: "'w \<Rightarrow> ('h \<times> 'h) \<times> 'w"
  sa_force_authoring :: bool
  sa_backoff_authoring_blocks :: "unit option"
  sa_keystore :: 'h
  sa_can_author_with :: 'h
  sa_sync_oracle :: 'h
  sa_justification_sync_link :: 'h
  sa_block_proposal_slot_portion :: 'h
  sa_max_block_proposal_slot_portion :: "'h option"
  sa_telemetry :: "'h option"

text \<open>\<^verbatim>\<open>sc_finality_grandpa::Config\<close> and \<^verbatim>\<open>GrandpaParams\<close>; the duration is in milliseconds.\<close>

record 'h grandpa_config =
  gossip_duration :: u64
  justification_period :: u32
  grandpa_name :: "string option"
  observer_enabled :: bool
  grandpa_keystore :: "'h option"
  local_role :: 'h
  grandpa_telemetry :: "'h option"
  protocol_name :: 'h

record 'h grandpa_params =
  gp_config :: "'h grandpa_config"
  gp_link :: 'h
  gp_network :: 'h
  gp_voting_rule :: 'h
  gp_prometheus_registry :: "'h option"
  gp_shared_voter_state :: 'h
  gp_telemetry :: "'h option"

section \<open>What the code calls\<close>

text \<open>
  Constructors that only wrap their arguments are functions; the others act on the world.
  \<open>SlotProportion_new S n m\<close> is \<^verbatim>\<open>SlotProportion::new\<close> of the quotient \<open>n / m\<close> in single precision.
\<close>

record ('h, 'ep, 'w, 'e) service_ops =
  is_authority :: "'h \<Rightarrow> bool"
  endpoints_is_empty :: "'ep \<Rightarrow> bool"
  TelemetryWorker_new :: "nat \<Rightarrow> 'w \<Rightarrow> ('e + 'h) \<times> 'w"
  handle_new_telemetry :: "'h \<Rightarrow> 'ep \<Rightarrow> 'w \<Rightarrow> 'h \<times> 'w"
  telemetry_handle :: "'h \<Rightarrow> 'h"
  worker_run :: "'h \<Rightarrow> 'h"
  NativeElseWasmExecutor_new :: "'h \<Rightarrow> u64 option \<Rightarrow> nat \<Rightarrow> u8 \<Rightarrow> 'h"
  new_full_parts :: "('h, 'ep) configuration \<Rightarrow> 'h option \<Rightarrow> 'h \<Rightarrow> 'w \<Rightarrow> ('e + 'h \<times> 'h \<times> 'h \<times> 'h) \<times> 'w"
  spawn_handle :: "'h \<Rightarrow> 'h"
  spawn_essential_handle :: "'h \<Rightarrow> 'h"
  LongestChain_new :: "'h \<Rightarrow> 'h"
  BasicPool_new_full :: "'h \<Rightarrow> bool \<Rightarrow> 'h option \<Rightarrow> 'h \<Rightarrow> 'h \<Rightarrow> 'w \<Rightarrow> 'h \<times> 'w"
  grandpa_block_import :: "'h \<Rightarrow> 'h \<Rightarrow> 'h \<Rightarrow> 'h option \<Rightarrow> 'w \<Rightarrow> ('e + 'h \<times> 'h) \<times> 'w"
  aura_slot_duration :: "'h \<Rightarrow> 'w \<Rightarrow> ('e + 'h) \<times> 'w"
  raw_slot_duration :: "'h \<Rightarrow> 'h"
  timestamp_from_system_time :: "'w \<Rightarrow> 'h \<times> 'w"
  slot_from_timestamp_and_duration :: "'h \<Rightarrow> 'h \<Rightarrow> 'h"
  client_executor :: "'h \<Rightarrow> 'h"
  CanAuthorWithNativeVersion_new :: "'h \<Rightarrow> 'h"
  check_for_equivocation_default :: 'h
  aura_import_queue :: "('h, 'w) import_queue_params \<Rightarrow> 'w \<Rightarrow> ('e + 'h) \<times> 'w"
  block_hash :: "'h \<Rightarrow> u32 \<Rightarrow> 'w \<Rightarrow> ('e + 'h option) \<times> 'w"
  protocol_standard_name :: "'h \<Rightarrow> 'h \<Rightarrow> 'h"
  build_network :: "('h, 'ep) build_network_params \<Rightarrow> 'w \<Rightarrow> ('e + 'h \<times> 'h \<times> 'h) \<times> 'w"
  build_offchain_workers :: "('h, 'ep) configuration \<Rightarrow> 'h \<Rightarrow> 'h \<Rightarrow> 'h \<Rightarrow> 'w \<Rightarrow> 'h option \<times> 'w"
  sync_keystore :: "'h \<Rightarrow> 'h"
  spawn_tasks :: "('h, 'ep) spawn_tasks_params \<Rightarrow> 'w \<Rightarrow> ('e + 'h) \<times> 'w"
  ProposerFactory_new :: "'h \<Rightarrow> 'h \<Rightarrow> 'h \<Rightarrow> 'h option \<Rightarrow> 'h option \<Rightarrow> 'h"
  SlotProportion_new :: "nat \<Rightarrow> nat \<Rightarrow> 'h"
  start_aura :: "('h, 'w) start_aura_params \<Rightarrow> 'w \<Rightarrow> ('e + 'h) \<times> 'w"
  voting_rules_default :: 'h
  SharedVoterState_empty :: 'h
  run_grandpa_voter :: "'h grandpa_params \<Rightarrow> 'w \<Rightarrow> ('e + 'h) \<times> 'w"
  start_network :: "'h \<Rightarrow> 'w \<Rightarrow> unit \<times> 'w"
  IoHandler_default :: 'h
  extend_with :: "'h \<Rightarrow> 'h \<Rightarrow> 'h"
  FullSystem_new :: "'h \<Rightarrow> 'h \<Rightarrow> 'h \<Rightarrow> 'h"
  SystemApi_to_delegate :: "'h \<Rightarrow> 'h"
  TransactionPayment_new :: "'h \<Rightarrow> 'h"
  TransactionPaymentApi_to_delegate :: "'h \<Rightarrow> 'h"

section \<open>RPC extensions\<close>

record 'h full_deps =
  fd_client :: 'h
  fd_pool :: 'h
  fd_deny_unsafe :: 'h

definition create_full :: "('h, 'ep, 'w, 'e) service_ops \<Rightarrow> 'h full_deps \<Rightarrow> 'h" where
  "create_full S deps =
     (let io = IoHandler_default S;
          client = fd_client deps; pool = fd_pool deps; deny_unsafe = fd_deny_unsafe deps;
          io = extend_with S io (SystemApi_to_delegate S (FullSystem_new S client pool deny_unsafe));
          io = extend_with S io (TransactionPaymentApi_to_delegate S (TransactionPayment_new S client))
      in io)"

section \<open>The partial node\<close>

record 'h partial_components =
  pc_client :: 'h
  pc_backend :: 'h
  pc_task_manager :: 'h
  pc_import_queue :: 'h
  pc_keystore_container :: 'h
  pc_select_chain :: 'h
  pc_transaction_pool :: 'h
  pc_block_import :: 'h
  pc_grandpa_link :: 'h
  pc_telemetry :: "'h option"

text \<open>The closure that gives a block its inherents: the time and the slot that belongs to it.\<close>

definition create_inherent_data_providers ::
    "('h, 'ep, 'w, 'e) service_ops \<Rightarrow> 'h \<Rightarrow> 'w \<Rightarrow> ('h \<times> 'h) \<times> 'w" where
  "create_inherent_data_providers S slot_duration w =
     (case timestamp_from_system_time S w of (timestamp, w1) \<Rightarrow>
      let slot = slot_from_timestamp_and_duration S timestamp slot_duration
      in ((timestamp, slot), w1))"

text \<open>The telemetry, if there are endpoints: \<^verbatim>\<open>filter\<close>, \<^verbatim>\<open>map\<close> and \<^verbatim>\<open>transpose\<close> with \<^verbatim>\<open>?\<close>.\<close>

definition new_telemetry ::
    "('h, 'ep, 'w, 'e) service_ops \<Rightarrow> ('h, 'ep) configuration \<Rightarrow> ('h, 'w) node \<Rightarrow>
     ('e service_error + ('h \<times> 'h) option) \<times> ('h, 'w) node" where
  "new_telemetry S config s =
     (case telemetry_endpoints config of
        None \<Rightarrow> (Inr None, s)
      | Some endpoints \<Rightarrow>
          if endpoints_is_empty S endpoints then (Inr None, s)
          else
            case attempt (TelemetryWorker_new S 16) s of
              (Inl e, s1) \<Rightarrow> (Inl e, s1)
            | (Inr worker, s1) \<Rightarrow>
                case on_world (handle_new_telemetry S worker endpoints) s1 of
                  (telemetry, s2) \<Rightarrow> (Inr (Some (worker, telemetry)), s2))"

definition new_partial ::
    "('h, 'ep, 'w, 'e) service_ops \<Rightarrow> ('h, 'ep) configuration \<Rightarrow> ('h, 'w) node \<Rightarrow>
     ('e service_error + 'h partial_components) \<times> ('h, 'w) node" where
  "new_partial S config s =
     (if keystore_remote config \<noteq> None
      then (Inl (Other ''Remote Keystores are not supported.''), s) else
      case new_telemetry S config s of (Inl e, s1) \<Rightarrow> (Inl e, s1) | (Inr telemetry, s1) \<Rightarrow>
      let executor = NativeElseWasmExecutor_new S (wasm_method config) (default_heap_pages config)
            (max_runtime_instances config) (runtime_cache_size config) in
      case attempt (new_full_parts S config
             (map_option (\<lambda>(_, telemetry). telemetry_handle S telemetry) telemetry) executor) s1 of
        (Inl e, s2) \<Rightarrow> (Inl e, s2)
      | (Inr (client, backend, keystore_container, task_manager), s2) \<Rightarrow>
      let s3 = (case telemetry of None \<Rightarrow> s2 | Some (worker, _) \<Rightarrow>
            spawn \<lparr>task_essential = False, task_blocking = False, task_name = ''telemetry'',
                   task_group = None, task_future = worker_run S worker\<rparr> s2);
          telemetry = map_option snd telemetry;
          select_chain = LongestChain_new S backend in
      case on_world (BasicPool_new_full S (transaction_pool_options config)
             (is_authority S (role config)) (prometheus_registry config)
             (spawn_essential_handle S task_manager) client) s3 of (transaction_pool, s4) \<Rightarrow>
      case attempt (grandpa_block_import S client client select_chain
             (map_option (telemetry_handle S) telemetry)) s4 of
        (Inl e, s5) \<Rightarrow> (Inl e, s5)
      | (Inr (block_import, grandpa_link), s5) \<Rightarrow>
      case attempt (aura_slot_duration S client) s5 of
        (Inl e, s6) \<Rightarrow> (Inl e, s6)
      | (Inr duration, s6) \<Rightarrow>
      let slot_duration = raw_slot_duration S duration in
      case attempt (aura_import_queue S
             \<lparr>iq_block_import = block_import, iq_justification_import = Some block_import,
              iq_client = client,
              iq_inherent_data_providers = create_inherent_data_providers S slot_duration,
              iq_spawner = spawn_essential_handle S task_manager,
              iq_can_author_with = CanAuthorWithNativeVersion_new S (client_executor S client),
              iq_registry = prometheus_registry config,
              iq_check_for_equivocation = check_for_equivocation_default S,
              iq_telemetry = map_option (telemetry_handle S) telemetry\<rparr>) s6 of
        (Inl e, s7) \<Rightarrow> (Inl e, s7)
      | (Inr import_queue, s7) \<Rightarrow>
      (Inr \<lparr>pc_client = client, pc_backend = backend, pc_task_manager = task_manager,
            pc_import_queue = import_queue, pc_keystore_container = keystore_container,
            pc_select_chain = select_chain, pc_transaction_pool = transaction_pool,
            pc_block_import = block_import, pc_grandpa_link = grandpa_link,
            pc_telemetry = telemetry\<rparr>, s7))"

section \<open>The node\<close>

text \<open>The branch of an authority: it builds the proposer and gives the authoring task to the manager.\<close>

definition start_authoring ::
    "('h, 'ep, 'w, 'e) service_ops \<Rightarrow> ('h, 'ep) configuration \<Rightarrow> 'h partial_components \<Rightarrow> 'h \<Rightarrow>
     ('h, 'w) node \<Rightarrow> ('e service_error + unit) \<times> ('h, 'w) node" where
  "start_authoring S config pc network s =
     (let proposer_factory = ProposerFactory_new S (spawn_handle S (pc_task_manager pc)) (pc_client pc)
            (pc_transaction_pool pc) (prometheus_registry config)
            (map_option (telemetry_handle S) (pc_telemetry pc));
          can_author_with = CanAuthorWithNativeVersion_new S (client_executor S (pc_client pc)) in
      case attempt (aura_slot_duration S (pc_client pc)) s of
        (Inl e, s1) \<Rightarrow> (Inl e, s1)
      | (Inr slot_duration, s1) \<Rightarrow>
      let raw = raw_slot_duration S slot_duration in
      case attempt (start_aura S
             \<lparr>sa_slot_duration = slot_duration, sa_client = pc_client pc,
              sa_select_chain = pc_select_chain pc, sa_block_import = pc_block_import pc,
              sa_proposer_factory = proposer_factory,
              sa_inherent_data_providers = create_inherent_data_providers S raw,
              sa_force_authoring = force_authoring config, sa_backoff_authoring_blocks = None,
              sa_keystore = sync_keystore S (pc_keystore_container pc),
              sa_can_author_with = can_author_with, sa_sync_oracle = network,
              sa_justification_sync_link = network, sa_block_proposal_slot_portion = SlotProportion_new S 2 3,
              sa_max_block_proposal_slot_portion = None,
              sa_telemetry = map_option (telemetry_handle S) (pc_telemetry pc)\<rparr>) s1 of
        (Inl e, s2) \<Rightarrow> (Inl e, s2)
      | (Inr aura, s2) \<Rightarrow>
      (Inr (), spawn \<lparr>task_essential = True, task_blocking = True, task_name = ''aura'',
         task_group = Some ''block-authoring'', task_future = aura\<rparr> s2))"

text \<open>The configuration of the voter: only an authority hands it the key store.\<close>

definition voter_config ::
    "('h, 'ep, 'w, 'e) service_ops \<Rightarrow> ('h, 'ep) configuration \<Rightarrow> 'h partial_components \<Rightarrow> 'h \<Rightarrow>
     'h grandpa_config" where
  "voter_config S config pc protocol =
     (let keystore = (if is_authority S (role config)
            then Some (sync_keystore S (pc_keystore_container pc)) else None)
      in \<lparr>gossip_duration = 333, justification_period = 512, grandpa_name = Some (node_name config),
          observer_enabled = False, grandpa_keystore = keystore, local_role = role config,
          grandpa_telemetry = map_option (telemetry_handle S) (pc_telemetry pc),
          protocol_name = protocol\<rparr>)"

definition start_voter ::
    "('h, 'ep, 'w, 'e) service_ops \<Rightarrow> ('h, 'ep) configuration \<Rightarrow> 'h partial_components \<Rightarrow>
     'h grandpa_config \<Rightarrow> 'h \<Rightarrow> ('h, 'w) node \<Rightarrow> ('e service_error + unit) \<times> ('h, 'w) node" where
  "start_voter S config pc grandpa network s =
     (case attempt (run_grandpa_voter S
             \<lparr>gp_config = grandpa, gp_link = pc_grandpa_link pc, gp_network = network,
              gp_voting_rule = voting_rules_default S,
              gp_prometheus_registry = prometheus_registry config,
              gp_shared_voter_state = SharedVoterState_empty S,
              gp_telemetry = map_option (telemetry_handle S) (pc_telemetry pc)\<rparr>) s of
        (Inl e, s1) \<Rightarrow> (Inl e, s1)
      | (Inr voter, s1) \<Rightarrow>
      (Inr (), spawn \<lparr>task_essential = True, task_blocking = True, task_name = ''grandpa-voter'',
         task_group = None, task_future = voter\<rparr> s1))"

text \<open>The builder of the RPC extensions: it never fails, whatever the caller may use.\<close>

definition rpc_extensions_builder ::
    "('h, 'ep, 'w, 'e) service_ops \<Rightarrow> 'h \<Rightarrow> 'h \<Rightarrow> 'h \<Rightarrow> 'h" where
  "rpc_extensions_builder S client pool deny_unsafe =
     create_full S \<lparr>fd_client = client, fd_pool = pool, fd_deny_unsafe = deny_unsafe\<rparr>"

definition start_node ::
    "('h, 'ep, 'w, 'e) service_ops \<Rightarrow> ('h, 'ep) configuration \<Rightarrow> ('h, 'w) node \<Rightarrow>
     ('e service_error + 'h) \<times> ('h, 'w) node" where
  "start_node S config s =
     (case new_partial S config s of (Inl e, s1) \<Rightarrow> (Inl e, s1) | (Inr pc, s1) \<Rightarrow>
      case on_world (block_hash S (pc_client pc) 0) s1 of (hash, s2) \<Rightarrow>
      case (case hash of Inl _ \<Rightarrow> None | Inr h \<Rightarrow> h) of
        None \<Rightarrow> (Inl (Panic ''Genesis block exists; qed''), s2)
      | Some genesis_hash \<Rightarrow>
      let protocol = protocol_standard_name S genesis_hash (chain_spec config) in
      case attempt (build_network S
             \<lparr>bn_config = config, bn_client = pc_client pc,
              bn_transaction_pool = pc_transaction_pool pc,
              bn_spawn_handle = spawn_handle S (pc_task_manager pc),
              bn_import_queue = pc_import_queue pc, bn_block_announce_validator_builder = None,
              bn_warp_sync = None\<rparr>) s2 of
        (Inl e, s3) \<Rightarrow> (Inl e, s3)
      | (Inr (network, system_rpc_tx, network_starter), s3) \<Rightarrow>
      let s4 = (if offchain_worker_enabled config
            then snd (on_world (build_offchain_workers S config (spawn_handle S (pc_task_manager pc))
                   (pc_client pc) network) s3)
            else s3) in
      case attempt (spawn_tasks S
             \<lparr>st_network = network, st_client = pc_client pc,
              st_keystore = sync_keystore S (pc_keystore_container pc),
              st_task_manager = pc_task_manager pc, st_transaction_pool = pc_transaction_pool pc,
              st_rpc_extensions_builder =
                rpc_extensions_builder S (pc_client pc) (pc_transaction_pool pc),
              st_backend = pc_backend pc, st_system_rpc_tx = system_rpc_tx, st_config = config,
              st_telemetry = pc_telemetry pc\<rparr>) s4 of
        (Inl e, s5) \<Rightarrow> (Inl e, s5)
      | (Inr _, s5) \<Rightarrow>
      case (if is_authority S (role config) then start_authoring S config pc network s5
            else (Inr (), s5)) of
        (Inl e, s6) \<Rightarrow> (Inl e, s6)
      | (Inr _, s6) \<Rightarrow>
      let grandpa = voter_config S config pc protocol in
      case (if \<not> disable_grandpa config then start_voter S config pc grandpa network s6
            else (Inr (), s6)) of
        (Inl e, s7) \<Rightarrow> (Inl e, s7)
      | (Inr _, s7) \<Rightarrow>
      case on_world (start_network S network_starter) s7 of (_, s8) \<Rightarrow>
      (Inr (pc_task_manager pc), s8\<lparr>networks := networks s8 @ [network_starter]\<rparr>))"

end
