(* ===== verification/Node_Command.thy ===== *)
theory Node_Command
  imports Node_Service
begin

text \<open>
  The command line of the node, \<^verbatim>\<open>node/src/cli.rs\<close> and \<^verbatim>\<open>node/src/command.rs\<close>: the subcommands and what
  running them calls. Parsing the arguments, the runner and the subcommands themselves are the
  framework's. The subcommand \<^verbatim>\<open>Benchmark\<close> belongs to a build feature that is off by default.
  \<^verbatim>\<open>load_spec\<close> is with the chain specification.
\<close>

section \<open>The command line\<close>

datatype 'cmd subcommand =
    Key 'cmd
  | BuildSpec 'cmd
  | CheckBlock 'cmd
  | ExportBlocks 'cmd
  | ExportState 'cmd
  | ImportBlocks 'cmd
  | PurgeChain 'cmd
  | Revert 'cmd

record 'cmd cli =
  cli_subcommand :: "'cmd subcommand option"
  cli_run :: 'cmd

text \<open>\<^verbatim>\<open>sc_cli::Error\<close>: an error of the service, or one of the command line itself.\<close>

datatype 'e cli_error = Service "'e service_error" | CommandLine 'e

text \<open>
  What the code calls: \<open>sync_run\<close>, \<open>async_run\<close> and \<open>run_node_until_exit\<close> are the methods of the runner
  \<open>'r\<close>, which give a closure the configuration; the others are the \<^verbatim>\<open>run\<close> methods of the subcommands,
  the asynchronous ones as the future they return.
\<close>

record ('cmd, 'r, 'h, 'ep, 'w, 'e) command_ops =
  from_args :: "'w \<Rightarrow> 'cmd cli \<times> 'w"
  create_runner :: "'cmd cli \<Rightarrow> 'cmd \<Rightarrow> 'w \<Rightarrow> ('e + 'r) \<times> 'w"
  sync_run :: "'r \<Rightarrow> (('h, 'ep) configuration \<Rightarrow> ('h, 'w) node \<Rightarrow> ('e cli_error + unit) \<times> ('h, 'w) node) \<Rightarrow>
     ('h, 'w) node \<Rightarrow> ('e cli_error + unit) \<times> ('h, 'w) node"
  async_run :: "'r \<Rightarrow> (('h, 'ep) configuration \<Rightarrow> ('h, 'w) node \<Rightarrow> ('e cli_error + 'h \<times> 'h) \<times> ('h, 'w) node) \<Rightarrow>
     ('h, 'w) node \<Rightarrow> ('e cli_error + unit) \<times> ('h, 'w) node"
  run_node_until_exit ::
    "'r \<Rightarrow> (('h, 'ep) configuration \<Rightarrow> ('h, 'w) node \<Rightarrow> ('e cli_error + 'h) \<times> ('h, 'w) node) \<Rightarrow>
     ('h, 'w) node \<Rightarrow> ('e cli_error + unit) \<times> ('h, 'w) node"
  Key_run :: "'cmd \<Rightarrow> 'cmd cli \<Rightarrow> 'w \<Rightarrow> ('e + unit) \<times> 'w"
  BuildSpec_run :: "'cmd \<Rightarrow> 'h \<Rightarrow> 'h \<Rightarrow> 'w \<Rightarrow> ('e + unit) \<times> 'w"
  CheckBlock_run :: "'cmd \<Rightarrow> 'h \<Rightarrow> 'h \<Rightarrow> 'h"
  ExportBlocks_run :: "'cmd \<Rightarrow> 'h \<Rightarrow> 'h \<Rightarrow> 'h"
  ExportState_run :: "'cmd \<Rightarrow> 'h \<Rightarrow> 'h \<Rightarrow> 'h"
  ImportBlocks_run :: "'cmd \<Rightarrow> 'h \<Rightarrow> 'h \<Rightarrow> 'h"
  PurgeChain_run :: "'cmd \<Rightarrow> 'h \<Rightarrow> 'w \<Rightarrow> ('e + unit) \<times> 'w"
  Revert_run :: "'cmd \<Rightarrow> 'h \<Rightarrow> 'h \<Rightarrow> 'h"

section \<open>What the command line says of itself\<close>

text \<open>\<^verbatim>\<open>env!\<close> reads a variable of the build.\<close>

definition impl_name :: string where "impl_name = ''Massbit Node''"
definition impl_version :: "(string \<Rightarrow> string) \<Rightarrow> string" where "impl_version env = env ''SUBSTRATE_CLI_IMPL_VERSION''"
definition description :: "(string \<Rightarrow> string) \<Rightarrow> string" where "description env = env ''CARGO_PKG_DESCRIPTION''"
definition author :: "(string \<Rightarrow> string) \<Rightarrow> string" where "author env = env ''CARGO_PKG_AUTHORS''"
definition support_url :: string where
  "support_url = ''https://github.com/massbitprotocol/massbit-verification/issue/new''"
definition copyright_start_year :: "32 word" where "copyright_start_year = 2022"

text \<open>The version of the native runtime is asked of the Polkadot command line.\<close>

definition native_runtime_version :: "('spec \<Rightarrow> 'version) \<Rightarrow> 'spec \<Rightarrow> 'version" where
  "native_runtime_version polkadot_native_runtime_version spec = polkadot_native_runtime_version spec"

section \<open>Running it\<close>

definition cli_attempt ::
    "('w \<Rightarrow> ('e + 'x) \<times> 'w) \<Rightarrow> ('h, 'w) node \<Rightarrow> ('e cli_error + 'x) \<times> ('h, 'w) node" where
  "cli_attempt f s = (case on_world f s of (r, s') \<Rightarrow> (map_sum CommandLine id r, s'))"

text \<open>\<^verbatim>\<open>let PartialComponents { .. } = service::new_partial(&config)?\<close>, then the future of the subcommand.\<close>

definition with_components ::
    "('h, 'ep, 'w, 'e) service_ops \<Rightarrow> (('h, 'ep) configuration \<Rightarrow> 'h partial_components \<Rightarrow> 'h) \<Rightarrow>
     ('h, 'ep) configuration \<Rightarrow> ('h, 'w) node \<Rightarrow> ('e cli_error + 'h \<times> 'h) \<times> ('h, 'w) node" where
  "with_components S future config s =
     (case new_partial S config s of
        (Inl e, s1) \<Rightarrow> (Inl (Service e), s1)
      | (Inr pc, s1) \<Rightarrow> (Inr (future config pc, pc_task_manager pc), s1))"

definition run_subcommand ::
    "('cmd, 'r, 'h, 'ep, 'w, 'e) command_ops \<Rightarrow> ('h, 'ep, 'w, 'e) service_ops \<Rightarrow> 'cmd cli \<Rightarrow>
     'cmd subcommand \<Rightarrow> ('h, 'w) node \<Rightarrow> ('e cli_error + unit) \<times> ('h, 'w) node" where
  "run_subcommand C S cli sub s =
     (let runner = (\<lambda>cmd k. case cli_attempt (create_runner C cli cmd) s of
            (Inl e, s1) \<Rightarrow> (Inl e, s1) | (Inr runner, s1) \<Rightarrow> k runner s1) in
      case sub of
        Key cmd \<Rightarrow> cli_attempt (Key_run C cmd cli) s
      | BuildSpec cmd \<Rightarrow> runner cmd (\<lambda>r. sync_run C r
          (\<lambda>config. cli_attempt (BuildSpec_run C cmd (chain_spec config) (network_configuration config))))
      | CheckBlock cmd \<Rightarrow> runner cmd (\<lambda>r. async_run C r
          (with_components S (\<lambda>_ pc. CheckBlock_run C cmd (pc_client pc) (pc_import_queue pc))))
      | ExportBlocks cmd \<Rightarrow> runner cmd (\<lambda>r. async_run C r
          (with_components S (\<lambda>config pc. ExportBlocks_run C cmd (pc_client pc) (database config))))
      | ExportState cmd \<Rightarrow> runner cmd (\<lambda>r. async_run C r
          (with_components S (\<lambda>config pc. ExportState_run C cmd (pc_client pc) (chain_spec config))))
      | ImportBlocks cmd \<Rightarrow> runner cmd (\<lambda>r. async_run C r
          (with_components S (\<lambda>_ pc. ImportBlocks_run C cmd (pc_client pc) (pc_import_queue pc))))
      | PurgeChain cmd \<Rightarrow> runner cmd (\<lambda>r. sync_run C r
          (\<lambda>config. cli_attempt (PurgeChain_run C cmd (database config))))
      | Revert cmd \<Rightarrow> runner cmd (\<lambda>r. async_run C r
          (with_components S (\<lambda>_ pc. Revert_run C cmd (pc_client pc) (pc_backend pc)))))"

definition run ::
    "('cmd, 'r, 'h, 'ep, 'w, 'e) command_ops \<Rightarrow> ('h, 'ep, 'w, 'e) service_ops \<Rightarrow> ('h, 'w) node \<Rightarrow>
     ('e cli_error + unit) \<times> ('h, 'w) node" where
  "run C S s =
     (case on_world (from_args C) s of (cli, s1) \<Rightarrow>
      case cli_subcommand cli of
        Some sub \<Rightarrow> run_subcommand C S cli sub s1
      | None \<Rightarrow>
          case cli_attempt (create_runner C cli (cli_run cli)) s1 of
            (Inl e, s2) \<Rightarrow> (Inl e, s2)
          | (Inr runner, s2) \<Rightarrow>
              run_node_until_exit C runner
                (\<lambda>config s. case start_node S config s of (r, s') \<Rightarrow> (map_sum Service id r, s')) s2)"

end
