(* ===== verification/Node_Properties.thy ===== *)
theory Node_Properties
  imports Node_Command "HOL-Library.Sublist"
begin

text \<open>
  What the service of the node does with the framework: the tasks a started node runs, what a failed
  start leaves behind, and an instance of the framework on which it is evaluated.
\<close>

section \<open>Calls of the framework leave the node alone\<close>

text \<open>What a task is known by.\<close>

definition task_kind :: "'h task \<Rightarrow> string \<times> bool \<times> bool" where
  "task_kind t = (task_name t, task_essential t, task_blocking t)"

definition kinds :: "('h, 'w) node \<Rightarrow> (string \<times> bool \<times> bool) list" where
  "kinds s = map task_kind (tasks s)"

lemma spawn_node [simp]:
  "kinds (spawn t s) = kinds s @ [task_kind t]" "networks (spawn t s) = networks s"
  by (simp_all add: kinds_def spawn_def)

lemma on_world_node: "on_world f s = (r, s') \<Longrightarrow> kinds s' = kinds s \<and> networks s' = networks s"
  by (auto simp: on_world_def kinds_def split: prod.splits)

lemma attempt_node: "attempt f s = (r, s') \<Longrightarrow> kinds s' = kinds s \<and> networks s' = networks s"
  by (auto simp: attempt_def dest: on_world_node split: prod.splits)

section \<open>The partial node\<close>

definition telemetry_wanted :: "('h, 'ep, 'w, 'e) service_ops \<Rightarrow> ('h, 'ep) configuration \<Rightarrow> bool" where
  "telemetry_wanted S config =
     (case telemetry_endpoints config of None \<Rightarrow> False | Some x \<Rightarrow> \<not> endpoints_is_empty S x)"

definition telemetry_tasks ::
    "('h, 'ep, 'w, 'e) service_ops \<Rightarrow> ('h, 'ep) configuration \<Rightarrow> (string \<times> bool \<times> bool) list" where
  "telemetry_tasks S config = (if telemetry_wanted S config then [(''telemetry'', False, False)] else [])"

lemma new_telemetry_node:
  assumes "new_telemetry S config s = (r, s')"
  shows "kinds s' = kinds s \<and> networks s' = networks s \<and>
    (\<forall>telemetry. r = Inr telemetry \<longrightarrow> (telemetry \<noteq> None \<longleftrightarrow> telemetry_wanted S config))"
  using assms
  by (auto simp: new_telemetry_def telemetry_wanted_def
      split: option.splits if_splits sum.splits prod.splits dest!: attempt_node on_world_node)

text \<open>
  The tasks after a step that spawns \<open>new\<close> if it succeeds: all of them, or, when it fails, the first
  few of them. No network is started, except, where \<open>net\<close> says so, one by a step that succeeds.
\<close>

definition spawns ::
    "bool \<Rightarrow> (string \<times> bool \<times> bool) list \<Rightarrow> ('h, 'w) node \<Rightarrow> ('err + 'r) \<times> ('h, 'w) node \<Rightarrow> bool" where
  "spawns net new s out \<longleftrightarrow>
     (case out of
        (Inr _, s') \<Rightarrow> kinds s' = kinds s @ new \<and>
          (if net then \<exists>x. networks s' = networks s @ [x] else networks s' = networks s)
      | (Inl _, s') \<Rightarrow> networks s' = networks s \<and> (\<exists>p. kinds s' = kinds s @ p \<and> prefix p new))"

lemma spawns_Inl: "kinds s' = kinds s \<Longrightarrow> networks s' = networks s \<Longrightarrow> spawns net new s (Inl e, s')"
  by (simp add: spawns_def)

lemma spawns_Inr: "kinds s' = kinds s @ new \<Longrightarrow> networks s' = networks s \<Longrightarrow> spawns False new s (Inr r, s')"
  by (simp add: spawns_def)

lemma spawns_attempt: "spawns False [] s (attempt f s)"
  by (cases "attempt f s") (auto simp: spawns_def dest: attempt_node split: sum.splits)

lemma spawns_after:
  assumes "kinds s1 = kinds s @ new1" "networks s1 = networks s" "spawns net new2 s1 out"
  shows "spawns net (new1 @ new2) s out"
  using assms by (cases out; cases "fst out") (auto simp: spawns_def)

text \<open>A step whose error is returned, followed by the rest.\<close>

lemma spawns_bind:
  assumes out: "spawns False new1 s out" and k: "\<And>r s1. spawns net new2 s1 (k r s1)"
  shows "spawns net (new1 @ new2) s (case out of (Inl e, s1) \<Rightarrow> (Inl e, s1) | (Inr r, s1) \<Rightarrow> k r s1)"
proof (cases out)
  case (Pair r s1)
  show ?thesis
  proof (cases r)
    case (Inl e)
    with out Pair show ?thesis by (auto simp: spawns_def intro: prefix_prefix)
  next
    case (Inr x)
    then have "kinds s1 = kinds s @ new1" "networks s1 = networks s"
      using out Pair by (auto simp: spawns_def)
    then show ?thesis using spawns_after [OF _ _ k] Pair Inr by simp
  qed
qed

lemmas spawns_attempt_bind = spawns_bind [OF spawns_attempt, simplified]

lemma spawns_world:
  assumes "\<And>r s1. spawns net new s1 (k r s1)"
  shows "spawns net new s (case on_world f s of (r, s1) \<Rightarrow> k r s1)"
proof (cases "on_world f s")
  case (Pair r s1)
  then show ?thesis
    using spawns_after [of s1 s "[]" net new "k r s1"] assms [of s1 r] on_world_node [OF Pair] by simp
qed

lemma spawns_start:
  assumes "\<And>s. kinds (start s) = kinds s @ new" "\<And>s. networks (start s) = networks s"
    "\<And>r s1. spawns net [] s1 (k r s1)"
  shows "spawns net new s (case on_world f (start s) of (r, s1) \<Rightarrow> k r s1)"
  using spawns_after [OF assms(1,2) spawns_world [OF assms(3)]] by simp

lemma spawns_prod: "(\<And>a b. spawns net new s (f a b)) \<Longrightarrow> spawns net new s (case x of (a, b) \<Rightarrow> f a b)"
  by (cases x) simp

lemma spawns_if:
  assumes "c \<Longrightarrow> spawns False new s out"
  shows "spawns False (if c then new else []) s (if c then out else (Inr r, s))"
  using assms by (simp add: spawns_Inr)

lemmas spawns_rules = spawns_world spawns_attempt_bind spawns_prod

lemma new_partial_spawns:
  fixes S :: "('h, 'ep, 'w, 'e) service_ops"
  shows "spawns False (telemetry_tasks S config) s (new_partial S config s)"
proof (cases "keystore_remote config")
  case (Some remote)
  then show ?thesis by (simp add: new_partial_def spawns_Inl)
next
  case None
  obtain r s1 where tel: "new_telemetry S config s = (r, s1)" by (metis surj_pair)
  note node = new_telemetry_node [OF tel]
  show ?thesis
  proof (cases r)
    case (Inl e)
    then show ?thesis using node None tel by (simp add: new_partial_def spawns_Inl)
  next
    case (Inr telemetry)
    define start where "start s2 = (case telemetry of None \<Rightarrow> s2 | Some (worker, _) \<Rightarrow>
        spawn \<lparr>task_essential = False, task_blocking = False, task_name = ''telemetry'',
               task_group = None, task_future = worker_run S worker\<rparr> s2)" for s2 :: "('h, 'w) node"
    have start: "kinds (start s2) = kinds s2 @ telemetry_tasks S config" "networks (start s2) = networks s2" for s2
      using node Inr by (auto simp: start_def telemetry_tasks_def task_kind_def split: option.splits)
    have "spawns False (telemetry_tasks S config) s1 (new_partial S config s)"
      unfolding new_partial_def None tel Inr Let_def if_False option.simps not_not simp_thms prod.case sum.case
      by (rule spawns_attempt_bind)
        (rule spawns_prod, rule spawns_prod, rule spawns_prod, rule spawns_start [OF start [unfolded start_def]],
         (rule spawns_rules)+, simp add: spawns_Inr)
    then show ?thesis using spawns_after [of s1 s "[]"] node by simp
  qed
qed

section \<open>The node\<close>

lemma start_authoring_spawns: "spawns False [(''aura'', True, True)] s (start_authoring S config pc network s)"
  unfolding start_authoring_def Let_def
  by (rule spawns_attempt_bind, rule spawns_attempt_bind) (simp add: spawns_Inr task_kind_def)

lemma start_voter_spawns: "spawns False [(''grandpa-voter'', True, True)] s (start_voter S config pc grandpa network s)"
  unfolding start_voter_def
  by (rule spawns_attempt_bind) (simp add: spawns_Inr task_kind_def)

definition node_tasks ::
    "('h, 'ep, 'w, 'e) service_ops \<Rightarrow> ('h, 'ep) configuration \<Rightarrow> (string \<times> bool \<times> bool) list" where
  "node_tasks S config = telemetry_tasks S config @
     (if is_authority S (role config) then [(''aura'', True, True)] else []) @
     (if \<not> disable_grandpa config then [(''grandpa-voter'', True, True)] else [])"

lemma start_network_spawns:
  "spawns True [] s (case on_world (start_network S starter) s of
     (_, s1) \<Rightarrow> (Inr tm, s1\<lparr>networks := networks s1 @ [starter]\<rparr>))"
  by (rule spawns_world) (simp add: spawns_def kinds_def)

lemma spawns_effect:
  assumes "spawns net new (if c then snd (on_world f s) else s) out"
  shows "spawns net new s out"
  using spawns_after [of _ s "[]" net new out] assms on_world_node [of f s] by (cases "on_world f s") (simp split: if_splits)

lemma start_node_spawns: "spawns True (node_tasks S config) s (start_node S config s)"
  unfolding start_node_def node_tasks_def
proof (rule spawns_bind [OF new_partial_spawns], rule spawns_world, goal_cases)
  case (1 pc s1 hash s2)
  show ?case
  proof (cases "case hash of Inl _ \<Rightarrow> None | Inr h \<Rightarrow> h")
    case (Some genesis_hash)
    show ?thesis
      unfolding Some option.case Let_def
      by (rule spawns_attempt_bind, rule spawns_prod, rule spawns_prod, rule spawns_effect,
          rule spawns_attempt_bind, rule spawns_bind [OF spawns_if [OF start_authoring_spawns]],
          rule spawns_bind [OF spawns_if [OF start_voter_spawns] start_network_spawns, simplified append_Nil2])
  qed (simp add: spawns_Inl)
qed

section \<open>A start in which the framework does its part\<close>

definition services_available :: "('h, 'ep, 'w, 'e) service_ops \<Rightarrow> bool" where
  "services_available S \<longleftrightarrow>
     (\<forall>n w. \<not> isl (fst (TelemetryWorker_new S n w))) \<and>
     (\<forall>c t x w. \<not> isl (fst (new_full_parts S c t x w))) \<and>
     (\<forall>a b c t w. \<not> isl (fst (grandpa_block_import S a b c t w))) \<and>
     (\<forall>c w. \<not> isl (fst (aura_slot_duration S c w))) \<and>
     (\<forall>p w. \<not> isl (fst (aura_import_queue S p w))) \<and>
     (\<forall>c w. \<exists>h. fst (block_hash S c 0 w) = Inr (Some h)) \<and>
     (\<forall>p w. \<not> isl (fst (build_network S p w))) \<and>
     (\<forall>p w. \<not> isl (fst (spawn_tasks S p w))) \<and>
     (\<forall>p w. \<not> isl (fst (start_aura S p w))) \<and>
     (\<forall>p w. \<not> isl (fst (run_grandpa_voter S p w)))"

definition succeeds :: "('err + 'r) \<times> 's \<Rightarrow> bool" where
  "succeeds out \<longleftrightarrow> \<not> isl (fst out)"

lemma succeeds_Inr [simp]: "succeeds (Inr r, s)"
  by (simp add: succeeds_def)

lemma succeeds_attempt:
  assumes "\<And>w. \<not> isl (fst (f w))"
  shows "succeeds (attempt f s)"
proof (cases "f (world s)")
  case (Pair r w)
  with assms [of "world s"] show ?thesis
    by (cases r) (simp_all add: succeeds_def attempt_def on_world_def)
qed

lemma succeeds_bind:
  assumes "succeeds out" "\<And>r s1. succeeds (k r s1)"
  shows "succeeds (case out of (Inl e, s1) \<Rightarrow> (Inl e, s1) | (Inr r, s1) \<Rightarrow> k r s1)"
  using assms by (cases out; cases "fst out") (auto simp: succeeds_def)

lemma succeeds_prod: "(\<And>a b. succeeds (f a b)) \<Longrightarrow> succeeds (case x of (a, b) \<Rightarrow> f a b)"
  by (cases x) simp

lemma succeeds_if: "succeeds out \<Longrightarrow> succeeds (if c then out else (Inr r, s))"
  by simp

lemmas succeeds_rules = succeeds_bind [OF succeeds_attempt] succeeds_prod succeeds_Inr

lemma availableD:
  assumes "services_available S"
  shows "\<not> isl (fst (TelemetryWorker_new S n w))" "\<not> isl (fst (new_full_parts S c t x w))"
    "\<not> isl (fst (grandpa_block_import S h1 h2 h3 t w))" "\<not> isl (fst (aura_slot_duration S h1 w))"
    "\<not> isl (fst (aura_import_queue S q w))" "\<not> isl (fst (build_network S bn w))"
    "\<not> isl (fst (spawn_tasks S st w))" "\<not> isl (fst (start_aura S sa w))"
    "\<not> isl (fst (run_grandpa_voter S gp w))" "\<exists>h. fst (block_hash S h1 0 w) = Inr (Some h)"
  using assms unfolding services_available_def by simp_all

lemma new_partial_succeeds:
  assumes "services_available S" "keystore_remote config = None"
  shows "succeeds (new_partial S config s)"
proof -
  have tel: "succeeds (new_telemetry S config s)"
    unfolding new_telemetry_def
    by (cases "telemetry_endpoints config")
      (simp_all, intro impI, (rule succeeds_rules | rule availableD [OF assms(1)])+)
  show ?thesis
    unfolding new_partial_def assms(2) Let_def simp_thms if_False
    by (rule succeeds_bind [OF tel]) (rule succeeds_rules availableD [OF assms(1)])+
qed

lemma start_node_succeeds:
  assumes "services_available S" "keystore_remote config = None"
  shows "succeeds (start_node S config s)"
proof -
  have author: "succeeds (start_authoring S config pc network t)" for pc network t
    unfolding start_authoring_def Let_def by (rule succeeds_rules availableD [OF assms(1)])+
  have voter: "succeeds (start_voter S config pc grandpa network t)" for pc grandpa network t
    unfolding start_voter_def by (rule succeeds_rules availableD [OF assms(1)])+
  show ?thesis
    unfolding start_node_def Let_def
  proof (rule succeeds_bind [OF new_partial_succeeds [OF assms]], goal_cases)
    case (1 pc s1)
    obtain h where "fst (block_hash S (pc_client pc) 0 (world s1)) = Inr (Some h)"
      using availableD(10) [OF assms(1)] by blast
    then obtain s2 where hash: "on_world (block_hash S (pc_client pc) 0) s1 = (Inr (Some h), s2)"
      by (cases "block_hash S (pc_client pc) 0 (world s1)") (simp add: on_world_def)
    show ?case
      unfolding hash prod.case sum.case option.case
      by (rule succeeds_rules availableD [OF assms(1)] succeeds_bind [OF succeeds_if [OF author]]
          succeeds_bind [OF succeeds_if [OF voter]])+
  qed
qed

section \<open>Sample\<close>

text \<open>
  An instance in which an object is the name of the call that made it, the world is the list of the
  calls that reached it, and every call succeeds. The telemetry endpoints are a list.
\<close>

definition logged :: "string \<Rightarrow> 'r \<Rightarrow> string list \<Rightarrow> 'r \<times> string list" where
  "logged name r w = (r, w @ [name])"

definition sample_service :: "(string, string list, string list, string) service_ops" where
  "sample_service =
     \<lparr>is_authority = (\<lambda>r. r = ''authority''), endpoints_is_empty = (\<lambda>x. x = []),
      TelemetryWorker_new = (\<lambda>n. logged ''telemetry worker'' (Inr ''worker'')),
      handle_new_telemetry = (\<lambda>_ _. logged ''telemetry'' ''telemetry''),
      telemetry_handle = (\<lambda>h. h), worker_run = (\<lambda>h. h),
      NativeElseWasmExecutor_new = (\<lambda>_ _ _ _. ''executor''),
      new_full_parts = (\<lambda>_ _ _. logged ''full parts'' (Inr (''client'', ''backend'', ''keystore'', ''manager''))),
      spawn_handle = (\<lambda>h. h), spawn_essential_handle = (\<lambda>h. h),
      LongestChain_new = (\<lambda>_. ''select chain''),
      BasicPool_new_full = (\<lambda>_ _ _ _ _. logged ''pool'' ''pool''),
      grandpa_block_import = (\<lambda>_ _ _ _. logged ''block import'' (Inr (''block import'', ''link''))),
      aura_slot_duration = (\<lambda>_. logged ''slot duration'' (Inr ''duration'')),
      raw_slot_duration = (\<lambda>h. h),
      timestamp_from_system_time = logged ''time'' ''time'',
      slot_from_timestamp_and_duration = (\<lambda>_ _. ''slot''),
      client_executor = (\<lambda>h. h), CanAuthorWithNativeVersion_new = (\<lambda>h. h),
      check_for_equivocation_default = ''check'',
      aura_import_queue = (\<lambda>_. logged ''import queue'' (Inr ''import queue'')),
      block_hash = (\<lambda>_ _ w. (Inr (Some ''genesis''), w)),
      protocol_standard_name = (\<lambda>_ _. ''protocol''),
      build_network = (\<lambda>_. logged ''network'' (Inr (''network'', ''rpc'', ''starter''))),
      build_offchain_workers = (\<lambda>_ _ _ _. logged ''offchain'' None),
      sync_keystore = (\<lambda>h. h),
      spawn_tasks = (\<lambda>_. logged ''tasks'' (Inr ''handlers'')),
      ProposerFactory_new = (\<lambda>_ _ _ _ _. ''proposer''),
      SlotProportion_new = (\<lambda>_ _. ''portion''),
      start_aura = (\<lambda>_. logged ''aura'' (Inr ''aura'')),
      voting_rules_default = ''rules'', SharedVoterState_empty = ''state'',
      run_grandpa_voter = (\<lambda>_. logged ''voter'' (Inr ''voter'')),
      start_network = (\<lambda>_. logged ''start network'' ()),
      IoHandler_default = [], extend_with = (\<lambda>io d. io @ d),
      FullSystem_new = (\<lambda>_ _ _. ''system''), SystemApi_to_delegate = (\<lambda>h. h),
      TransactionPayment_new = (\<lambda>_. ''payment''), TransactionPaymentApi_to_delegate = (\<lambda>h. h)\<rparr>"

lemma sample_available: "services_available sample_service"
  by (simp add: services_available_def sample_service_def logged_def)

definition sample_configuration :: "(string, string list) configuration" where
  "sample_configuration =
     \<lparr>keystore_remote = None, telemetry_endpoints = Some [], wasm_method = ''compiled'',
      default_heap_pages = None, max_runtime_instances = 8, runtime_cache_size = 2,
      transaction_pool_options = ''options'', prometheus_registry = None, role = ''authority'',
      offchain_worker_enabled = False, force_authoring = False, node_name = ''Alice'',
      disable_grandpa = False, chain_spec = ''dev'', network_configuration = ''network'',
      database = ''db''\<rparr>"

definition sample_node :: "(string, string list) node" where
  "sample_node = \<lparr>world = [], tasks = [], networks = []\<rparr>"

section \<open>Properties\<close>

text \<open>
  C35. Starting the node. When \<^verbatim>\<open>start_node\<close> returns the task manager, the tasks it was given are, in
  this order, the telemetry worker if there are endpoints, the essential and blocking authoring task if the
  node is an authority, and the essential and blocking voter unless GRANDPA is switched off, and one network has
  been started. When it returns an error, no network has been started and the tasks given so far
  are a first part of these. When no remote key store is configured and the framework's parts can be
  built, it does not return an error.
\<close>

theorem node_outcome:
  assumes "start_node S config s = (r, s')"
  shows "(case r of
      Inr _ \<Rightarrow> (\<exists>x. networks s' = networks s @ [x]) \<and>
        kinds s' = kinds s @ telemetry_tasks S config @
          (if is_authority S (role config) then [(''aura'', True, True)] else []) @
          (if \<not> disable_grandpa config then [(''grandpa-voter'', True, True)] else [])
    | Inl _ \<Rightarrow> networks s' = networks s \<and> (\<exists>p. kinds s' = kinds s @ p \<and> prefix p (node_tasks S config))) \<and>
    (services_available S \<and> keystore_remote config = None \<longrightarrow> \<not> isl r)"
  using start_node_spawns [of S config s] start_node_succeeds [of S config s] assms
  by (cases r) (auto simp: spawns_def node_tasks_def succeeds_def simp del: append_assoc)

theorem node_outcome_witness:
  "\<exists>tm s' x. start_node sample_service sample_configuration sample_node = (Inr tm, s') \<and>
     kinds s' = [(''aura'', True, True), (''grandpa-voter'', True, True)] \<and> networks s' = [x]"
proof -
  obtain r s' where start: "start_node sample_service sample_configuration sample_node = (r, s')"
    by (metis surj_pair)
  show ?thesis
    using node_outcome [OF start] sample_available start
    by (cases r) (auto simp: sample_configuration_def sample_node_def sample_service_def kinds_def
        telemetry_tasks_def telemetry_wanted_def)
qed

section \<open>The command line\<close>

text \<open>
  The runner, \<^verbatim>\<open>sc_cli::Runner\<close>, gives the closure the configuration it was made for and returns the
  closure's error, if there is one.
\<close>

definition runner_laws ::
    "('cmd, 'r, 'h, 'ep, 'w, 'e) command_ops \<Rightarrow> ('r \<Rightarrow> ('h, 'ep) configuration) \<Rightarrow> bool" where
  "runner_laws C config_of \<longleftrightarrow>
     (\<forall>r f s e s'. f (config_of r) s = (Inl e, s') \<longrightarrow> async_run C r f s = (Inl e, s')) \<and>
     (\<forall>r f s e s'. f (config_of r) s = (Inl e, s') \<longrightarrow> run_node_until_exit C r f s = (Inl e, s'))"

text \<open>The command whose runner builds the components of the node, if there is one.\<close>

definition component_command :: "'cmd cli \<Rightarrow> 'cmd option" where
  "component_command cli =
     (case cli_subcommand cli of
        None \<Rightarrow> Some (cli_run cli)
      | Some (CheckBlock cmd) \<Rightarrow> Some cmd
      | Some (ExportBlocks cmd) \<Rightarrow> Some cmd
      | Some (ExportState cmd) \<Rightarrow> Some cmd
      | Some (ImportBlocks cmd) \<Rightarrow> Some cmd
      | Some (Revert cmd) \<Rightarrow> Some cmd
      | _ \<Rightarrow> None)"

lemma remote_refused:
  assumes "keystore_remote config \<noteq> None"
  shows "with_components S future config s =
      (Inl (Service (Other ''Remote Keystores are not supported.'')), s)"
    "start_node S config s = (Inl (Other ''Remote Keystores are not supported.''), s)"
  using assms by (auto simp: with_components_def start_node_def new_partial_def)

text \<open>
  C36. A remote key store is refused by every command that builds the node: checking, exporting and
  importing blocks, exporting the state, reverting, and running the node. Once its runner is made, the command returns
  the error of the service; nothing else has happened, and no task and no network has been started.
\<close>

theorem remote_keystore_refused:
  assumes "runner_laws C config_of" "from_args C (world s) = (cli, w1)"
    and "component_command cli = Some cmd" "create_runner C cli cmd w1 = (Inr r, w2)"
    and "keystore_remote (config_of r) \<noteq> None"
  shows "run C S s = (Inl (Service (Other ''Remote Keystores are not supported.'')), s\<lparr>world := w2\<rparr>)"
proof -
  have args: "on_world (from_args C) s = (cli, s\<lparr>world := w1\<rparr>)"
    using assms(2) by (simp add: on_world_def)
  have runner: "cli_attempt (create_runner C cli cmd) (s\<lparr>world := w1\<rparr>) = (Inr r, s\<lparr>world := w2\<rparr>)"
    using assms(4) by (simp add: cli_attempt_def on_world_def)
  note async = conjunct1 [OF assms(1) [unfolded runner_laws_def], rule_format]
    and node = conjunct2 [OF assms(1) [unfolded runner_laws_def], rule_format]
  have "async_run C r (with_components S future) t =
      (Inl (Service (Other ''Remote Keystores are not supported.'')), t)" for future t
    by (rule async) (rule remote_refused(1) [OF assms(5)])
  moreover have "run_node_until_exit C r
      (\<lambda>config s. case start_node S config s of (r, s') \<Rightarrow> (map_sum Service id r, s')) t =
      (Inl (Service (Other ''Remote Keystores are not supported.'')), t)" for t
    by (rule node) (simp add: remote_refused(2) [OF assms(5)])
  ultimately show ?thesis
    using assms(3) args runner
    by (auto simp: run_def run_subcommand_def component_command_def Let_def
        split: option.splits subcommand.splits)
qed

definition sample_command :: "(string, unit, string, string list, string list, string) command_ops" where
  "sample_command =
     \<lparr>from_args = logged ''arguments'' \<lparr>cli_subcommand = Some (Revert ''5''), cli_run = ''run''\<rparr>,
      create_runner = (\<lambda>_ _. logged ''runner'' (Inr ())),
      sync_run = (\<lambda>_ f. f (sample_configuration\<lparr>keystore_remote := Some ''url''\<rparr>)),
      async_run = (\<lambda>_ f s. case f (sample_configuration\<lparr>keystore_remote := Some ''url''\<rparr>) s of
        (r, s') \<Rightarrow> (map_sum id (\<lambda>_. ()) r, s')),
      run_node_until_exit = (\<lambda>_ f s. case f (sample_configuration\<lparr>keystore_remote := Some ''url''\<rparr>) s of
        (r, s') \<Rightarrow> (map_sum id (\<lambda>_. ()) r, s')),
      Key_run = (\<lambda>_ _. logged ''key'' (Inr ())), BuildSpec_run = (\<lambda>_ _ _. logged ''spec'' (Inr ())),
      CheckBlock_run = (\<lambda>_ _ _. ''check''), ExportBlocks_run = (\<lambda>_ _ _. ''export''),
      ExportState_run = (\<lambda>_ _ _. ''state''), ImportBlocks_run = (\<lambda>_ _ _. ''import''),
      PurgeChain_run = (\<lambda>_ _. logged ''purge'' (Inr ())), Revert_run = (\<lambda>_ _ _. ''revert'')\<rparr>"

theorem remote_keystore_refused_witness:
  "run sample_command sample_service sample_node =
     (Inl (Service (Other ''Remote Keystores are not supported.'')),
      sample_node\<lparr>world := [''arguments'', ''runner'']\<rparr>)"
proof -
  have "runner_laws sample_command (\<lambda>_. sample_configuration\<lparr>keystore_remote := Some ''url''\<rparr>)"
    by (simp add: runner_laws_def sample_command_def)
  then show ?thesis
    by (rule remote_keystore_refused [where cli = "\<lparr>cli_subcommand = Some (Revert ''5''), cli_run = ''run''\<rparr>"
        and cmd = "''5''" and r = "()"])
      (simp_all add: sample_command_def sample_node_def sample_configuration_def logged_def component_command_def)
qed

end
