(* ===== verification/Spec2Isabelle.thy ===== *)
theory Spec2Isabelle
  imports Validator_Properties Era_Properties Call_Properties Bounds_Properties Runtime_Config
    Provider_Register Node_Properties
begin

text \<open>
  A verification of the Massbit chain: a Substrate node whose runtime lets providers of blockchain
  APIs register, lets token holders stake on them, and pays block rewards and the fees of the projects
  that use the APIs to operators and stakers.

  \<^bold>\<open>The program and its theories.\<close> Paths are relative to \<^verbatim>\<open>src/\<close>.

  \<^item> \<open>Prelude\<close>: machine words with the saturating and checked operations of Rust, the result of an
    extrinsic (an error or success, with the storage), sums over the values of a map, and the
    locale \<open>invariant_system\<close>, in which invariants of step relations are proved once.
  \<^item> \<open>Staker_Info\<close> (\<^verbatim>\<open>pallets/dapi-staking/src/lib.rs\<close>): \<^verbatim>\<open>StakerInfo\<close>, the compressed history of one
    account's stake on one provider, with \<^verbatim>\<open>stake\<close>, \<^verbatim>\<open>unstake\<close> and \<^verbatim>\<open>claim\<close>. The locale
    \<open>stake_history\<close> is the abstract reading of a history, a function from eras to amounts.
  \<^item> \<open>Unbonding\<close> (same file): \<^verbatim>\<open>UnbondingInfo\<close>, the queue of withdrawals an account waits for, with the
    binary search of the standard library that its insertion uses, and \<^verbatim>\<open>AccountLedger\<close>. The locale
    \<open>unbonding_queue\<close> is its contract.
  \<^item> \<open>Frame\<close>: the operations of the framework as records of functions, and the documented laws the
    theorems use. Nothing of the framework is defined.
  \<^item> \<open>Staking\<close> (\<^verbatim>\<open>pallets/dapi-staking/src/pallet/mod.rs\<close>): the storage of the staking pallet as the
    record \<open>staking\<close> and every extrinsic, hook and helper as a function on it. \<open>Staking_Steps\<close> has what
    each successful and each refused call does, and the step relation \<open>staking_step\<close>.
    \<open>Staking_Ledger\<close>, \<open>Staking_Bounds\<close>, \<open>Staking_Locks\<close>, \<open>Staking_Shares\<close>, \<open>Staking_Eras\<close>,
    \<open>Staking_Claims\<close>, \<open>Staking_Payouts\<close> and \<open>Staking_Liveness\<close> have the invariants: the books of the accounts, the sizes of the storage, the locks in the
    currency, the totals of the providers, the totals of an era, what is paid only
    once, what an era pays in all, and what a staker can get done. \<open>Staking_Properties\<close>, \<open>Bounds_Properties\<close>, \<open>Staking_Outcomes\<close> and \<open>Era_Properties\<close> hold the
    theorems about the pallet.
  \<^item> \<open>Dapi\<close> (\<^verbatim>\<open>pallets/dapi/src/lib.rs\<close>, \<^verbatim>\<open>types.rs\<close>): projects, providers, regulators and chain ids.
    \<open>Dapi_Steps\<close> has its steps and the locale \<open>dapi_staking\<close>, the contract of the trait
    \<^verbatim>\<open>DapiStaking\<close> through which the pallet reaches the staking pallet; \<open>Staking_Trait\<close> shows that the
    staking pallet fulfils it.
  \<^item> \<open>Block_Reward\<close> (\<^verbatim>\<open>pallets/block-reward/src/lib.rs\<close>): the issue and the division of the reward of a
    block; the locale \<open>beneficiary_payout\<close> is the contract of the trait \<^verbatim>\<open>BeneficiaryPayout\<close>.
  \<^item> \<open>Validator_Set\<close> and \<open>Validator_Properties\<close> (\<^verbatim>\<open>pallets/validator-set/src/lib.rs\<close>): candidates and
    sessions. The pallet is not part of the local runtime.
  \<^item> \<open>Runtime\<close> (\<^verbatim>\<open>runtime/local/src/lib.rs\<close>): the constants, the configuration of the three pallets, the
    handlers between them, and the runtime as the step relation \<open>runtime_step\<close>; the interfaces are
    interpreted on the configured pallets.
  \<^item> \<open>Weights\<close> (\<^verbatim>\<open>weights.rs\<close> of the two pallets): what the extrinsics are charged.
  \<^item> \<open>Calls\<close> and \<open>Call_Properties\<close>: the calls of the runtime as data, their dispatch and their weight,
    and the execution of calls, hooks and time stamps one after the other, which is the same as a
    run of the step relation; what the weights pay for.
  \<^item> \<open>Provider_Register\<close>: the register of providers the dApi pallet and the staking pallet keep together,
    as an abstract machine with a guard and an effect for each call, which the calls of the runtime
    refine; and registrations that fail half way.
  \<^item> \<open>Chain_Spec\<close> (\<^verbatim>\<open>node/src/local/chain_spec.rs\<close>, and \<^verbatim>\<open>load_spec\<close> of \<^verbatim>\<open>node/src/command.rs\<close>): the
    specification and the genesis of the development chain; a failed assertion of a pallet, also of
    the framework's, is a failed genesis.
  \<^item> \<open>Runtime_Config\<close> (\<^verbatim>\<open>runtime/local/src/lib.rs\<close>): the version, the constants of the framework's
    pallets, the order of the time stamp handlers, the runtime interfaces, the dispatch of the
    benchmarks, and the documented laws of the genesis of the framework's pallets.
  \<^item> \<open>Node_Service\<close> (\<^verbatim>\<open>node/src/local/service.rs\<close>, \<^verbatim>\<open>node/src/rpc.rs\<close>): building the parts of the node
    and starting it, as a sequence of calls of the framework with every error path, on a state that
    records the tasks and the networks started. \<open>Node_Command\<close> (\<^verbatim>\<open>node/src/cli.rs\<close>, \<^verbatim>\<open>command.rs\<close>): the
    subcommands. \<open>Node_Properties\<close>: what is started, and what is not when something fails.
  \<^item> \<open>Sample\<close> and \<open>Sample_Runtime\<close>: a small framework in which the laws hold, with runs of the pallet and
    of the runtime; the theorems are applied to them at concrete inputs.
  \<^item> \<open>Spec2Isabelle\<close> (this theory): the theorems about the runtime as a whole.

  \<^bold>\<open>How code and model correspond.\<close> A storage map is a partial function and a storage value a field;
  \<^verbatim>\<open>ValueQuery\<close> getters read a missing entry as the default. An extrinsic takes the configuration,
  the origin, its arguments and the storage, and gives an error or success with the storage it
  leaves, whether it succeeds or not: the framework of this version does not roll back. Balances
  are 128-bit words, eras and block numbers 32-bit words; \<open>+\<close> wraps where the code may wrap, and
  \<open>saturating_add\<close>, \<open>saturating_sub\<close> and \<open>checked_add\<close> are written where the code has them. A panic
  of the hook (a period of zero blocks) and a failed assertion of a genesis are \<open>None\<close>. An imbalance
  that goes out of scope is handed to \<open>drop_imbalance\<close>.

  \<^bold>\<open>What is shown.\<close> For the staking pallet: the locked balance of an account is at all times what it
  has staked plus what it waits for; the totals rewards are divided by are the sums of the stakes;
  the totals of an era are the sums of all stakes and all locked balances, as long as these fit
  into a balance; the shares claimed of an era never exceed its total, and no era is paid twice,
  neither to a staker nor to an operator; a past era never changes, and everything paid for it is
  no more than it collected, up to the rounding of the payments; a staker with a live history can claim everything that is due
  and get out of a provider that has left; the currency holds on every account exactly the lock its
  ledger names; histories, queues and counters stay within the limits of the configuration; each call has exactly the effect it promises; histories
  and queues refine their abstract readings. For the runtime: every run is on the staking state a run of the staking
  pallet, so its invariants hold with the constants of the runtime; the registers of the two
  pallets agree, and together they refine one register of providers that says who may do what to a
  provider in which status; an active provider can leave; the storage is within its bounds; block rewards and project payments are booked without
  loss; the storage of the development chain is built, with its accounts funded, where the derived
  accounts are distinct; the weights of the
  staking calls cover what they write. For the node: a started node runs exactly the tasks of its
  role, a failed start leaves the network down, and no command that builds the node accepts a remote key store. Four theorems show flaws: anybody can become a regulator, a history can get stuck with
  the stake behind it, a registration can fail half way, and such a provider can never be activated
  nor its deposit be returned.

  \<^bold>\<open>Loops and bounds.\<close> Every loop of the code is a structural recursion or has a termination proof
  (the binary search, by the size of the interval); no fuel is used. The step relations take a new
  era only while the era counter is below its maximum: 32 bits of eras are not exhausted.

  \<^bold>\<open>Not modelled.\<close> The framework itself (currency, \<^verbatim>\<open>Perbill\<close>, origins, storage iteration, executive,
  consensus) is a parameter. Of the configuration of its own pallets the constants are here; what
  it says by types only has no counterpart. Of the node, the parts it is built from are parameters as well; a task or a network
  is recorded as started, not run. Mocks, benchmarks and build scripts are not part of the program;
  the benchmarks call an older interface of the pallets.
\<close>

section \<open>The runtime as a whole\<close>

definition runtime_reachable ::
    "('o, 'a, 'c, 'i, 'b, 'e) framework \<Rightarrow> ('a, 'c, 'b) runtime \<Rightarrow> bool" where
  "runtime_reachable F t \<longleftrightarrow> (\<exists>regulators c. (runtime_step F)\<^sup>*\<^sup>* (runtime_genesis F regulators c) t)"

lemma reachable_ok:
  assumes "runtime_reachable F t" "runtime_laws F"
  shows "runtime_ok t"
proof -
  obtain regulators c where "(runtime_step F)\<^sup>*\<^sup>* (runtime_genesis F regulators c) t"
    using assms(1) unfolding runtime_reachable_def by auto
  then show ?thesis using runtime_runs.run_invar runtime_genesis_ok assms(2) by metis
qed

lemma runtime_run_staking:
  assumes "(runtime_step F)\<^sup>*\<^sup>* t t'" "on_unbalanced_laws F"
  shows "(staking_step (staking_runtime F))\<^sup>*\<^sup>* (rt_staking t) (rt_staking t')"
  using assms(1)
proof (induction rule: rtranclp_induct)
  case (step u v)
  then show ?case using runtime_step_run [OF step(2) assms(2)] by (blast intro: rtranclp_trans)
qed simp

lemma reachable_staking:
  assumes "runtime_reachable F t" "runtime_laws F"
  shows "staking_reachable (staking_runtime F) (rt_staking t)"
proof -
  obtain regulators c where "(runtime_step F)\<^sup>*\<^sup>* (runtime_genesis F regulators c) t"
    using assms(1) unfolding runtime_reachable_def by auto
  then have "(staking_step (staking_runtime F))\<^sup>*\<^sup>* (rt_staking (runtime_genesis F regulators c)) (rt_staking t)"
    using assms(2) by (intro runtime_run_staking) (simp_all add: runtime_laws_def)
  moreover have "rt_staking (runtime_genesis F regulators c) = genesis c"
    by (simp add: rt_staking_def runtime_genesis_def dapi_genesis_def)
  ultimately show ?thesis unfolding staking_reachable_def by auto
qed

lemma sample_runtime_reachable:
  "runtime_reachable sample_framework sample_project" "runtime_reachable sample_framework sample_active"
  "runtime_reachable sample_framework sample_half"
  using sample_project_run sample_active_run sample_half_run
  unfolding runtime_reachable_def sample_genesis_def by blast+

text \<open>
  In every reachable state of the runtime, with its own constants, the locked balance of every
  account is what it has staked plus what is unbonding, and for every active provider the total of
  the current era is the sum of the stakes on it.
\<close>

theorem runtime_accounts:
  assumes "runtime_reachable F t" "runtime_laws F"
  shows "unat (locked (ledger (rt_staking t) a)) =
      staked_by (rt_staking t) a + chunk_total (unbonding (ledger (rt_staking t) a)) \<and>
    (is_active_provider p (rt_staking t) \<longrightarrow>
      unat (psi_total (provider_stake (rt_staking t) p (CurrentEra (rt_staking t)))) =
        staked_on (rt_staking t) p)"
proof -
  note D = shares_okD [OF conjunct1 [OF reachable_ok [OF assms, unfolded runtime_ok_def]]]
  show ?thesis using books_balanceD(6) [OF D(1)] D(3) by (simp add: totals_ok_def)
qed

text \<open>
  C12. The storage of the runtime is well formed in every reachable state. Every chain id, of a project,
  of a provider or in the set of known ones, has at most 64 bytes. A stake history has fewer than five
  entries and an unbonding queue at most two chunks, none of them empty; a provider has at most 512
  stakers in an era; and nobody has staked less than 10 MBT on a provider unless nothing.
\<close>

theorem runtime_storage_typed:
  assumes "runtime_reachable F t" "runtime_laws F" "try_into_laws F"
  shows "(\<forall>k \<in> ChainIds (rt_dapi t). length k \<le> 64) \<and>
    (\<forall>prj. Projects (rt_dapi t) p = Some prj \<longrightarrow> length (prj_chain_id prj) \<le> 64) \<and>
    (\<forall>prv. Providers (rt_dapi t) p = Some prv \<longrightarrow> length (prv_chain_id prv) \<le> 64) \<and>
    length (stakes (staker_info_of (rt_staking t) a p)) < 5 \<and>
    length (unlocking_chunks (unbonding (ledger (rt_staking t) a))) \<le> 2 \<and>
    (\<forall>c \<in> set (unlocking_chunks (unbonding (ledger (rt_staking t) a))). 0 < chunk_amount c) \<and>
    psi_number_of_stakers (provider_stake (rt_staking t) p e) \<le> 512 \<and>
    (latest_staked_value (staker_info_of (rt_staking t) a p) = 0 \<or>
     10 * MBT \<le> latest_staked_value (staker_info_of (rt_staking t) a p))"
proof -
  obtain regulators c where run: "(runtime_step F)\<^sup>*\<^sup>* (runtime_genesis F regulators c) t"
    using assms(1) unfolding runtime_reachable_def by auto
  have "chain_ids_ok (\<lambda>k. length k \<le> 64) (rt_dapi t)"
    using runtime_chain_ids.run_invar [OF run] assms(3)
    by (simp add: chain_ids_ok_def runtime_genesis_def dapi_genesis_def)
  moreover have "storage_bounded (staking_runtime F) (rt_staking t)"
    using reachable_sized [OF reachable_staking [OF assms(1,2)] runtime_bounds_allow] by (rule sizedD)
  ultimately show ?thesis
    by (simp add: chain_ids_ok_def storage_bounded_def info_bounded_def queue_bounded_def
        staking_runtime_def)
qed

theorem runtime_storage_typed_witness:
  "length (prv_chain_id (the (Providers (rt_dapi sample_active) sample_id))) \<le> 64 \<and>
   10 * MBT \<le> latest_staked_value (staker_info_of (rt_staking sample_active) 5 sample_id)"
proof -
  have "latest_staked_value (staker_info_of (rt_staking sample_active) 5 sample_id) \<noteq> 0"
    by (simp add: rt_staking_def sample_active_def sample_project_def dapi_eval staking_eval)
  moreover have "try_into_laws sample_framework" by (simp add: try_into_laws_def sample_framework_def)
  ultimately show ?thesis
    using runtime_storage_typed [OF sample_runtime_reachable(2) sample_runtime_laws, of sample_id 5]
      sample_active_state by simp
qed

section \<open>Providers\<close>

text \<open>
  C11. The registers of the two pallets agree in every reachable state: a provider the dApi pallet does
  not know is unknown to the staking pallet; one that has left the state of being merely registered
  is known there under the same operator; one that is active is active there, and one that is
  inactive is not active there.
\<close>

theorem registers_agree:
  assumes "runtime_reachable F t" "runtime_laws F"
  shows "case Providers (rt_dapi t) p of
      None \<Rightarrow> RegisteredProviders (rt_staking t) p = None
    | Some prv \<Rightarrow>
        (prv_state prv \<noteq> DRegistered \<longrightarrow>
          (\<exists>info. RegisteredProviders (rt_staking t) p = Some info \<and> pi_operator info = prv_operator prv)) \<and>
        (prv_state prv = DActive \<longrightarrow> is_active_provider p (rt_staking t)) \<and>
        (prv_state prv = DInActive \<longrightarrow> \<not> is_active_provider p (rt_staking t))"
proof -
  have "agree (Providers (rt_dapi t) p) (operator_of (rt_staking t) p) (active_in (rt_staking t) p)"
    using reachable_ok [OF assms] by (simp add: runtime_ok_def coherent_def rt_staking_def)
  then show ?thesis
    by (auto simp: agree_def operator_of_def active_in_def split: option.splits dapi_provider_state.splits)
qed

theorem registers_agree_witness:
  "prv_state (the (Providers (rt_dapi sample_active) sample_id)) = DActive \<and>
   is_active_provider sample_id (rt_staking sample_active)"
  using registers_agree [OF sample_runtime_reachable(2) sample_runtime_laws, of sample_id]
  by (simp add: sample_active_state)




text \<open>
  C40. A registration that failed half way is final. When a provider is pending and the staking pallet
  already has an entry for it, as a deposit leaves it that is refused after the entry was made, then in
  every later state the provider is still pending and still entered under its operator; every further
  deposit for it is refused, so it never becomes active; it cannot be unregistered or reported; and
  neither its operator can take back the deposit nor a staker the stake by the withdrawals from
  unregistered providers.
\<close>

theorem half_registered_for_good:
  assumes "runtime_reachable F t" "runtime_laws F" "(runtime_step F)\<^sup>*\<^sup>* t t'"
    and "Providers (rt_dapi t) p = Some prv" "prv_state prv = DRegistered"
    and "RegisteredProviders (rt_staking t) p \<noteq> None"
  shows "Providers (rt_dapi t') p = Some prv \<and>
    (\<exists>info. RegisteredProviders (rt_staking t') p = Some info \<and> pi_operator info = prv_operator prv) \<and>
    (\<forall>origin v. \<not> fst (runtime_dispatch F origin (Dapi (Deposit_provider p v)) t')) \<and>
    (\<forall>origin. \<not> fst (runtime_dispatch F origin (Dapi (Unregister_provider p)) t')) \<and>
    (\<forall>origin reason. \<not> fst (runtime_dispatch F origin (Dapi (Report_provider_offence p reason)) t')) \<and>
    (\<forall>origin. \<not> fst (runtime_dispatch F origin (DapiStaking (Withdraw_from_unregistered_operator p)) t')) \<and>
    (\<forall>origin. \<not> fst (runtime_dispatch F origin (DapiStaking (Withdraw_from_unregistered_staker p)) t'))"
proof -
  have "agree (Some prv) (operator_of (rt_staking t) p) (active_in (rt_staking t) p)"
    using reachable_ok [OF assms(1,2)] assms(4) by (metis runtime_ok_def coherent_def rt_staking_def)
  then have "half_registered p prv t"
    using assms(4-6) by (auto simp: half_registered_def entered_under_def agree_def operator_of_def)
  then have half: "half_registered p prv t'"
    using half_way.run_invar [OF assms(3)] assms(2) by (simp add: runtime_laws_def)
  have "coherent operator_of active_in (rt_dapi t')"
    using runtime_runs.run_invar [OF assms(3)] reachable_ok [OF assms(1,2)] assms(2) by (simp add: runtime_ok_def)
  note refused = half_registered_refused [OF half this, of F]
  show ?thesis
    using half refused
    by (auto simp: half_registered_def entered_under_def simp del: runtime_dispatch.simps split: option.splits)
qed

theorem half_registered_for_good_witness:
  "Balances (rt_staking sample_half) 5 = 5 * MBT \<and>
   \<not> fst (runtime_dispatch sample_framework (Some 5) (Dapi (Deposit_provider sample_id (200 * MBT)))
      (with_purse (\<lambda>_. 1000000 * MBT) sample_half)) \<and>
   \<not> fst (runtime_dispatch sample_framework (Some 5) (DapiStaking (Withdraw_from_unregistered_operator sample_id))
      (with_purse (\<lambda>_. 1000000 * MBT) sample_half))"
proof -
  have "(runtime_step sample_framework)\<^sup>*\<^sup>* sample_half (with_purse (\<lambda>_. 1000000 * MBT) sample_half)"
    by (intro with_purse_run rtranclp.rtrancl_refl)
  from half_registered_for_good [OF sample_runtime_reachable(3) sample_runtime_laws this sample_half_state(1) _
      sample_half_state(2)]
  show ?thesis using sample_half_state(3) by (simp del: runtime_dispatch.simps)
qed

text \<open>
  C14. An active provider can always leave: in every reachable state \<^verbatim>\<open>unregister_provider\<close> sent by its
  operator succeeds, and afterwards the provider is inactive in the dApi pallet and no longer active
  in the staking pallet.
\<close>

theorem active_provider_can_leave:
  assumes "runtime_reachable F t" "runtime_laws F"
    and prv: "Providers (rt_dapi t) p = Some prv" "prv_state prv = DActive"
    and origin: "ensure_signed (fw_system F) origin = Some (prv_operator prv)"
  shows "\<exists>d. unregister_provider (dapi_runtime F) origin p (rt_dapi t) = (Inr (), d) \<and>
    Providers d p = Some (prv\<lparr>prv_state := DInActive\<rparr>) \<and> \<not> is_active_provider p (World d)"
proof -
  have "coherent operator_of active_in (rt_dapi t)"
    using reachable_ok [OF assms(1,2)] by (simp add: runtime_ok_def)
  then obtain w where "unregister p (World (rt_dapi t)) =
      ((Inr () :: (staking_error, 'f) dispatch_error + unit), w)" "\<not> active_in w p"
    by (rule dapi_in_runtime.active_provider_leaves [OF _ prv])
  then show ?thesis
    using prv origin
    by (simp add: unregister_provider_def dapi_runtime_def dapi_deposit_event_def active_in_def Let_def)
qed

theorem active_provider_can_leave_witness:
  "\<exists>d. unregister_provider (dapi_runtime sample_framework) (Some 5) sample_id (rt_dapi sample_active) =
      (Inr (), d) \<and> \<not> is_active_provider sample_id (World d)"
  using active_provider_can_leave [OF sample_runtime_reachable(2) sample_runtime_laws sample_active_state, of "Some 5"]
  by (auto simp: sample_framework_def sample_system_def)

text \<open>
  C28. The life of a provider has one direction: along every run of the runtime a provider is never
  forgotten, keeps its operator, its type and its chain, and its state only moves from registered
  to active to inactive.
\<close>

theorem provider_life_cycle:
  assumes "(runtime_step F)\<^sup>*\<^sup>* t t'" "Providers (rt_dapi t) p = Some prv"
  shows "\<exists>new. Providers (rt_dapi t') p = Some new \<and> new\<lparr>prv_state := prv_state prv\<rparr> = prv \<and>
    rank (prv_state prv) \<le> rank (prv_state new)"
proof -
  have "providers_later (Providers (rt_dapi t)) (Providers (rt_dapi t'))"
    using assms(1)
  proof (induction rule: rtranclp_induct)
    case (step u v)
    have "providers_later (Providers (rt_dapi u)) (Providers (rt_dapi v))"
      using runtime_step_dapi [OF step(2)] dapi_call_providers_later by (auto simp: providers_later_refl)
    then show ?case using step.IH providers_later_trans by blast
  qed simp
  then show ?thesis using assms(2) by (auto simp: providers_later_def provider_later_def)
qed

theorem provider_life_cycle_witness:
  "\<exists>new. Providers (rt_dapi (on_dapi (unregister_provider (dapi_runtime sample_framework) (Some 5) sample_id)
      sample_active)) sample_id = Some new \<and> 1 \<le> rank (prv_state new)"
proof -
  have "(runtime_step sample_framework)\<^sup>*\<^sup>* sample_active
      (on_dapi (unregister_provider (dapi_runtime sample_framework) (Some 5) sample_id) sample_active)"
    by (intro on_dapi_run rtranclp.rtrancl_refl) (rule dapi_call.intros; assumption)
  from provider_life_cycle [OF this sample_active_state] show ?thesis by auto
qed

text \<open>
  C29. Anybody can take any provider down. The dApi pallet checks for the root origin when a regulator is
  added but drops the result, so in every reachable state an arbitrary origin can make an arbitrary
  account a regulator, and that account can then deactivate every active provider.
\<close>

theorem anyone_can_deactivate:
  assumes "runtime_reachable F t" "runtime_laws F"
    and prv: "Providers (rt_dapi t) p = Some prv" "prv_state prv = DActive"
    and new: "a \<notin> Regulators (rt_dapi t)"
    and origin: "ensure_signed (fw_system F) o2 = Some a"
  shows "\<exists>d1 d2. add_regulator (dapi_runtime F) o1 a (rt_dapi t) = (Inr (), d1) \<and>
    report_provider_offence (dapi_runtime F) o2 p reason d1 = (Inr (), d2) \<and>
    Providers d2 p = Some (prv\<lparr>prv_state := DInActive\<rparr>) \<and> \<not> is_active_provider p (World d2)"
proof -
  have "coherent operator_of active_in (rt_dapi t)"
    using reachable_ok [OF assms(1,2)] by (simp add: runtime_ok_def)
  then obtain w where "unregister p (World (rt_dapi t)) =
      ((Inr () :: (staking_error, 'f) dispatch_error + unit), w)" "\<not> active_in w p"
    by (rule dapi_in_runtime.active_provider_leaves [OF _ prv])
  then show ?thesis
    using prv new origin
    by (simp add: add_regulator_def report_provider_offence_def dapi_runtime_def dapi_deposit_event_def
        active_in_def Let_def)
qed

theorem anyone_can_deactivate_witness:
  "\<exists>d1 d2. add_regulator (dapi_runtime sample_framework) (Some 3) 3 (rt_dapi sample_active) = (Inr (), d1) \<and>
    report_provider_offence (dapi_runtime sample_framework) (Some 3) sample_id OutOfSync d1 = (Inr (), d2) \<and>
    \<not> is_active_provider sample_id (World d2)"
proof -
  have new: "3 \<notin> Regulators (rt_dapi sample_active)"
    by (simp add: sample_active_def sample_project_def dapi_eval staking_eval)
  have "prv_state \<lparr>prv_provider_type = Node, prv_operator = 5::nat, prv_chain_id = [1, 2], prv_state = DActive\<rparr> = DActive"
    by simp
  from anyone_can_deactivate [OF sample_runtime_reachable(2) sample_runtime_laws sample_active_state this new,
      of "Some 3" "Some 3" OutOfSync]
  show ?thesis by (auto simp: sample_framework_def sample_system_def)
qed

section \<open>Projects\<close>

text \<open>
  C27. In every reachable state of the runtime the usage of a project is at most its quota.
\<close>

theorem usage_within_quota:
  assumes "runtime_reachable F t" "runtime_laws F" "Projects (rt_dapi t) p = Some prj"
  shows "prj_usage prj \<le> prj_quota prj"
  using reachable_ok [OF assms(1,2)] assms(3) by (simp add: runtime_ok_def usage_ok_def)

theorem usage_within_quota_witness:
  "Projects (rt_dapi sample_project) sample_id =
     Some \<lparr>prj_consumer = 2, prj_chain_id = [1, 2], prj_quota = 5000, prj_usage = 7\<rparr> \<and>
   (7 :: u128) \<le> 5000"
  using usage_within_quota [OF sample_runtime_reachable(1) sample_runtime_laws sample_project_state]
    sample_project_state by simp

text \<open>
  C23. A successful \<^verbatim>\<open>register_project\<close> enters the project for the sender with a quota of one unit for every
  1/1000 MBT paid and nothing used, and the whole payment is booked as reward for the operators and
  stakers of the current era.
\<close>

theorem project_payment_booked:
  assumes "register_project (dapi_runtime F) origin p chain v (rt_dapi t) = (Inr (), d)"
    and laws: "on_unbalanced_laws F" "perbill_part (fw_perbill F)"
    and currency: "\<And>c a i c'. withdraw (fw_balances F) c a v TRANSFER KeepAlive = (Inr i, c') \<Longrightarrow>
      peek (fw_balances F) i = v"
    and room: "credited (rt_staking t) + unat v < 2 ^ 128"
  shows "\<exists>prj. Projects d p = Some prj \<and> ensure_signed (fw_system F) origin = Some (prj_consumer prj) \<and>
    prj_quota prj = v div MILLIMBT \<and> prj_usage prj = 0 \<and>
    credited (World d) = credited (rt_staking t) + unat v"
proof -
  obtain a k i s where parts: "ensure_signed (fw_system F) origin = Some a"
      "withdraw (DapiCurrency (dapi_runtime F)) (World (rt_dapi t)) a v TRANSFER KeepAlive = (Inr i, s)"
    and d: "World d = OnProjectPayment (dapi_runtime F) i s" "Projects d p = Some
      \<lparr>prj_consumer = a, prj_chain_id = k, prj_quota = calculate_quota v, prj_usage = 0\<rparr>"
    using assms(1) by (auto simp: register_project_def dapi_deposit_event_def Let_def dapi_runtime_def
        split: dapi_splits)
  obtain c where s: "s = (rt_staking t)\<lparr>Balances := c\<rparr>"
      "withdraw (fw_balances F) (Balances (rt_staking t)) a v TRANSFER KeepAlive = (Inr i, c)"
    by (rule withdraw_lifted [OF parts(2)])
  have i: "peek (fw_balances F) i = v" by (rule currency [OF s(2)])
  have same: "credited s = credited (rt_staking t)" by (simp add: s(1) credited_def)
  have "credited (World d) = credited s + unat v"
  proof (cases "v = 0")
    case True
    then show ?thesis using i by (simp add: d(1) payment_eq [OF laws(1)] credited_def)
  next
    case False
    have "credited (rewards (staking_runtime F) i s) = credited s + unat (peek (fw_balances F) i)"
      using rewards_credited [of "staking_runtime F" s i] laws(2) room i same
      by (simp add: staking_runtime_def)
    then show ?thesis using False i by (simp add: d(1) payment_eq [OF laws(1)])
  qed
  with parts(1) d(2) same show ?thesis by (simp add: calculate_quota_def MILLIMBT_def)
qed

theorem project_payment_booked_witness:
  "\<exists>d prj. register_project (dapi_runtime sample_framework) (Some 3) (MassbitId (replicate 36 7)) [1, 2] (2 * MBT)
      (rt_dapi sample_project) = (Inr (), d) \<and> Projects d (MassbitId (replicate 36 7)) = Some prj \<and>
    prj_quota prj = 2000 \<and> credited (World d) = credited (rt_staking sample_project) + unat (2 * MBT)"
proof -
  let ?call = "register_project (dapi_runtime sample_framework) (Some 3) (MassbitId (replicate 36 7)) [1, 2] (2 * MBT)
    (rt_dapi sample_project)"
  have call: "?call = (Inr (), snd ?call)"
    by (simp add: sample_project_def dapi_eval staking_eval)
  have room: "credited (rt_staking sample_project) + unat (2 * MBT) < 2 ^ 128"
    by (simp add: rt_staking_def credited_def sample_project_def dapi_eval staking_eval)
  have "on_unbalanced_laws sample_framework" "perbill_part (fw_perbill sample_framework)"
    using sample_runtime_laws sample_perbill_part by (simp_all add: runtime_laws_def sample_framework_def)
  moreover have "peek (fw_balances sample_framework) i = v"
    if "withdraw (fw_balances sample_framework) c a v TRANSFER KeepAlive = (Inr i, c')" for c a v i c'
    using that by (simp add: sample_framework_def sample_currency_def purse_take_def split: if_splits)
  ultimately obtain prj where prj: "Projects (snd ?call) (MassbitId (replicate 36 7)) = Some prj"
      "prj_quota prj = 2 * MBT div MILLIMBT"
      "credited (World (snd ?call)) = credited (rt_staking sample_project) + unat (2 * MBT)"
    using project_payment_booked [OF call _ _ _ room] by metis
  moreover have "2 * MBT div MILLIMBT = 2000" by (simp add: MBT_def MILLIMBT_def)
  ultimately show ?thesis using call by metis
qed

section \<open>Block rewards\<close>

text \<open>
  C22. Every block books the providers' percentage of the block reward, and nothing else, for the
  operators and stakers of the current era.
\<close>

theorem block_reward_booked:
  assumes "split_laws (fw_balances F)" "perbill_part (fw_perbill F)"
    and issued: "\<And>c v i c'. issue (fw_balances F) c v = (i, c') \<Longrightarrow> peek (fw_balances F) i = v"
    and room: "credited (rt_staking t) + unat (2664 * MILLIMBT) < 2 ^ 128"
  shows "credited (rt_staking (put_block_reward (on_timestamp_set (reward_runtime F) (rt_block_reward t)) t)) =
    credited (rt_staking t) +
    unat (perbill_mul (fw_perbill F) (providers_percent (rt_reward_config t)) (2664 * MILLIMBT))"
proof -
  have fields: "RewardPerbill (reward_runtime F) = fw_perbill F" "RewardAmount (reward_runtime F) = 2664 * MILLIMBT"
    "RewardWorld (rt_block_reward t) = rt_staking t"
    "RewardDistributionConfigStorage (rt_block_reward t) = rt_reward_config t"
    by (simp_all add: reward_runtime_def rt_block_reward_def)
  have split: "split_laws (RewardCurrency (reward_runtime F))"
    using assms(1) by (simp add: split_laws_def reward_runtime_def lift_currency_def)
  have issue: "peek (RewardCurrency (reward_runtime F)) i = RewardAmount (reward_runtime F)"
    if "issue (RewardCurrency (reward_runtime F)) w (RewardAmount (reward_runtime F)) = (i, w')" for w i w'
    using that issued by (auto simp: reward_runtime_def lift_currency_def split: prod.splits)
  have "credited (RewardWorld (on_timestamp_set (reward_runtime F) (rt_block_reward t))) =
      credited (RewardWorld (rt_block_reward t)) + unat (perbill_mul (RewardPerbill (reward_runtime F))
        (providers_percent (RewardDistributionConfigStorage (rt_block_reward t))) (RewardAmount (reward_runtime F)))"
    by (rule payout_in_runtime.block_credit [OF split]) (use assms(2) issue room fields in simp_all)
  then show ?thesis by (simp add: fields)
qed

theorem block_reward_booked_witness:
  "credited (rt_staking (put_block_reward (on_timestamp_set (reward_runtime sample_framework)
      (rt_block_reward sample_genesis)) sample_genesis)) = 2664000000000000000"
proof -
  have start: "credited (rt_staking sample_genesis) = 0" "rt_reward_config sample_genesis =
      \<lparr>providers_percent = 1000000000, validators_percent = 0\<rparr>"
    by (simp_all add: rt_staking_def credited_def dapi_eval staking_eval RewardDistributionConfig_default_def)
  show ?thesis
    using block_reward_booked [of sample_framework sample_genesis] sample_split_laws sample_perbill_part
    by (simp add: start sample_framework_def sample_currency_def sample_perbill_def MILLIMBT_def)
qed

text \<open>
  A reward is divided without loss: the providers get exactly their percentage, the validators
  theirs as far as the rest goes, and the two parts and the dropped remainder add up to the reward.
\<close>

theorem reward_divided:
  assumes "split_laws (RewardCurrency R)" "perbill_part (RewardPerbill R)"
    and "reward_parts R cfg i = (p, v, rest)"
  shows "peek (RewardCurrency R) p =
      perbill_mul (RewardPerbill R) (providers_percent cfg) (peek (RewardCurrency R) i) \<and>
    peek (RewardCurrency R) v \<le>
      perbill_mul (RewardPerbill R) (validators_percent cfg) (peek (RewardCurrency R) i) \<and>
    unat (peek (RewardCurrency R) p) + unat (peek (RewardCurrency R) v) +
      unat (peek (RewardCurrency R) rest) = unat (peek (RewardCurrency R) i)"
  using reward_parts_exact [OF assms] by (simp add: word_le_nat_alt)

text \<open>
  The distribution of block rewards always adds up to one whole: if it does at some point, it does
  after every run of the runtime.
\<close>

theorem reward_config_consistent:
  assumes "(runtime_step F)\<^sup>*\<^sup>* t t'" "is_consistent (fw_perbill F) (rt_reward_config t)"
  shows "is_consistent (fw_perbill F) (rt_reward_config t')"
  using assms
proof (induction rule: rtranclp_induct)
  case (step u v)
  from step.hyps(2) show ?case
  proof (cases rule: runtime_step.cases)
    case (configuration_step origin cfg r b)
    then show ?thesis
      using set_configuration_consistent [OF configuration_step(2)] step.IH step.prems
      by (simp add: put_block_reward_def reward_runtime_def rt_block_reward_def)
  qed (use step.IH step.prems in
      \<open>simp_all add: put_staking_def put_block_reward_def on_timestamp_set_config rt_block_reward_def\<close>)
qed

section \<open>The development chain\<close>

text \<open>
  C30. The development chain starts: with the wasm binary at hand and when the seeds give keys, the
  specification the command line loads under the name \<^verbatim>\<open>dev\<close> gives a genesis configuration. If the
  accounts of the six seeds are distinct, no assertion of a pallet fails and the storage is built from
  it: a genesis state of the runtime, so that every theorem about reachable states holds from there, in
  which each of the six accounts has 100000 MBT in the currency, the account of Ferdie is the only
  regulator and the reward distribution is consistent. If two of the accounts were the same, the
  genesis would fail. The laws of the framework's genesis (no account twice, no balance below the
  existential deposit, no more authorities than allowed) are the documented ones.
\<close>

theorem development_chain:
  assumes keys: "authority_keys_from_seed K ''Alice'' \<noteq> None"
      "map (get_account_id_from_seed K) [''Alice'', ''Bob'', ''Dave'', ''Charlie'', ''Eve'', ''Ferdie''] =
        map Some accounts"
    and "perbill_whole (fw_perbill F)" "genesis_laws F G"
  shows "\<exists>spec gc. load_spec (fw_perbill F) (Some wasm) K from_json ''dev'' = Inr spec \<and>
    spec_constructor spec () = Some gc \<and>
    (\<not> distinct accounts \<longrightarrow> build_storage F G gc = None) \<and>
    (distinct accounts \<longrightarrow> (\<exists>t. build_storage F G gc = Some t \<and> runtime_reachable F t \<and>
      (\<forall>a \<in> set accounts. free_balance (fw_balances F) (Balances (rt_staking t)) a = 100000 * MBT) \<and>
      Regulators (rt_dapi t) = {accounts ! 5} \<and> is_consistent (fw_perbill F) (rt_reward_config t)))"
proof -
  obtain auth where auth: "authority_keys_from_seed K ''Alice'' = Some auth" using keys(1) by auto
  obtain a b d c e f where acc: "accounts = [a, b, d, c, e, f]"
      "get_account_id_from_seed K ''Alice'' = Some a" "get_account_id_from_seed K ''Bob'' = Some b"
      "get_account_id_from_seed K ''Dave'' = Some d" "get_account_id_from_seed K ''Charlie'' = Some c"
      "get_account_id_from_seed K ''Eve'' = Some e" "get_account_id_from_seed K ''Ferdie'' = Some f"
    using keys(2) by (auto simp: Cons_eq_map_conv)
  obtain gc where gc: "testnet_genesis (fw_perbill F) (Some wasm) [auth] a accounts [f] = Some gc"
    by (simp add: testnet_genesis_def wasm_binary_unwrap_def)
  have closure: "development_genesis (fw_perbill F) (Some wasm) K = Some gc"
    using gc by (simp add: development_genesis_def auth acc)
  let ?c = "the (balances_genesis G (gc_balances gc))"
  have built: "build_storage F G gc = (if distinct accounts then Some (runtime_genesis F [f] ?c) else None)"
    using testnet_storage [OF gc assms(3,4)] by (simp add: MaxAuthorities_def)
  moreover have "runtime_reachable F (runtime_genesis F [f] ?c)" unfolding runtime_reachable_def by blast
  moreover have "free_balance (fw_balances F) ?c x = 100000 * MBT" if "distinct accounts" "x \<in> set accounts" for x
    using testnet_funded [OF gc assms(4) that] .
  ultimately show ?thesis
    using closure default_consistent [OF assms(3)]
    by (auto simp: load_spec_def development_config_def Let_def runtime_genesis_def dapi_genesis_def
        genesis_def rt_staking_def acc(1))
qed

definition sample_keys :: "(nat, string, string) key_ops" where
  "sample_keys = \<lparr>sr25519_account = (\<lambda>s. Some (of_char (s ! 2))), aura_public = Some, grandpa_public = Some\<rparr>"

text \<open>A genesis that makes the assertions of the framework.\<close>

definition sample_genesis_ops :: "(nat, string, string, purse) genesis_ops" where
  "sample_genesis_ops =
     \<lparr>aura_genesis = (\<lambda>ks. if length ks \<le> unat MaxAuthorities then Some () else None),
      grandpa_genesis = (\<lambda>ks. if length ks \<le> unat MaxAuthorities then Some () else None),
      balances_genesis = (\<lambda>xs.
        if distinct (map fst xs) \<and> (\<forall>x \<in> set xs. ExistentialDeposit \<le> snd x)
        then Some (\<lambda>a. case map_of xs a of None \<Rightarrow> 0 | Some v \<Rightarrow> v) else None)\<rparr>"

lemma sample_genesis_laws: "genesis_laws sample_framework sample_genesis_ops"
  by (auto simp: genesis_laws_def sample_genesis_ops_def sample_framework_def sample_currency_def split: if_splits)

theorem development_chain_witness:
  "\<exists>spec gc t. load_spec sample_perbill (Some []) sample_keys Inl ''dev'' = Inr spec \<and>
     spec_constructor spec () = Some gc \<and> build_storage sample_framework sample_genesis_ops gc = Some t \<and>
     runtime_reachable sample_framework t \<and> Balances (rt_staking t) 66 = 100000 * MBT \<and>
     Regulators (rt_dapi t) = {70}"
proof -
  have keys: "authority_keys_from_seed sample_keys ''Alice'' \<noteq> None"
    "map (get_account_id_from_seed sample_keys) [''Alice'', ''Bob'', ''Dave'', ''Charlie'', ''Eve'', ''Ferdie''] =
      map Some [65, 66, 68, 67, 69, 70]"
    by (simp_all add: authority_keys_from_seed_def get_account_id_from_seed_def get_from_seed_def sample_keys_def)
  have "fw_perbill sample_framework = sample_perbill" "perbill_whole (fw_perbill sample_framework)"
    "free_balance (fw_balances sample_framework) = (\<lambda>c a. c a)"
    by (simp_all add: perbill_whole_def sample_framework_def sample_perbill_def sample_currency_def)
  with development_chain [OF keys this(2) sample_genesis_laws, of "[]" Inl] show ?thesis by auto
qed

end
